(* ===== verification/Prelude.thy ===== *)
theory Prelude
  imports Main "HOL-Library.Char_ord" "HOL-Library.Word" "HOL-Library.Finite_Map"
begin

text \<open>
  What the components share: Go's error values, nil-able string maps, map iteration in an
  arbitrary order, the functions of \<^verbatim>\<open>strings\<close> and \<^verbatim>\<open>strconv\<close> the sources use, and
  reachability with the locales that lift a one-step fact to every run.

  A Go string is a byte string, here a \<^typ>\<open>string\<close>.  The case mapping and the white-space
  test are those of Go on ASCII; a byte above 127 is left as it is.
\<close>

named_theorems go_simps \<open>functional behaviour of the modelled library functions\<close>

section \<open>Errors, panics and nil-able maps\<close>

text \<open>
  \<^verbatim>\<open>ErrFmt\<close> is \<^verbatim>\<open>fmt.Errorf\<close> with \<^verbatim>\<open>%s\<close> (the text of the inner error is kept, the error
  chain is not), \<^verbatim>\<open>ErrWrap\<close> is \<^verbatim>\<open>%w\<close> (the chain is kept), \<^verbatim>\<open>ErrStatus\<close> is a gRPC status
  error, \<^verbatim>\<open>ErrExt\<close> is an error value made by code outside the repository.
\<close>

datatype num_fail = BadSyntax | OutOfRange

datatype error =
    ErrText string
  | ErrFmt string error
  | ErrWrap string error
  | ErrStatus string error
  | ErrNum string num_fail string
  | ErrCanceled
  | ErrDeadline
  | ErrEOF
  | ErrExt nat

text \<open>\<^verbatim>\<open>errors.Is\<close>: only \<^verbatim>\<open>%w\<close> links of the chain are followed.\<close>

fun errors_is :: "error \<Rightarrow> error \<Rightarrow> bool" where
  "errors_is target (ErrWrap m e) \<longleftrightarrow> target = ErrWrap m e \<or> errors_is target e"
| "errors_is target e \<longleftrightarrow> target = e"

text \<open>A computation that may panic, and the result of a handler: nil, an error, a panic.\<close>

datatype 'a outcome = Returns 'a | Panics string

datatype result = Ok | Fail error | Crash string

fun result_ok :: "result \<Rightarrow> bool" where
  "result_ok Ok \<longleftrightarrow> True"
| "result_ok (Fail e) \<longleftrightarrow> False"
| "result_ok (Crash m) \<longleftrightarrow> False"

type_synonym smap = "(string, string) fmap"

text \<open>\<^verbatim>\<open>map[string]string\<close>: \<^term>\<open>None\<close> is the nil map, which reads as empty and panics on a write.\<close>

type_synonym gomap = "smap option"

definition gomap_get :: "gomap \<Rightarrow> string \<Rightarrow> string option" where
  "gomap_get m k = (case m of None \<Rightarrow> None | Some f \<Rightarrow> fmlookup f k)"

definition gomap_read :: "gomap \<Rightarrow> string \<Rightarrow> string" where
  "gomap_read m k = (case gomap_get m k of None \<Rightarrow> [] | Some v \<Rightarrow> v)"

definition nil_map_write :: string where
  "nil_map_write = ''assignment to entry in nil map''"

text \<open>\<^verbatim>\<open>if val, ok := m[k]; ok && val != ""\<close>: the value when there is one and it is not empty.\<close>

definition gomap_nonempty :: "gomap \<Rightarrow> string \<Rightarrow> string option" where
  "gomap_nonempty m k =
     (case gomap_get m k of None \<Rightarrow> None | Some v \<Rightarrow> (if v \<noteq> [] then Some v else None))"

text \<open>The early return of an error: the rest runs only on a value.\<close>

fun try_then :: "error + 'a \<Rightarrow> ('a \<Rightarrow> error + 'b) \<Rightarrow> error + 'b" where
  "try_then (Inl e) f = Inl e"
| "try_then (Inr a) f = f a"

lemma try_then_Inr: "try_then x f = Inr b \<longleftrightarrow> (\<exists>a. x = Inr a \<and> f a = Inr b)"
  by (cases x) auto

fun gomap_set :: "gomap \<Rightarrow> string \<Rightarrow> string \<Rightarrow> gomap outcome" where
  "gomap_set None k v = Panics nil_map_write"
| "gomap_set (Some f) k v = Returns (Some (fmupd k v f))"

text \<open>A list that enumerates a map's keys: one order a \<^verbatim>\<open>range\<close> loop may visit it in.\<close>

definition enumerates :: "'k list \<Rightarrow> ('k, 'v) fmap \<Rightarrow> bool" where
  "enumerates ks m \<longleftrightarrow> distinct ks \<and> fset_of_list ks = fmdom m"

lemma gomap_get_simps [simp]:
  "gomap_get None k = None"
  "gomap_get (Some f) k = fmlookup f k"
  by (simp_all add: gomap_get_def)

lemma gomap_read_simps [simp]:
  "gomap_read None k = []"
  "fmlookup f k = None \<Longrightarrow> gomap_read (Some f) k = []"
  "fmlookup f k = Some v \<Longrightarrow> gomap_read (Some f) k = v"
  by (simp_all only: gomap_read_def gomap_get_simps option.case)

lemma enumerates_mem: "enumerates ks m \<Longrightarrow> k \<in> set ks \<longleftrightarrow> fmlookup m k \<noteq> None"
  using fset_of_list_elem [of k ks] by (auto simp: enumerates_def fmlookup_dom_iff)

lemma enumerates_distinct: "enumerates ks m \<Longrightarrow> distinct ks"
  by (simp add: enumerates_def)

lemma enumerates_empty [simp]: "enumerates [] m \<longleftrightarrow> m = fmempty"
proof
  assume "enumerates [] m"
  then have "fmlookup m k = None" for k using enumerates_mem [of "[]" m k] by auto
  then show "m = fmempty" by (intro fmap_ext) simp
qed (simp add: enumerates_def)

lemma enumerates_exists: "\<exists>ks. enumerates ks m"
proof -
  obtain ks where ks: "set ks = fset (fmdom m)" and "distinct ks"
    using finite_distinct_list [OF finite_fset [of "fmdom m"]] by metis
  have "fset_of_list ks = fmdom m"
    by (rule fset_eqI) (simp only: fset_of_list_elem ks)
  with \<open>distinct ks\<close> have "enumerates ks m" by (simp only: enumerates_def)
  then show ?thesis ..
qed

section \<open>The parts of \<^verbatim>\<open>strings\<close> the sources use\<close>

definition lower_char :: "char \<Rightarrow> char" where
  "lower_char c = (if CHR ''A'' \<le> c \<and> c \<le> CHR ''Z'' then char_of (of_char c + (32::nat)) else c)"

definition to_lower :: "string \<Rightarrow> string" where
  "to_lower s = map lower_char s"

fun has_prefix :: "string \<Rightarrow> string \<Rightarrow> bool" where
  "has_prefix [] s = True"
| "has_prefix (p # ps) [] = False"
| "has_prefix (p # ps) (c # cs) = (p = c \<and> has_prefix ps cs)"

text \<open>\<^verbatim>\<open>strings.Index\<close>: the first position where \<open>sub\<close> occurs.\<close>

fun index_of :: "string \<Rightarrow> string \<Rightarrow> nat option" where
  "index_of sub [] = (if sub = [] then Some 0 else None)"
| "index_of sub (c # s) =
     (if has_prefix sub (c # s) then Some 0 else map_option Suc (index_of sub s))"

definition str_contains :: "string \<Rightarrow> string \<Rightarrow> bool" where
  "str_contains s sub \<longleftrightarrow> index_of sub s \<noteq> None"

text \<open>\<^verbatim>\<open>strings.Replace(s, old, new, 1)\<close> for a non-empty \<open>old\<close>.\<close>

definition replace_first :: "string \<Rightarrow> string \<Rightarrow> string \<Rightarrow> string" where
  "replace_first s old new =
     (case index_of old s of
        None \<Rightarrow> s
      | Some i \<Rightarrow> take i s @ new @ drop (i + length old) s)"

text \<open>\<^verbatim>\<open>strings.ReplaceAll\<close> of one byte by another.\<close>

definition replace_char :: "char \<Rightarrow> char \<Rightarrow> string \<Rightarrow> string" where
  "replace_char a b s = map (\<lambda>c. if c = a then b else c) s"

text \<open>\<^verbatim>\<open>strings.Split\<close> on a one-byte separator.\<close>

fun split_char :: "char \<Rightarrow> string \<Rightarrow> string list" where
  "split_char d [] = [[]]"
| "split_char d (c # cs) =
     (if c = d then [] # split_char d cs
      else (case split_char d cs of [] \<Rightarrow> [[c]] | w # ws \<Rightarrow> (c # w) # ws))"

definition is_space :: "char \<Rightarrow> bool" where
  "is_space c \<longleftrightarrow> c = CHR '' '' \<or> (CHR 0x09 \<le> c \<and> c \<le> CHR 0x0D)"

definition trim_space :: "string \<Rightarrow> string" where
  "trim_space s = rev (dropWhile is_space (rev (dropWhile is_space s)))"

fun join_with :: "string \<Rightarrow> string list \<Rightarrow> string" where
  "join_with sep [] = []"
| "join_with sep [w] = w"
| "join_with sep (w # v # ws) = w @ sep @ join_with sep (v # ws)"

lemma of_char_upper: "CHR ''A'' \<le> c \<and> c \<le> CHR ''Z'' \<longleftrightarrow> 65 \<le> (of_char c :: nat) \<and> (of_char c :: nat) \<le> 90"
  by (simp add: less_eq_char_def)

lemma lower_char_idem [simp]: "lower_char (lower_char c) = lower_char c"
proof (cases "65 \<le> (of_char c :: nat) \<and> (of_char c :: nat) \<le> 90")
  case True
  then have "(of_char (char_of (of_char c + (32::nat)) :: char) :: nat) = of_char c + 32"
    by simp
  then show ?thesis
    using True by (simp add: lower_char_def of_char_upper)
next
  case False
  then show ?thesis by (auto simp: lower_char_def of_char_upper)
qed

lemma to_lower_idem [simp]: "to_lower (to_lower s) = to_lower s"
  by (simp add: to_lower_def)

lemma to_lower_append [simp]: "to_lower (s @ t) = to_lower s @ to_lower t"
  by (simp add: to_lower_def)

lemma length_to_lower [simp]: "length (to_lower s) = length s"
  by (simp add: to_lower_def)

lemma has_prefix_iff: "has_prefix p s \<longleftrightarrow> (\<exists>r. s = p @ r)"
  by (induction p s rule: has_prefix.induct) auto

lemma has_prefix_append [simp]: "has_prefix p (p @ r)"
  by (auto simp: has_prefix_iff)

lemma index_of_Some_split:
  "index_of sub s = Some i \<Longrightarrow> s = take i s @ sub @ drop (i + length sub) s \<and> i + length sub \<le> length s"
proof (induction s arbitrary: i)
  case Nil
  then show ?case by (simp split: if_splits)
next
  case (Cons c s)
  show ?case
  proof (cases "has_prefix sub (c # s)")
    case True
    then obtain r where r: "c # s = sub @ r" by (auto simp: has_prefix_iff)
    from True Cons.prems have "i = 0" by simp
    then show ?thesis unfolding r by simp
  next
    case False
    with Cons.prems obtain j where "index_of sub s = Some j" and "i = Suc j" by auto
    with Cons.IH [of j] show ?thesis by simp
  qed
qed

lemma index_of_None: "index_of sub s = None \<Longrightarrow> s \<noteq> a @ sub @ b"
proof (induction s arbitrary: a)
  case Nil
  then show ?case by (auto split: if_splits)
next
  case (Cons c s)
  then show ?case
    by (cases a) (auto split: if_splits simp: has_prefix_iff)
qed

lemma str_contains_iff: "str_contains s sub \<longleftrightarrow> (\<exists>a b. s = a @ sub @ b)"
  unfolding str_contains_def
  using index_of_None index_of_Some_split by blast

lemma replace_first_absent [simp]: "\<not> str_contains s old \<Longrightarrow> replace_first s old new = s"
  by (simp add: replace_first_def str_contains_def)

lemma replace_char_absent: "a \<noteq> b \<Longrightarrow> a \<notin> set (replace_char a b s)"
  by (auto simp: replace_char_def)

lemma length_replace_char [simp]: "length (replace_char a b s) = length s"
  by (simp add: replace_char_def)

lemma split_char_nonempty [simp]: "split_char d s \<noteq> []"
  by (cases s) (auto split: list.splits)

lemma split_char_no_sep: "w \<in> set (split_char d s) \<Longrightarrow> d \<notin> set w"
  by (induction s arbitrary: w) (auto split: if_splits list.splits)

lemma join_split_char: "join_with [d] (split_char d s) = s"
proof (induction s)
  case Nil
  then show ?case by simp
next
  case (Cons c s)
  obtain w ws where ws: "split_char d s = w # ws"
    by (cases "split_char d s") auto
  with Cons.IH show ?case by (cases ws) auto
qed

lemma split_char_absent: "d \<notin> set s \<Longrightarrow> split_char d s = [s]"
  by (induction s) auto

lemma split_char_sep: "d \<notin> set k \<Longrightarrow> split_char d (k @ d # v) = k # split_char d v"
  by (induction k) auto

section \<open>The parts of \<^verbatim>\<open>strconv\<close> the sources use\<close>

definition digit_char :: "nat \<Rightarrow> char" where
  "digit_char d = char_of (48 + d)"

fun utoa :: "nat \<Rightarrow> string" where
  "utoa n = (if n < 10 then [digit_char n] else utoa (n div 10) @ [digit_char (n mod 10)])"

declare utoa.simps [simp del]

text \<open>\<^verbatim>\<open>strconv.Itoa\<close> and \<^verbatim>\<open>%d\<close>.\<close>

definition itoa :: "int \<Rightarrow> string" where
  "itoa i = (if i < 0 then CHR ''-'' # utoa (nat (- i)) else utoa (nat i))"

definition is_digit :: "char \<Rightarrow> bool" where
  "is_digit c \<longleftrightarrow> CHR ''0'' \<le> c \<and> c \<le> CHR ''9''"

definition digit_val :: "char \<Rightarrow> nat" where
  "digit_val c = of_char c - 48"

text \<open>
  The digit loop of \<^verbatim>\<open>strconv.ParseUint\<close> in base 10: it stops at the first byte that is not a
  digit (bad syntax) or at the first prefix above \<open>lim\<close> (out of range), whichever comes first.
\<close>

fun parse_digits :: "nat \<Rightarrow> nat \<Rightarrow> string \<Rightarrow> num_fail + nat" where
  "parse_digits lim n [] = Inr n"
| "parse_digits lim n (c # cs) =
     (if \<not> is_digit c then Inl BadSyntax
      else if n * 10 + digit_val c > lim then Inl OutOfRange
      else parse_digits lim (n * 10 + digit_val c) cs)"

definition parse_uint :: "nat \<Rightarrow> string \<Rightarrow> error + nat" where
  "parse_uint bits s =
     (if s = [] then Inl (ErrNum ''ParseUint'' BadSyntax s)
      else (case parse_digits (2 ^ bits - 1) 0 s of
              Inl f \<Rightarrow> Inl (ErrNum ''ParseUint'' f s)
            | Inr n \<Rightarrow> Inr n))"

text \<open>\<^verbatim>\<open>strconv.ParseInt\<close> in base 10: an optional sign, the digits, then the signed range.\<close>

definition parse_int :: "nat \<Rightarrow> string \<Rightarrow> error + int" where
  "parse_int bits s =
     (let neg = has_prefix ''-'' s;
          body = (if neg \<or> has_prefix ''+'' s then tl s else s)
      in if s = [] then Inl (ErrNum ''ParseInt'' BadSyntax s)
         else case parse_uint bits body of
             Inl (ErrNum fn f i) \<Rightarrow> Inl (ErrNum ''ParseInt'' f s)
           | Inl e \<Rightarrow> Inl e
           | Inr n \<Rightarrow>
               (if \<not> neg \<and> n \<ge> 2 ^ (bits - 1) then Inl (ErrNum ''ParseInt'' OutOfRange s)
                else if neg \<and> n > 2 ^ (bits - 1) then Inl (ErrNum ''ParseInt'' OutOfRange s)
                else Inr (if neg then - int n else int n)))"

lemma digit_char_val [simp]: "d < 10 \<Longrightarrow> digit_val (digit_char d) = d"
  by (simp add: digit_char_def digit_val_def)

lemma digit_char_digit [simp]: "d < 10 \<Longrightarrow> is_digit (digit_char d)"
  by (simp add: digit_char_def is_digit_def less_eq_char_def)

lemma digit_char_eval [simp]:
  "digit_char 0 = CHR ''0''" "digit_char (Suc 0) = CHR ''1''" "digit_char 2 = CHR ''2''"
  "digit_char 3 = CHR ''3''" "digit_char 4 = CHR ''4''" "digit_char 5 = CHR ''5''"
  "digit_char 6 = CHR ''6''" "digit_char 7 = CHR ''7''" "digit_char 8 = CHR ''8''"
  "digit_char 9 = CHR ''9''"
  by (simp_all add: digit_char_def char_of_def bit_Suc_0_iff)

lemma parse_digits_append:
  "parse_digits lim n s = Inr m \<Longrightarrow> parse_digits lim n (s @ t) = parse_digits lim m t"
  by (induction s arbitrary: n) (auto split: if_splits)

lemma parse_digits_bound: "parse_digits lim n s = Inr m \<Longrightarrow> n \<le> lim \<Longrightarrow> m \<le> lim"
  by (induction s arbitrary: n) (auto split: if_splits)

lemma parse_digits_utoa: "n \<le> lim \<Longrightarrow> parse_digits lim 0 (utoa n) = Inr n"
proof (induction n rule: utoa.induct)
  case (1 n)
  show ?case
  proof (cases "n < 10")
    case True
    with "1.prems" show ?thesis by (simp add: utoa.simps [of n])
  next
    case False
    have "n div 10 \<le> lim" using "1.prems" by arith
    with "1.IH" False have "parse_digits lim 0 (utoa (n div 10)) = Inr (n div 10)" by simp
    from parse_digits_append [OF this] show ?thesis
      using False "1.prems" by (simp add: utoa.simps [of n])
  qed
qed

lemma utoa_nonempty [simp]: "utoa n \<noteq> []"
  by (simp add: utoa.simps [of n])

lemma utoa_digits: "c \<in> set (utoa n) \<Longrightarrow> is_digit c"
proof (induction n rule: utoa.induct)
  case (1 n)
  then show ?case by (cases "n < 10") (auto simp: utoa.simps [of n])
qed

lemma utoa_inj: "utoa m = utoa n \<Longrightarrow> m = n"
  using parse_digits_utoa [of m "max m n"] parse_digits_utoa [of n "max m n"]
  by (metis max.cobounded1 max.cobounded2 sum.inject(2))

lemma parse_uint_utoa [go_simps]: "n < 2 ^ bits \<Longrightarrow> parse_uint bits (utoa n) = Inr n"
proof -
  assume "n < 2 ^ bits"
  then have "n \<le> 2 ^ bits - 1" by simp
  then have "parse_digits (2 ^ bits - 1) 0 (utoa n) = Inr n" by (rule parse_digits_utoa)
  then show ?thesis by (simp add: parse_uint_def)
qed

lemma parse_uint_bound: "parse_uint bits s = Inr n \<Longrightarrow> n < 2 ^ bits"
proof -
  assume "parse_uint bits s = Inr n"
  then have "parse_digits (2 ^ bits - 1) 0 s = Inr n"
    by (simp add: parse_uint_def split: if_splits sum.splits)
  then have "n \<le> 2 ^ bits - 1" by (rule parse_digits_bound) simp
  moreover have "(0::nat) < 2 ^ bits" by simp
  ultimately show "n < 2 ^ bits" by linarith
qed

lemma parse_int_bounds:
  assumes "parse_int bits s = Inr i"
  shows "- (2 ^ (bits - 1)) \<le> i \<and> i < 2 ^ (bits - 1)"
proof -
  from assms obtain n where n: "(i = int n \<and> n < 2 ^ (bits - 1)) \<or> (i = - int n \<and> n \<le> 2 ^ (bits - 1))"
    by (auto simp: parse_int_def Let_def not_le not_less split: if_splits sum.splits error.splits)
  have "n < 2 ^ (bits - 1) \<Longrightarrow> int n < 2 ^ (bits - 1)" and "n \<le> 2 ^ (bits - 1) \<Longrightarrow> int n \<le> 2 ^ (bits - 1)"
    by (metis of_nat_less_iff of_nat_numeral of_nat_power, metis of_nat_le_iff of_nat_numeral of_nat_power)
  moreover have "(0::int) < 2 ^ (bits - 1)" by simp
  ultimately show ?thesis using n by linarith
qed

lemma parse_uint_lt: "0 < bits \<Longrightarrow> n \<le> 2 ^ (bits - 1) \<Longrightarrow> parse_uint bits (utoa n) = Inr n"
proof -
  assume b: "0 < bits" and n: "n \<le> 2 ^ (bits - 1)"
  have "(2::nat) ^ (bits - 1) < 2 ^ bits" using b by (intro power_strict_increasing) auto
  with n have "n < 2 ^ bits" by (rule le_less_trans)
  then show ?thesis by (rule parse_uint_utoa)
qed

lemma utoa_no_sign: "\<not> has_prefix ''-'' (utoa n)" "\<not> has_prefix ''+'' (utoa n)"
proof -
  obtain c cs where c: "utoa n = c # cs" by (cases "utoa n") auto
  then have "is_digit c" using utoa_digits [of c n] by simp
  then have "c \<noteq> CHR ''-''" and "c \<noteq> CHR ''+''" by (auto simp: is_digit_def less_eq_char_def)
  with c show "\<not> has_prefix ''-'' (utoa n)" "\<not> has_prefix ''+'' (utoa n)" by auto
qed

lemma parse_int_itoa [go_simps]:
  assumes "0 < bits" and "- (2 ^ (bits - 1)) \<le> i" and "i < 2 ^ (bits - 1)"
  shows "parse_int bits (itoa i) = Inr i"
proof (cases "i < 0")
  case True
  then have "nat (- i) \<le> 2 ^ (bits - 1)" using assms(2) by (simp add: nat_le_iff)
  then show ?thesis
    using True parse_uint_lt [OF assms(1), of "nat (- i)"]
    by (simp add: parse_int_def itoa_def Let_def)
next
  case False
  then have "nat i < 2 ^ (bits - 1)" using assms(3) by (simp add: nat_less_iff)
  then show ?thesis
    using False parse_uint_lt [OF assms(1), of "nat i"] utoa_no_sign [of "nat i"]
    by (simp add: parse_int_def itoa_def Let_def)
qed

section \<open>Runs of a step relation\<close>

text \<open>
  A component with concurrent parts is an initial predicate and a step relation; a state is
  reachable when some run from an initial state leads to it.
\<close>

inductive reachable :: "('s \<Rightarrow> bool) \<Rightarrow> ('s \<Rightarrow> 's \<Rightarrow> bool) \<Rightarrow> 's \<Rightarrow> bool"
  for init :: "'s \<Rightarrow> bool" and step :: "'s \<Rightarrow> 's \<Rightarrow> bool" where
  reachable_init: "init s \<Longrightarrow> reachable init step s"
| reachable_step: "reachable init step s \<Longrightarrow> step s t \<Longrightarrow> reachable init step t"

lemma reachable_steps: "step\<^sup>*\<^sup>* s t \<Longrightarrow> reachable init step s \<Longrightarrow> reachable init step t"
  by (induction rule: rtranclp_induct) (auto intro: reachable_step)

text \<open>A predicate every step keeps: used for permanent blocking as well as for invariants.\<close>

locale preserved =
  fixes step :: "'s \<Rightarrow> 's \<Rightarrow> bool" and inv :: "'s \<Rightarrow> bool"
  assumes inv_step: "inv s \<Longrightarrow> step s t \<Longrightarrow> inv t"
begin

lemma inv_steps: "step\<^sup>*\<^sup>* s t \<Longrightarrow> inv s \<Longrightarrow> inv t"
  by (induction rule: rtranclp_induct) (auto intro: inv_step)

end

text \<open>An invariant: it also holds initially, so it holds in every reachable state.\<close>

locale invariant_system = preserved step inv
  for step :: "'s \<Rightarrow> 's \<Rightarrow> bool" and inv :: "'s \<Rightarrow> bool" +
  fixes init :: "'s \<Rightarrow> bool"
  assumes inv_init: "init s \<Longrightarrow> inv s"
begin

lemma inv_reachable: "reachable init step s \<Longrightarrow> inv s"
  by (induction rule: reachable.induct) (auto intro: inv_init inv_step)

end

text \<open>
  A forward simulation: every step of the detailed system is a step of the abstract one, or invisible
  to it.  Then every reachable state maps to a reachable state, and what every abstract step keeps
  holds along every run of the detailed system.
\<close>

locale simulation = invariant_system step inv init
  for step :: "'s \<Rightarrow> 's \<Rightarrow> bool" and inv :: "'s \<Rightarrow> bool" and init :: "'s \<Rightarrow> bool" +
  fixes abs :: "'s \<Rightarrow> 'a" and abs_init :: "'a \<Rightarrow> bool" and abs_step :: "'a \<Rightarrow> 'a \<Rightarrow> bool"
  assumes sim_init: "init s \<Longrightarrow> abs_init (abs s)"
    and sim_step: "inv s \<Longrightarrow> step s t \<Longrightarrow> abs t = abs s \<or> abs_step (abs s) (abs t)"
begin

lemma sim_reachable_step:
  "reachable init step s \<Longrightarrow> step s t \<Longrightarrow> abs t = abs s \<or> abs_step (abs s) (abs t)"
  by (rule sim_step [OF inv_reachable])

lemma sim_reachable: "reachable init step s \<Longrightarrow> reachable abs_init abs_step (abs s)"
proof (induction rule: reachable.induct)
  case (reachable_init s)
  from sim_init [OF reachable_init] show ?case by (rule reachable.reachable_init)
next
  case (reachable_step s t)
  from sim_reachable_step [OF reachable_step.hyps] show ?case
  proof
    assume "abs t = abs s"
    then show ?thesis using reachable_step.IH by simp
  next
    assume "abs_step (abs s) (abs t)"
    with reachable_step.IH show ?thesis by (rule reachable.reachable_step)
  qed
qed

lemma sim_steps:
  assumes "step\<^sup>*\<^sup>* s t" and "reachable init step s"
  shows "abs_step\<^sup>*\<^sup>* (abs s) (abs t)"
  using assms(1)
proof (induction rule: rtranclp_induct)
  case (step t u)
  have "abs u = abs t \<or> abs_step (abs t) (abs u)"
    using sim_reachable_step [OF reachable_steps [OF step.hyps(1) assms(2)] step.hyps(2)] .
  with step.IH show ?case by (auto intro: rtranclp.rtrancl_into_rtrancl)
qed simp

end

text \<open>
  Progress: from every live state that is not final some step leads to a live state of a smaller measure,
  so a final state can always be reached.
\<close>

locale progress_system = invariant_system step inv init
  for step :: "'s \<Rightarrow> 's \<Rightarrow> bool" and inv :: "'s \<Rightarrow> bool" and init :: "'s \<Rightarrow> bool" +
  fixes live :: "'s \<Rightarrow> bool" and final :: "'s \<Rightarrow> bool" and distance :: "'s \<Rightarrow> nat"
  assumes progress: "inv s \<Longrightarrow> live s \<Longrightarrow> \<not> final s \<Longrightarrow> \<exists>t. step s t \<and> live t \<and> distance t < distance s"
begin

lemma final_reached: "inv s \<Longrightarrow> live s \<Longrightarrow> \<exists>t. step\<^sup>*\<^sup>* s t \<and> final t \<and> inv t \<and> live t"
proof (induction "distance s" arbitrary: s rule: less_induct)
  case less
  show ?case
  proof (cases "final s")
    case True
    with less.prems show ?thesis by blast
  next
    case False
    from progress [OF less.prems this] obtain t where t: "step s t" "live t" "distance t < distance s" by blast
    from less.hyps [OF t(3) inv_step [OF less.prems(1) t(1)] t(2)] t(1) show ?thesis
      by (meson converse_rtranclp_into_rtranclp)
  qed
qed

end

end
