(* ===== verification/Listeners.thy ===== *)
theory Listeners
  imports Prelude
begin

text \<open>
  The interface of a list of subscribers: the in-memory bus keeps one per topic, the operator
  keeps one for components and one for configurations.  Clients add a fresh listener, later
  remove it, and rely on the laws below; each provider is interpreted in its own theory.
\<close>

locale listener_list =
  fixes add :: "'l \<Rightarrow> 's \<Rightarrow> 's"
    and rem :: "'l \<Rightarrow> 's \<Rightarrow> 's"
    and listeners :: "'s \<Rightarrow> 'l list"
  assumes listeners_add: "listeners (add x s) = listeners s @ [x]"
    and listeners_rem: "listeners (rem x s) = filter (\<lambda>y. y \<noteq> x) (listeners s)"
begin

lemma rem_fresh_add: "x \<notin> set (listeners s) \<Longrightarrow> listeners (rem x (add x s)) = listeners s"
  by (simp add: listeners_add listeners_rem filter_id_conv) (metis filter_True)

lemma rem_gone: "x \<notin> set (listeners (rem x s))"
  by (simp add: listeners_rem)

lemma rem_keeps_others: "y \<noteq> x \<Longrightarrow> y \<in> set (listeners (rem x s)) \<longleftrightarrow> y \<in> set (listeners s)"
  by (simp add: listeners_rem)

lemma rem_idem: "listeners (rem x (rem x s)) = listeners (rem x s)"
  by (simp add: listeners_rem)

lemma rem_commute: "listeners (rem x (rem y s)) = listeners (rem y (rem x s))"
  by (simp add: listeners_rem conj_commute)

lemma distinct_add: "x \<notin> set (listeners s) \<Longrightarrow> distinct (listeners s) \<Longrightarrow> distinct (listeners (add x s))"
  by (simp add: listeners_add)

lemma distinct_rem: "distinct (listeners s) \<Longrightarrow> distinct (listeners (rem x s))"
  by (simp add: listeners_rem)

lemma rem_add_other: "x \<noteq> y \<Longrightarrow> listeners (rem x (add y s)) = listeners (add y (rem x s))"
  by (simp add: listeners_add listeners_rem)

end

end
