(* ===== verification/Messaging.thy ===== *)
theory Messaging
  imports Prelude
begin

text \<open>
  The data of \<^verbatim>\<open>pkg/messaging\<close>: the message envelope, requests and options
  (\<^verbatim>\<open>types.go\<close>), and the middleware pipeline (\<^verbatim>\<open>pipeline.go\<close>).

  A \<^verbatim>\<open>Handler\<close> gets a pointer to the envelope and may change it, so it is a function from a
  context, an envelope and a world to a result, the envelope as it leaves it, and the world.
\<close>

section \<open>Types\<close>

text \<open>What \<^verbatim>\<open>interface{}\<close> can hold after JSON decoding; a number is kept as its text.\<close>

datatype json = VNull | VBool bool | VNum string | VStr string
  | VArr "json list" | VObj "(string \<times> json) list"

record envelope =
  env_id :: string
  env_type :: string
  env_spec_version :: string
  env_data_content_type :: string
  env_time :: int
  env_subject :: string
  env_headers :: gomap
  env_payload :: json

text \<open>The zero value \<^verbatim>\<open>MessageEnvelope{}\<close>.\<close>

definition empty_envelope :: envelope where
  "empty_envelope =
     \<lparr>env_id = [], env_type = [], env_spec_version = [], env_data_content_type = [],
      env_time = 0, env_subject = [], env_headers = None, env_payload = VNull\<rparr>"

record publish_request =
  pr_pubsub_name :: string
  pr_topic :: string
  pr_data :: json
  pr_type :: string
  pr_data_content_type :: string
  pr_metadata :: gomap

text \<open>Pointers of \<^verbatim>\<open>SubscriptionOptions\<close>: \<^term>\<open>None\<close> is nil. A duration counts nanoseconds.\<close>

record subscription_options =
  so_durable :: "bool option"
  so_qgroup :: "bool option"
  so_max_concurrent :: "32 word option"
  so_deliver_new :: "bool option"
  so_ack_wait :: "int option"

text \<open>\<^verbatim>\<open>new(SubscriptionOptions)\<close>.\<close>

definition no_subscription_options :: subscription_options where
  "no_subscription_options =
     \<lparr>so_durable = None, so_qgroup = None, so_max_concurrent = None,
      so_deliver_new = None, so_ack_wait = None\<rparr>"

text \<open>
  A context: the value stored under \<^verbatim>\<open>TopicKey\<close> and what OpenTelemetry keeps in it.
\<close>

record 'o ctx =
  ctx_topic :: "string option"
  ctx_otel :: 'o

type_synonym ('o, 'w) handler = "'o ctx \<Rightarrow> envelope \<Rightarrow> 'w \<Rightarrow> result \<times> envelope \<times> 'w"

type_synonym ('o, 'w) middleware = "('o, 'w) handler \<Rightarrow> ('o, 'w) handler"

record ('o, 'w) subscribe_request =
  sr_pubsub_name :: string
  sr_topic :: string
  sr_handler :: "('o, 'w) handler"
  sr_options :: "subscription_options option"

definition topic_key :: string where
  "topic_key = ''topic''"

text \<open>\<^verbatim>\<open>ExtractTopicFromEnvelope\<close> is a stub in the source.\<close>

definition extract_topic_from_envelope :: "envelope \<Rightarrow> string" where
  "extract_topic_from_envelope msg = []"

section \<open>The pipeline\<close>

type_synonym ('o, 'w) pipeline = "('o, 'w) middleware list"

definition use_middleware :: "('o, 'w) pipeline \<Rightarrow> ('o, 'w) middleware \<Rightarrow> ('o, 'w) pipeline" where
  "use_middleware p m = p @ [m]"

text \<open>The loop of \<^verbatim>\<open>Build\<close>: index \<open>n - 1\<close> down to 0.\<close>

fun build_from :: "('o, 'w) pipeline \<Rightarrow> nat \<Rightarrow> ('o, 'w) handler \<Rightarrow> ('o, 'w) handler" where
  "build_from p 0 h = h"
| "build_from p (Suc i) h = build_from p i ((p ! i) h)"

definition build_pipeline :: "('o, 'w) pipeline \<Rightarrow> ('o, 'w) handler \<Rightarrow> ('o, 'w) handler" where
  "build_pipeline p h = build_from p (length p) h"

lemma build_from_foldr: "n \<le> length p \<Longrightarrow> build_from p n h = foldr (\<lambda>m. m) (take n p) h"
proof (induction n arbitrary: h)
  case 0
  then show ?case by simp
next
  case (Suc n)
  then have "take (Suc n) p = take n p @ [p ! n]"
    by (simp add: take_Suc_conv_app_nth)
  with Suc show ?case by simp
qed

lemma build_pipeline_foldr: "build_pipeline p h = foldr (\<lambda>m. m) p h"
  by (simp add: build_pipeline_def build_from_foldr)

lemma build_pipeline_simps [go_simps]:
  "build_pipeline [] h = h"
  "build_pipeline (m # p) h = m (build_pipeline p h)"
  "build_pipeline (use_middleware p m) h = build_pipeline p (m h)"
  by (simp_all add: build_pipeline_foldr use_middleware_def)

text \<open>
  A middleware is transparent for a property of handlers when it keeps it; the pipeline then
  keeps it too.
\<close>

lemma build_pipeline_keeps:
  assumes "P h" and "\<And>m g. m \<in> set p \<Longrightarrow> P g \<Longrightarrow> P (m g)"
  shows "P (build_pipeline p h)"
  using assms by (induction p) (auto simp: go_simps)

text \<open>\<^verbatim>\<open>Pipeline.Build\<close> nests the middlewares in the order of \<^verbatim>\<open>UseMiddleware\<close>: the first
  one registered is the outermost, the one registered last wraps the handler itself, and building
  a concatenated pipeline is building the first part around the second.\<close>

theorem pipeline_build_order:
  "build_pipeline (use_middleware p m) h = build_pipeline p (m h)
   \<and> build_pipeline (p @ q) h = build_pipeline p (build_pipeline q h)
   \<and> build_pipeline p h = foldr (\<lambda>m. m) p h"
  by (simp add: build_pipeline_foldr use_middleware_def)

end
