(* ===== verification/Inmemory.thy ===== *)
theory Inmemory
  imports Listeners Messaging "HOL-Library.Multiset"
begin

text \<open>
  The in-memory bus of \<^verbatim>\<open>pkg/messaging/inmemory.go\<close>.

  \<^verbatim>\<open>handlers\<close> is a map from a topic to a slice of handler pointers: a pointer is a number, taken
  from a counter when \<^verbatim>\<open>&handler\<close> makes it, and the handler it points to is in a store; a
  topic without entry reads as the empty slice.  \<^verbatim>\<open>runHandlers\<close> runs in goroutines, so the second
  half of the theory is a step relation over the goroutines that are alive.
\<close>

section \<open>State and operations\<close>

record 'h bus =
  bus_handlers :: "string \<Rightarrow> nat list"
  bus_store :: "nat \<rightharpoonup> 'h"
  bus_next :: nat
  bus_counter :: "32 word"

definition new_in_memory_bus :: "'h bus" where
  "new_in_memory_bus =
     \<lparr>bus_handlers = (\<lambda>t. []), bus_store = Map.empty, bus_next = 0, bus_counter = 0\<rparr>"

text \<open>\<^verbatim>\<open>Publish\<close>: the headers get the topic, the handlers of the topic are handed to a goroutine.\<close>

definition bus_publish :: "string \<Rightarrow> envelope \<Rightarrow> 'h bus \<Rightarrow> envelope \<times> nat list" where
  "bus_publish topic env b =
     (let h = bus_handlers b topic;
          headers = (case env_headers env of None \<Rightarrow> fmempty | Some f \<Rightarrow> f)
      in (env\<lparr>env_headers := Some (fmupd topic_key topic headers)\<rparr>, h))"

definition bus_add :: "string \<Rightarrow> nat \<Rightarrow> 'h bus \<Rightarrow> 'h bus" where
  "bus_add topic ptr b =
     b\<lparr>bus_handlers := (bus_handlers b)(topic := bus_handlers b topic @ [ptr])\<rparr>"

text \<open>\<^verbatim>\<open>Subscribe\<close>: the new bus and the pointer the returned close function holds.\<close>

definition bus_subscribe :: "string \<Rightarrow> 'h \<Rightarrow> 'h bus \<Rightarrow> 'h bus \<times> nat" where
  "bus_subscribe topic h b =
     (let ptr = bus_next b
      in (bus_add topic ptr
            (b\<lparr>bus_store := (bus_store b)(ptr \<mapsto> h), bus_next := Suc ptr\<rparr>), ptr))"

text \<open>The loop of the close function over the slice of the topic.\<close>

fun drop_pointer :: "nat \<Rightarrow> nat list \<Rightarrow> nat list" where
  "drop_pointer p [] = []"
| "drop_pointer p (h # hs) = (if h \<noteq> p then h # drop_pointer p hs else drop_pointer p hs)"

definition bus_close_sub :: "string \<Rightarrow> nat \<Rightarrow> 'h bus \<Rightarrow> 'h bus" where
  "bus_close_sub topic ptr b =
     b\<lparr>bus_handlers := (bus_handlers b)(topic := drop_pointer ptr (bus_handlers b topic))\<rparr>"

definition bus_init :: "gomap \<Rightarrow> 'h bus \<Rightarrow> error option \<times> 'h bus" where
  "bus_init properties b = (None, b)"

definition bus_close :: "'h bus \<Rightarrow> error option \<times> 'h bus" where
  "bus_close b = (None, b)"

definition is_done_working :: "'h bus \<Rightarrow> bool" where
  "is_done_working b \<longleftrightarrow> bus_counter b = 0"

definition get_subscribers_count :: "string \<Rightarrow> 'h bus \<Rightarrow> nat" where
  "get_subscribers_count topic b = length (bus_handlers b topic)"

section \<open>Subscriptions\<close>

lemma drop_pointer_filter: "drop_pointer p hs = filter (\<lambda>h. h \<noteq> p) hs"
  by (induction hs) auto

interpretation topic: listener_list "bus_add t" "bus_close_sub t" "\<lambda>b. bus_handlers b t" for t
  by unfold_locales (auto simp: bus_add_def bus_close_sub_def drop_pointer_filter)

text \<open>Pointers in the slices were handed out before, each once.\<close>

definition bus_wf :: "'h bus \<Rightarrow> bool" where
  "bus_wf b \<longleftrightarrow>
     (\<forall>t p. p \<in> set (bus_handlers b t) \<longrightarrow> p < bus_next b \<and> bus_store b p \<noteq> None)
     \<and> (\<forall>t. distinct (bus_handlers b t))
     \<and> (\<forall>t u p. p \<in> set (bus_handlers b t) \<longrightarrow> p \<in> set (bus_handlers b u) \<longrightarrow> t = u)"

lemma bus_wf_new [simp]: "bus_wf new_in_memory_bus"
  by (simp add: bus_wf_def new_in_memory_bus_def)

lemma bus_subscribe_handlers:
  "bus_handlers (fst (bus_subscribe t h b)) u =
     (if u = t then bus_handlers b t @ [bus_next b] else bus_handlers b u)"
  by (simp add: bus_subscribe_def bus_add_def Let_def)

lemma bus_wf_subscribe: "bus_wf b \<Longrightarrow> bus_wf (fst (bus_subscribe t h b))"
  unfolding bus_wf_def bus_subscribe_handlers
  by (auto simp: bus_subscribe_def bus_add_def Let_def less_Suc_eq)

lemma bus_wf_close_sub: "bus_wf b \<Longrightarrow> bus_wf (bus_close_sub t p b)"
  by (auto simp: bus_wf_def bus_close_sub_def drop_pointer_filter)

text \<open>C26: on a well-formed bus a subscription and its close function cancel: every topic has the
  same handlers as before, in the same order, whatever was subscribed in between is untouched, and
  the bus stays well-formed.\<close>

theorem bus_subscribe_close_roundtrip:
  assumes "bus_wf b" and "bus_subscribe t h b = (b1, p)"
  shows "bus_handlers (bus_close_sub t p b1) = bus_handlers b
    \<and> bus_handlers (bus_close_sub t p (fst (bus_subscribe u g b1)))
        = (bus_handlers (bus_close_sub t p b1))
            (u := bus_handlers (bus_close_sub t p b1) u @ [bus_next b1])
    \<and> bus_wf (bus_close_sub t p b1)"
proof -
  have p: "p = bus_next b" and b1: "b1 = fst (bus_subscribe t h b)"
    using assms(2) by (auto simp: bus_subscribe_def Let_def)
  have fresh: "p \<notin> set (bus_handlers b v)" for v
    using assms(1) p by (auto simp: bus_wf_def)
  have next1: "bus_next b1 \<noteq> p" using assms(2) p by (auto simp: bus_subscribe_def bus_add_def Let_def)
  obtain b0 where b0: "b1 = bus_add t p b0" "bus_handlers b0 = bus_handlers b"
    using assms(2) by (auto simp: bus_subscribe_def Let_def)
  have "bus_handlers (bus_close_sub t p b1) t = bus_handlers b t"
    using topic.rem_fresh_add [where x = p and t = t and s = b0] fresh b0 by simp
  then have same: "bus_handlers (bus_close_sub t p b1) = bus_handlers b"
    using b0 by (auto simp: fun_eq_iff bus_close_sub_def bus_add_def)
  moreover have "bus_handlers (bus_close_sub t p (fst (bus_subscribe u g b1))) v
        = ((bus_handlers (bus_close_sub t p b1))
            (u := bus_handlers (bus_close_sub t p b1) u @ [bus_next b1])) v" for v
    using next1 by (auto simp: bus_close_sub_def bus_subscribe_handlers drop_pointer_filter)
  moreover have "bus_wf (bus_close_sub t p b1)"
    using assms(1) b1 by (simp add: bus_wf_subscribe bus_wf_close_sub)
  ultimately show ?thesis by blast
qed

theorem bus_subscribe_close_roundtrip_witness:
  "bus_handlers (bus_close_sub ''t'' 0 (fst (bus_subscribe ''t'' True new_in_memory_bus)))
     = bus_handlers (new_in_memory_bus :: bool bus)"
proof -
  have s: "bus_subscribe ''t'' True new_in_memory_bus
      = (fst (bus_subscribe ''t'' True new_in_memory_bus), 0)"
    by (simp add: bus_subscribe_def new_in_memory_bus_def Let_def)
  show ?thesis using bus_subscribe_close_roundtrip [OF bus_wf_new s] by blast
qed

section \<open>The goroutines of \<^verbatim>\<open>runHandlers\<close>\<close>

text \<open>
  \<open>run_spawned\<close> holds the handler slices of the goroutines \<^verbatim>\<open>Publish\<close> made and the scheduler has
  not started, \<open>run_running\<close> those between the two \<^verbatim>\<open>AddInt32\<close> calls: the handlers that have not
  returned, and the first error of the error group.
\<close>

record 'h bus_run = "'h bus" +
  run_spawned :: "nat list multiset"
  run_running :: "(nat multiset \<times> error option) multiset"
  run_results :: "error option list"

definition run_init :: "'h bus_run \<Rightarrow> bool" where
  "run_init s \<longleftrightarrow> bus_counter s = 0 \<and> run_spawned s = {#} \<and> run_running s = {#} \<and> run_results s = []"

text \<open>\<^verbatim>\<open>errgroup\<close> keeps the first error.\<close>

definition first_error :: "error option \<Rightarrow> error option \<Rightarrow> error option" where
  "first_error err r = (if err = None then r else err)"

inductive run_step :: "'h bus_run \<Rightarrow> 'h bus_run \<Rightarrow> bool" where
  run_publish:
    "run_step s (s\<lparr>run_spawned := add_mset (snd (bus_publish topic env (bus.truncate s))) (run_spawned s)\<rparr>)"
| run_start:
    "hs \<in># run_spawned s \<Longrightarrow>
     run_step s (s\<lparr>bus_counter := bus_counter s + 1,
                   run_spawned := run_spawned s - {#hs#},
                   run_running := add_mset (mset hs, None) (run_running s)\<rparr>)"
| run_handler_returns:
    "(add_mset h hs, err) \<in># run_running s \<Longrightarrow>
     run_step s (s\<lparr>run_running := add_mset (hs, first_error err r)
                                   (run_running s - {#(add_mset h hs, err)#})\<rparr>)"
| run_finish:
    "({#}, err) \<in># run_running s \<Longrightarrow>
     run_step s (s\<lparr>bus_counter := bus_counter s - 1,
                   run_running := run_running s - {#({#}, err)#},
                   run_results := run_results s @ [err]\<rparr>)"

definition counter_inv :: "'h bus_run \<Rightarrow> bool" where
  "counter_inv s \<longleftrightarrow> bus_counter s = of_nat (size (run_running s))"

lemma run_step_counter_inv: "run_step s t \<Longrightarrow> counter_inv s \<Longrightarrow> counter_inv t"
proof (induction rule: run_step.induct)
  case (run_finish err s)
  then have "0 < size (run_running s)" by (auto simp: nonempty_has_size [symmetric])
  with run_finish show ?case
    by (simp add: counter_inv_def size_Diff_singleton of_nat_diff)
next
  case (run_handler_returns h hs err s r)
  then have "0 < size (run_running s)" by (auto simp: nonempty_has_size [symmetric])
  with run_handler_returns show ?case
    by (simp add: counter_inv_def size_Diff_singleton)
qed (simp_all add: counter_inv_def)

interpretation running: invariant_system run_step counter_inv run_init
  by unfold_locales (rule run_step_counter_inv, assumption+, simp add: counter_inv_def run_init_def)

text \<open>C25: in every reachable state with fewer than \<open>2^32\<close> running dispatches, \<^verbatim>\<open>IsDoneWorking\<close>
  answers whether no dispatch is between its two counter updates; a dispatch that \<^verbatim>\<open>Publish\<close> has
  only spawned is not counted.\<close>

theorem is_done_working_iff_idle:
  assumes "reachable run_init run_step s" and "size (run_running s) < 2 ^ 32"
  shows "is_done_working (bus.truncate s) \<longleftrightarrow> run_running s = {#}"
proof -
  have "bus_counter s = of_nat (size (run_running s))"
    using running.inv_reachable [OF assms(1)] by (simp add: counter_inv_def)
  moreover have "(of_nat (size (run_running s)) :: 32 word) = 0 \<longleftrightarrow> size (run_running s) = 0"
    using assms(2) by (auto simp: word_of_nat_eq_0_iff dest: dvd_imp_le)
  ultimately show ?thesis by (simp add: is_done_working_def bus.truncate_def)
qed

theorem is_done_working_iff_idle_witness:
  "\<exists>s :: bool bus_run. reachable run_init run_step s
     \<and> run_spawned s = {#[]#} \<and> is_done_working (bus.truncate s)"
proof -
  define s0 :: "bool bus_run" where "s0 =
    \<lparr>bus_handlers = (\<lambda>t. []), bus_store = Map.empty, bus_next = 0, bus_counter = 0,
     run_spawned = {#}, run_running = {#}, run_results = []\<rparr>"
  let ?s = "s0\<lparr>run_spawned := add_mset (snd (bus_publish ''t'' empty_envelope (bus.truncate s0))) (run_spawned s0)\<rparr>"
  have "reachable run_init run_step s0" by (rule reachable_init) (simp add: run_init_def s0_def)
  then have r: "reachable run_init run_step ?s" by (rule reachable_step) (rule run_publish)
  moreover have "run_running ?s = {#}" by (simp add: s0_def)
  ultimately have "is_done_working (bus.truncate ?s)"
    using is_done_working_iff_idle [OF r] by simp
  moreover have "run_spawned ?s = {#[]#}" by (simp add: s0_def bus_publish_def bus.truncate_def Let_def)
  ultimately show ?thesis using r by blast
qed

end
