(* ===== verification/Runtime_Config.thy ===== *)
theory Runtime_Config
  imports Prelude
begin

text \<open>
  The command line configuration of the sidecar (\<^verbatim>\<open>pkg/runtime/config.go\<close>, \<^verbatim>\<open>pkg/modes\<close>,
  \<^verbatim>\<open>pkg/utils/env.go\<close>).  The process environment is a value of a type \<open>'e\<close> and \<^verbatim>\<open>os.Setenv\<close> a
  parameter; the order in which the loop visits the variables is an argument.
\<close>

definition kubernetes_mode :: string where "kubernetes_mode = ''kubernetes''"

definition standalone_mode :: string where "standalone_mode = ''standalone''"

definition env_grpc_port :: string where "env_grpc_port = ''RUSI_GRPC_PORT''"

definition env_grpc_host :: string where "env_grpc_host = ''RUSI_GRPC_HOST''"

definition env_app_id :: string where "env_app_id = ''APP_ID''"

definition default_grpc_host :: string where "default_grpc_host = ''localhost''"

definition default_grpc_port :: int where "default_grpc_port = 50003"

definition default_diagnostics_port :: int where "default_diagnostics_port = 8080"

definition default_enable_metrics :: bool where "default_enable_metrics = True"

record config_builder =
  cb_mode :: string
  cb_grpc_port :: int
  cb_grpc_host :: string
  cb_diagnostics_port :: int
  cb_enable_metrics :: bool
  cb_components_path :: string
  cb_config :: string
  cb_control_plane_address :: string
  cb_app_id :: string

record rusi_config =
  rc_mode :: string
  rc_grpc_host :: string
  rc_grpc_port :: int
  rc_diagnostics_port :: int
  rc_enable_metrics :: bool
  rc_components_path :: string
  rc_config :: string
  rc_control_plane_address :: string
  rc_app_id :: string

definition new_runtime_config_builder :: config_builder where
  "new_runtime_config_builder =
     \<lparr>cb_mode = [], cb_grpc_port = 0, cb_grpc_host = [], cb_diagnostics_port = 0,
      cb_enable_metrics = False, cb_components_path = [], cb_config = [],
      cb_control_plane_address = [], cb_app_id = []\<rparr>"

text \<open>\<^verbatim>\<open>AttachCmdFlags\<close>: registering a flag stores its default in the variable.\<close>

definition attach_cmd_flags :: "config_builder \<Rightarrow> config_builder" where
  "attach_cmd_flags c =
     c\<lparr>cb_mode := standalone_mode, cb_grpc_host := default_grpc_host, cb_grpc_port := default_grpc_port,
       cb_components_path := [], cb_config := [], cb_control_plane_address := [], cb_app_id := [],
       cb_diagnostics_port := default_diagnostics_port, cb_enable_metrics := default_enable_metrics\<rparr>"

definition validate_config :: "config_builder \<Rightarrow> error option" where
  "validate_config c =
     (if cb_app_id c = [] then Some (ErrText ''app-id parameter cannot be empty'')
      else if cb_config c = [] then Some (ErrText ''config parameter cannot be empty'')
      else if cb_mode c = kubernetes_mode \<and> cb_control_plane_address c = []
      then Some (ErrText ''controlPlaneAddress is mandatory in kubernetes mode'')
      else None)"

definition config_variables :: "config_builder \<Rightarrow> smap" where
  "config_variables c =
     fmupd env_grpc_port (itoa (cb_grpc_port c))
      (fmupd env_grpc_host (cb_grpc_host c) (fmupd env_app_id (cb_app_id c) fmempty))"

fun set_env_variables :: "(string \<Rightarrow> string \<Rightarrow> 'e \<Rightarrow> error option \<times> 'e) \<Rightarrow> smap \<Rightarrow> string list \<Rightarrow> 'e
    \<Rightarrow> error option \<times> 'e" where
  "set_env_variables setenv variables [] env = (None, env)"
| "set_env_variables setenv variables (k # ks) env =
     (case fmlookup variables k of
        None \<Rightarrow> set_env_variables setenv variables ks env
      | Some v \<Rightarrow>
          (case setenv k v env of
             (Some e, env1) \<Rightarrow> (Some e, env1)
           | (None, env1) \<Rightarrow> set_env_variables setenv variables ks env1))"

definition build_config :: "(string \<Rightarrow> string \<Rightarrow> 'e \<Rightarrow> error option \<times> 'e) \<Rightarrow> string list \<Rightarrow> config_builder
    \<Rightarrow> 'e \<Rightarrow> (error + rusi_config) \<times> 'e" where
  "build_config setenv ks c env =
     (case validate_config c of
        Some e \<Rightarrow> (Inl e, env)
      | None \<Rightarrow>
          (case set_env_variables setenv (config_variables c) ks env of
             (Some e, env1) \<Rightarrow> (Inl e, env1)
           | (None, env1) \<Rightarrow>
               (Inr \<lparr>rc_mode = cb_mode c, rc_grpc_host = cb_grpc_host c, rc_grpc_port = cb_grpc_port c,
                     rc_diagnostics_port = cb_diagnostics_port c, rc_enable_metrics = cb_enable_metrics c,
                     rc_components_path = cb_components_path c, rc_config = cb_config c,
                     rc_control_plane_address = cb_control_plane_address c, rc_app_id = cb_app_id c\<rparr>,
                env1)))"

section \<open>The environment after Build\<close>

text \<open>\<^verbatim>\<open>os.Setenv\<close> on an environment that is a map and accepts the key.\<close>

definition map_setenv :: "string \<Rightarrow> string \<Rightarrow> smap \<Rightarrow> error option \<times> smap" where
  "map_setenv k v env = (None, fmupd k v env)"

lemma set_env_variables_lookup:
  "fst (set_env_variables map_setenv vs ks env) = None
   \<and> fmlookup (snd (set_env_variables map_setenv vs ks env)) k =
      (if k \<in> set ks \<and> fmlookup vs k \<noteq> None then fmlookup vs k else fmlookup env k)"
  by (induction ks arbitrary: env) (auto simp: map_setenv_def split: option.split)

text \<open>C24: \<^verbatim>\<open>Build\<close> succeeds exactly when the application id and the configuration name are given
  and, in kubernetes mode, the control plane address is; the environment then holds the
  application id, the host and the decimal port, whatever order the loop over the variables took,
  and every other variable is as before.\<close>

theorem build_config_env:
  assumes "enumerates ks (config_variables c)"
  shows "((\<exists>cfg. fst (build_config map_setenv ks c env) = Inr cfg) \<longleftrightarrow>
       cb_app_id c \<noteq> [] \<and> cb_config c \<noteq> []
       \<and> (cb_mode c = kubernetes_mode \<longrightarrow> cb_control_plane_address c \<noteq> []))
    \<and> (\<forall>cfg k. fst (build_config map_setenv ks c env) = Inr cfg \<longrightarrow>
       fmlookup (snd (build_config map_setenv ks c env)) k =
         (if k = env_app_id then Some (rc_app_id cfg)
          else if k = env_grpc_host then Some (rc_grpc_host cfg)
          else if k = env_grpc_port then Some (itoa (rc_grpc_port cfg))
          else fmlookup env k))"
proof (intro conjI allI impI)
  let ?r = "set_env_variables map_setenv (config_variables c) ks env"
  have ok: "fst ?r = None" using set_env_variables_lookup by blast
  obtain env1 where r: "?r = (None, env1)" using ok by (metis prod.collapse)
  show "(\<exists>cfg. fst (build_config map_setenv ks c env) = Inr cfg) \<longleftrightarrow>
       cb_app_id c \<noteq> [] \<and> cb_config c \<noteq> []
       \<and> (cb_mode c = kubernetes_mode \<longrightarrow> cb_control_plane_address c \<noteq> [])"
    using r by (auto simp: build_config_def validate_config_def)
  fix cfg k assume cfg: "fst (build_config map_setenv ks c env) = Inr cfg"
  have "fmlookup env1 k = (if fmlookup (config_variables c) k \<noteq> None then fmlookup (config_variables c) k
      else fmlookup env k)"
    using set_env_variables_lookup [of "config_variables c" ks env k] r enumerates_mem [OF assms, of k] by auto
  moreover have "snd (build_config map_setenv ks c env) = env1"
    and "rc_app_id cfg = cb_app_id c" and "rc_grpc_host cfg = cb_grpc_host c" and "rc_grpc_port cfg = cb_grpc_port c"
    using cfg r by (auto simp: build_config_def split: option.splits)
  ultimately show "fmlookup (snd (build_config map_setenv ks c env)) k =
         (if k = env_app_id then Some (rc_app_id cfg)
          else if k = env_grpc_host then Some (rc_grpc_host cfg)
          else if k = env_grpc_port then Some (itoa (rc_grpc_port cfg))
          else fmlookup env k)"
    by (auto simp: config_variables_def env_app_id_def env_grpc_host_def env_grpc_port_def)
qed

theorem build_config_env_witness:
  "fmlookup (snd (build_config map_setenv [''RUSI_GRPC_PORT'', ''APP_ID'', ''RUSI_GRPC_HOST'']
      ((attach_cmd_flags new_runtime_config_builder)\<lparr>cb_app_id := ''app'', cb_config := ''c.yaml''\<rparr>)
      fmempty)) ''RUSI_GRPC_PORT'' = Some ''50003''"
proof -
  let ?c = "(attach_cmd_flags new_runtime_config_builder)\<lparr>cb_app_id := ''app'', cb_config := ''c.yaml''\<rparr>"
  let ?ks = "[''RUSI_GRPC_PORT'', ''APP_ID'', ''RUSI_GRPC_HOST'']"
  have e: "enumerates ?ks (config_variables ?c)" 
    by (auto simp: enumerates_def config_variables_def env_app_id_def env_grpc_host_def env_grpc_port_def)
  have "\<exists>cfg. fst (build_config map_setenv ?ks ?c fmempty) = Inr cfg"
    using build_config_env [OF e] by (simp add: attach_cmd_flags_def standalone_mode_def kubernetes_mode_def)
  then obtain cfg where cfg: "fst (build_config map_setenv ?ks ?c fmempty) = Inr cfg" by blast
  then have "rc_grpc_port cfg = default_grpc_port"
    by (auto simp: build_config_def attach_cmd_flags_def split: option.splits prod.splits)
  moreover have "itoa default_grpc_port = ''50003''"
    by (simp add: itoa_def default_grpc_port_def utoa.simps)
  ultimately show ?thesis
    using build_config_env [OF e, of fmempty] cfg by (simp add: env_app_id_def env_grpc_host_def env_grpc_port_def)
qed

end
