(* ===== verification/Proto.thy ===== *)
theory Proto
  imports Prelude
begin

text \<open>
  The messages of \<^verbatim>\<open>proto/runtime/v1/rusi.proto\<close> as \<^verbatim>\<open>pkg/proto/runtime/v1/rusi.pb.go\<close> declares them,
  with its getters.  A message pointer is an option; a getter on nil answers the zero value.
  Bytes are strings; a wrapper message (\<^verbatim>\<open>BoolValue\<close>, \<^verbatim>\<open>Int32Value\<close>) is its value; the duration message
  belongs to another module and is of a type \<open>'d\<close>.
\<close>

record pb_publish_request =
  pbp_pubsub_name :: string
  pbp_topic :: string
  pbp_data :: string
  pbp_type :: string
  pbp_data_content_type :: string
  pbp_metadata :: gomap

record 'd pb_subscription_options =
  pbo_durable :: "bool option"
  pbo_qgroup :: "bool option"
  pbo_max_concurrent :: "32 word option"
  pbo_deliver_new :: "bool option"
  pbo_ack_wait :: "'d option"

record 'd pb_subscription_request =
  pbs_pubsub_name :: string
  pbs_topic :: string
  pbs_options :: "'d pb_subscription_options option"

record pb_ack_request =
  pba_message_id :: string
  pba_error :: string

text \<open>The oneof: each alternative holds a pointer.\<close>

datatype 'd pb_request_type =
    SubscriptionRequestType "'d pb_subscription_request option"
  | AckRequestType "pb_ack_request option"

record 'd pb_subscribe_request =
  pbr_request_type :: "'d pb_request_type option"

record pb_received_message =
  pbm_id :: string
  pbm_data :: string
  pbm_metadata :: gomap

definition getter :: "('m \<Rightarrow> 'v) \<Rightarrow> 'v \<Rightarrow> 'm option \<Rightarrow> 'v" where
  "getter f zero x = (case x of None \<Rightarrow> zero | Some m \<Rightarrow> f m)"

definition publish_get_pubsub_name :: "pb_publish_request option \<Rightarrow> string" where
  "publish_get_pubsub_name x = getter pbp_pubsub_name [] x"

definition publish_get_topic :: "pb_publish_request option \<Rightarrow> string" where
  "publish_get_topic x = getter pbp_topic [] x"

definition publish_get_data :: "pb_publish_request option \<Rightarrow> string" where
  "publish_get_data x = getter pbp_data [] x"

definition publish_get_type :: "pb_publish_request option \<Rightarrow> string" where
  "publish_get_type x = getter pbp_type [] x"

definition publish_get_data_content_type :: "pb_publish_request option \<Rightarrow> string" where
  "publish_get_data_content_type x = getter pbp_data_content_type [] x"

definition publish_get_metadata :: "pb_publish_request option \<Rightarrow> gomap" where
  "publish_get_metadata x = getter pbp_metadata None x"

definition get_request_type :: "'d pb_subscribe_request option \<Rightarrow> 'd pb_request_type option" where
  "get_request_type x = getter pbr_request_type None x"

definition get_subscription_request :: "'d pb_subscribe_request option \<Rightarrow> 'd pb_subscription_request option" where
  "get_subscription_request x =
     (case get_request_type x of Some (SubscriptionRequestType r) \<Rightarrow> r | _ \<Rightarrow> None)"

definition get_ack_request :: "'d pb_subscribe_request option \<Rightarrow> pb_ack_request option" where
  "get_ack_request x =
     (case get_request_type x of Some (AckRequestType r) \<Rightarrow> r | _ \<Rightarrow> None)"

definition ack_get_message_id :: "pb_ack_request option \<Rightarrow> string" where
  "ack_get_message_id x = getter pba_message_id [] x"

definition ack_get_error :: "pb_ack_request option \<Rightarrow> string" where
  "ack_get_error x = getter pba_error [] x"

definition subscription_get_pubsub_name :: "'d pb_subscription_request option \<Rightarrow> string" where
  "subscription_get_pubsub_name x = getter pbs_pubsub_name [] x"

definition subscription_get_topic :: "'d pb_subscription_request option \<Rightarrow> string" where
  "subscription_get_topic x = getter pbs_topic [] x"

definition subscription_get_options :: "'d pb_subscription_request option \<Rightarrow> 'd pb_subscription_options option" where
  "subscription_get_options x = getter pbs_options None x"

definition options_get_durable :: "'d pb_subscription_options option \<Rightarrow> bool option" where
  "options_get_durable x = getter pbo_durable None x"

definition options_get_qgroup :: "'d pb_subscription_options option \<Rightarrow> bool option" where
  "options_get_qgroup x = getter pbo_qgroup None x"

definition options_get_max_concurrent :: "'d pb_subscription_options option \<Rightarrow> 32 word option" where
  "options_get_max_concurrent x = getter pbo_max_concurrent None x"

definition options_get_deliver_new :: "'d pb_subscription_options option \<Rightarrow> bool option" where
  "options_get_deliver_new x = getter pbo_deliver_new None x"

definition options_get_ack_wait :: "'d pb_subscription_options option \<Rightarrow> 'd option" where
  "options_get_ack_wait x = getter pbo_ack_wait None x"

definition received_get_id :: "pb_received_message option \<Rightarrow> string" where
  "received_get_id x = getter pbm_id [] x"

definition received_get_data :: "pb_received_message option \<Rightarrow> string" where
  "received_get_data x = getter pbm_data [] x"

definition received_get_metadata :: "pb_received_message option \<Rightarrow> gomap" where
  "received_get_metadata x = getter pbm_metadata None x"

section \<open>The messages of the operator\<close>

text \<open>\<^verbatim>\<open>pkg/proto/operator/v1/rusi_operator.pb.go\<close>.\<close>

record pb_watch_configuration_request =
  pbwc_config_name :: string
  pbwc_namespace :: string

record pb_watch_components_request =
  pbwp_namespace :: string

record pb_generic_item =
  pbg_data :: string

definition watch_configuration_get_config_name :: "pb_watch_configuration_request option \<Rightarrow> string" where
  "watch_configuration_get_config_name x = getter pbwc_config_name [] x"

definition watch_configuration_get_namespace :: "pb_watch_configuration_request option \<Rightarrow> string" where
  "watch_configuration_get_namespace x = getter pbwc_namespace [] x"

definition watch_components_get_namespace :: "pb_watch_components_request option \<Rightarrow> string" where
  "watch_components_get_namespace x = getter pbwp_namespace [] x"

definition item_get_data :: "pb_generic_item option \<Rightarrow> string" where
  "item_get_data x = getter pbg_data [] x"

lemma getter_simps [simp]: "getter f z None = z" "getter f z (Some m) = f m"
  by (simp_all add: getter_def)

lemmas getters = publish_get_pubsub_name_def publish_get_topic_def publish_get_data_def publish_get_type_def
  publish_get_data_content_type_def publish_get_metadata_def get_request_type_def
  get_subscription_request_def get_ack_request_def ack_get_message_id_def ack_get_error_def
  subscription_get_pubsub_name_def subscription_get_topic_def subscription_get_options_def
  options_get_durable_def options_get_qgroup_def options_get_max_concurrent_def options_get_deliver_new_def
  options_get_ack_wait_def received_get_id_def received_get_data_def received_get_metadata_def
  watch_configuration_get_config_name_def watch_configuration_get_namespace_def watch_components_get_namespace_def
  item_get_data_def

text \<open>A message is a subscription request, an acknowledgement or neither, never both.\<close>

lemma request_type_exclusive:
  "get_subscription_request x \<noteq> None \<Longrightarrow> get_ack_request x = None"
  by (auto simp: getters getter_def split: option.splits pb_request_type.splits)

end
