(* ===== verification/Grpc_Ack.thy ===== *)
theory Grpc_Ack
  imports Proto
begin

text \<open>
  The acknowledgements of a Subscribe stream: \<^verbatim>\<open>buildSubscribeHandler\<close> and
  \<^verbatim>\<open>startAckReceiverForStream\<close> of \<^verbatim>\<open>pkg/api/runtime/grpc/grpc_api.go\<close>.

  The handler runs concurrently, one invocation per message, beside one receiver goroutine.  They share
  the map of waiting invocations, guarded by a mutex, and each invocation has an unbuffered channel.
  A step is what a goroutine does between two points where it can be suspended: the critical section
  of the handler's \<^verbatim>\<open>mu.Lock\<close> is one step, enabled while the receiver does not hold \<^verbatim>\<open>mu.RLock\<close>, which it
  holds from its lookup until its send on the channel is received.  The steps carry their nondeterminism
  (which message, which answer of the client) as labels, so a run is computed by evaluation.
\<close>

section \<open>State\<close>

datatype handler_pc =
    Begin
  | Sending
  | Waiting
  | Leaving result
  | Returned result

record invocation =
  inv_id :: string
  inv_subject :: string
  inv_pc :: handler_pc

datatype receiver_pc =
    Receiving
  | Looking string string
  | HandingOver nat string
  | Stopped

text \<open>
  \<open>as_acks\<close> and \<open>as_sent\<close> record what the client answered (id and error text) and which invocations
  sent their message; the program does not read them.
\<close>

record ack_state =
  as_invocations :: "invocation list"
  as_map :: "(string, nat) fmap"
  as_receiver :: receiver_pc
  as_acks :: "(string \<times> string) list"
  as_sent :: "nat list"

definition ack_init :: ack_state where
  "ack_init = \<lparr>as_invocations = [], as_map = fmempty, as_receiver = Receiving, as_acks = [], as_sent = []\<rparr>"

definition invocation_at :: "ack_state \<Rightarrow> nat \<Rightarrow> invocation option" where
  "invocation_at s k = (if k < length (as_invocations s) then Some (as_invocations s ! k) else None)"

definition set_pc :: "nat \<Rightarrow> handler_pc \<Rightarrow> ack_state \<Rightarrow> ack_state" where
  "set_pc k pc s = s\<lparr>as_invocations := (as_invocations s)[k := (as_invocations s ! k)\<lparr>inv_pc := pc\<rparr>]\<rparr>"

text \<open>The receiver holds the read lock while it hands an answer over.\<close>

fun holds_rlock :: "receiver_pc \<Rightarrow> bool" where
  "holds_rlock (HandingOver k e) \<longleftrightarrow> True"
| "holds_rlock Receiving \<longleftrightarrow> False"
| "holds_rlock (Looking m e) \<longleftrightarrow> False"
| "holds_rlock Stopped \<longleftrightarrow> False"

text \<open>The error value of an acknowledgement: nil for an empty text.\<close>

definition ack_result :: "string \<Rightarrow> result" where
  "ack_result e = (if e \<noteq> [] then Fail (ErrText e) else Ok)"

section \<open>The handler\<close>

text \<open>\<open>SendFails\<close> is an error of \<^verbatim>\<open>serdes.Marshal\<close> or of \<^verbatim>\<open>stream.Send\<close>; \<open>ContextDone\<close> that of either
  context.\<close>

datatype ack_action =
    Deliver string string
  | Reject nat
  | Register nat
  | SendFails nat error
  | SendOk nat
  | ContextDone nat error
  | Cleanup nat
  | RecvOther
  | RecvAck pb_ack_request
  | StreamClosed
  | LookUp
  | HandOver

fun handler_step :: "ack_action \<Rightarrow> ack_state \<Rightarrow> ack_state option" where
  "handler_step (Deliver mid subject) s =
     Some (s\<lparr>as_invocations := as_invocations s @ [\<lparr>inv_id = mid, inv_subject = subject, inv_pc = Begin\<rparr>]\<rparr>)"
| "handler_step (Reject k) s =
     (case invocation_at s k of
        Some i \<Rightarrow>
          (if inv_pc i = Begin \<and> inv_id i = []
           then Some (set_pc k (Returned (Fail (ErrText (''message id is missing for topic '' @ inv_subject i)))) s)
           else None)
      | None \<Rightarrow> None)"
| "handler_step (Register k) s =
     (case invocation_at s k of
        Some i \<Rightarrow>
          (if inv_pc i = Begin \<and> inv_id i \<noteq> [] \<and> \<not> holds_rlock (as_receiver s)
           then Some (set_pc k Sending (s\<lparr>as_map := fmupd (inv_id i) k (as_map s)\<rparr>))
           else None)
      | None \<Rightarrow> None)"
| "handler_step (SendFails k e) s =
     (case invocation_at s k of
        Some i \<Rightarrow> (if inv_pc i = Sending then Some (set_pc k (Leaving (Fail e)) s) else None)
      | None \<Rightarrow> None)"
| "handler_step (SendOk k) s =
     (case invocation_at s k of
        Some i \<Rightarrow> (if inv_pc i = Sending then Some (set_pc k Waiting (s\<lparr>as_sent := k # as_sent s\<rparr>)) else None)
      | None \<Rightarrow> None)"
| "handler_step (ContextDone k e) s =
     (case invocation_at s k of
        Some i \<Rightarrow> (if inv_pc i = Waiting then Some (set_pc k (Leaving (Fail e)) s) else None)
      | None \<Rightarrow> None)"
| "handler_step (Cleanup k) s =
     (case invocation_at s k of
        Some i \<Rightarrow>
          (case inv_pc i of
             Leaving r \<Rightarrow>
               (if holds_rlock (as_receiver s) then None
                else Some (set_pc k (Returned r) (s\<lparr>as_map := fmdrop (inv_id i) (as_map s)\<rparr>)))
           | _ \<Rightarrow> None)
      | None \<Rightarrow> None)"
| "handler_step a s = None"

section \<open>The receiver\<close>

text \<open>
  \<open>RecvOther\<close> is a receive error or a message that is no acknowledgement: both go round the loop.
\<close>

fun receiver_step :: "ack_action \<Rightarrow> ack_state \<Rightarrow> ack_state option" where
  "receiver_step StreamClosed s =
     (if as_receiver s = Receiving then Some (s\<lparr>as_receiver := Stopped\<rparr>) else None)"
| "receiver_step RecvOther s = (if as_receiver s = Receiving then Some s else None)"
| "receiver_step (RecvAck a) s =
     (if as_receiver s = Receiving
      then Some (s\<lparr>as_receiver := Looking (ack_get_message_id (Some a)) (ack_get_error (Some a)),
                   as_acks := (pba_message_id a, pba_error a) # as_acks s\<rparr>)
      else None)"
| "receiver_step LookUp s =
     (case as_receiver s of
        Looking mid e \<Rightarrow>
          (case fmlookup (as_map s) mid of
             Some k \<Rightarrow> Some (s\<lparr>as_receiver := HandingOver k e\<rparr>)
           | None \<Rightarrow> Some (s\<lparr>as_receiver := Receiving\<rparr>))
      | _ \<Rightarrow> None)"
| "receiver_step HandOver s =
     (case as_receiver s of
        HandingOver k e \<Rightarrow>
          (case invocation_at s k of
             Some i \<Rightarrow>
               (if inv_pc i = Waiting
                then Some (set_pc k (Leaving (ack_result e)) (s\<lparr>as_receiver := Receiving\<rparr>))
                else None)
           | None \<Rightarrow> None)
      | _ \<Rightarrow> None)"
| "receiver_step a s = None"

definition ack_action_step :: "ack_action \<Rightarrow> ack_state \<Rightarrow> ack_state option" where
  "ack_action_step a s = (case handler_step a s of Some t \<Rightarrow> Some t | None \<Rightarrow> receiver_step a s)"

inductive ack_step :: "ack_state \<Rightarrow> ack_state \<Rightarrow> bool" where
  ack_stepI: "ack_action_step a s = Some t \<Longrightarrow> ack_step s t"

inductive_cases ack_stepE: "ack_step s t"

text \<open>A whole run.\<close>

fun ack_run :: "ack_action list \<Rightarrow> ack_state \<Rightarrow> ack_state option" where
  "ack_run [] s = Some s"
| "ack_run (a # as) s = (case ack_action_step a s of None \<Rightarrow> None | Some t \<Rightarrow> ack_run as t)"

lemma ack_run_steps: "ack_run as s = Some t \<Longrightarrow> ack_step\<^sup>*\<^sup>* s t"
  by (induction as s rule: ack_run.induct)
    (auto split: option.splits intro: ack_stepI converse_rtranclp_into_rtranclp)

lemma ack_run_reachable: "ack_run as ack_init = Some t \<Longrightarrow> reachable (\<lambda>s. s = ack_init) ack_step t"
  using ack_run_steps [of as ack_init t] by (auto intro: reachable_steps reachable_init)

text \<open>How each step moves one invocation.\<close>

lemma invocation_at_set_pc:
  "invocation_at (set_pc k pc s) j =
     (if j = k then map_option (\<lambda>i. i\<lparr>inv_pc := pc\<rparr>) (invocation_at s k) else invocation_at s j)"
  by (auto simp: invocation_at_def set_pc_def)

lemma set_pc_fields [simp]:
  "as_map (set_pc k pc s) = as_map s" "as_receiver (set_pc k pc s) = as_receiver s"
  "as_acks (set_pc k pc s) = as_acks s" "as_sent (set_pc k pc s) = as_sent s"
  by (simp_all add: set_pc_def)

lemma invocation_at_update [simp]:
  "invocation_at (s\<lparr>as_map := m\<rparr>) k = invocation_at s k"
  "invocation_at (s\<lparr>as_receiver := r\<rparr>) k = invocation_at s k"
  "invocation_at (s\<lparr>as_receiver := r, as_acks := l\<rparr>) k = invocation_at s k"
  "invocation_at (s\<lparr>as_acks := l\<rparr>) k = invocation_at s k"
  "invocation_at (s\<lparr>as_sent := l2\<rparr>) k = invocation_at s k"
  by (simp_all add: invocation_at_def)

lemma invocation_at_deliver:
  "invocation_at (s\<lparr>as_invocations := as_invocations s @ [i]\<rparr>) k =
     (if k = length (as_invocations s) then Some i else invocation_at s k)"
  by (auto simp: invocation_at_def nth_append)

lemmas ack_step_simps = ack_action_step_def invocation_at_set_pc invocation_at_deliver

section \<open>The invariant\<close>

text \<open>
  What a state of an invocation rests on: it waits only after its message was sent, and it leaves
  with nil only after the client's acknowledgement without an error.
\<close>

fun pc_justified :: "ack_state \<Rightarrow> nat \<Rightarrow> string \<Rightarrow> handler_pc \<Rightarrow> bool" where
  "pc_justified s k mid Begin \<longleftrightarrow> True"
| "pc_justified s k mid Sending \<longleftrightarrow> mid \<noteq> []"
| "pc_justified s k mid Waiting \<longleftrightarrow> mid \<noteq> [] \<and> k \<in> set (as_sent s)"
| "pc_justified s k mid (Leaving r) \<longleftrightarrow>
     (r = Ok \<longrightarrow> mid \<noteq> [] \<and> k \<in> set (as_sent s) \<and> (mid, []) \<in> set (as_acks s))"
| "pc_justified s k mid (Returned r) \<longleftrightarrow>
     (r = Ok \<longrightarrow> mid \<noteq> [] \<and> k \<in> set (as_sent s) \<and> (mid, []) \<in> set (as_acks s))"

fun receiver_justified :: "ack_state \<Rightarrow> receiver_pc \<Rightarrow> bool" where
  "receiver_justified s (Looking mid e) \<longleftrightarrow> (mid, e) \<in> set (as_acks s)"
| "receiver_justified s (HandingOver k e) \<longleftrightarrow>
     (\<exists>i. invocation_at s k = Some i \<and> (inv_id i, e) \<in> set (as_acks s))"
| "receiver_justified s pc \<longleftrightarrow> True"

definition ack_inv :: "ack_state \<Rightarrow> bool" where
  "ack_inv s \<longleftrightarrow>
     (\<forall>k i. invocation_at s k = Some i \<longrightarrow> pc_justified s k (inv_id i) (inv_pc i))
     \<and> receiver_justified s (as_receiver s)
     \<and> (\<forall>mid k. fmlookup (as_map s) mid = Some k \<longrightarrow> (\<exists>i. invocation_at s k = Some i \<and> inv_id i = mid))"

lemma pc_justified_mono:
  "pc_justified s k mid pc \<Longrightarrow> set (as_sent s) \<subseteq> set (as_sent t) \<Longrightarrow> set (as_acks s) \<subseteq> set (as_acks t)
   \<Longrightarrow> pc_justified t k mid pc"
  by (cases pc) auto

lemma ack_inv_set_pc:
  assumes "ack_inv s" and "invocation_at s k = Some i" and "pc_justified t k (inv_id i) pc"
    and "as_invocations t = as_invocations s" and "as_map t = as_map s \<or> as_map t = fmdrop mid (as_map s)
      \<or> as_map t = fmupd (inv_id i) k (as_map s)"
    and "as_receiver t = as_receiver s \<or> as_receiver t = Receiving"
    and "set (as_sent s) \<subseteq> set (as_sent t)" and "as_acks t = as_acks s"
  shows "ack_inv (set_pc k pc t)"
proof -
  have at: "invocation_at t j = invocation_at s j" for j using assms(4) by (simp add: invocation_at_def)
  have pcs: "pc_justified (set_pc k pc t) j (inv_id i') (inv_pc i')"
    if "invocation_at (set_pc k pc t) j = Some i'" for j i'
  proof (cases "j = k")
    case True
    with that assms(2,3) show ?thesis
      by (auto simp: invocation_at_set_pc at intro: pc_justified_mono [of t])
  next
    case False
    with that assms(1) have "pc_justified s j (inv_id i') (inv_pc i')"
      by (auto simp: invocation_at_set_pc at ack_inv_def)
    then show ?thesis by (rule pc_justified_mono) (use assms(7,8) in auto)
  qed
  have "receiver_justified (set_pc k pc t) (as_receiver t)"
    using assms(1,2,6,8) unfolding ack_inv_def
    by (cases "as_receiver s") (auto simp: invocation_at_set_pc at)
  moreover have "\<exists>i. invocation_at (set_pc k pc t) j = Some i \<and> inv_id i = m"
    if "fmlookup (as_map t) m = Some j" for m j
  proof (cases "fmlookup (as_map s) m = Some j")
    case True
    with assms(1) obtain i' where "invocation_at s j = Some i'" "inv_id i' = m"
      unfolding ack_inv_def by blast
    then show ?thesis using assms(2) by (auto simp: invocation_at_set_pc at)
  next
    case False
    with that assms(5) have "j = k" "m = inv_id i" by (auto split: if_splits)
    then show ?thesis using assms(2) by (simp add: invocation_at_set_pc at)
  qed
  ultimately show ?thesis using pcs by (auto simp: ack_inv_def)
qed

lemma ack_inv_handler: "ack_inv s \<Longrightarrow> handler_step a s = Some t \<Longrightarrow> ack_inv t"
proof (induction a s rule: handler_step.induct)
  case (1 mid subject s)
  then have t: "t = s\<lparr>as_invocations := as_invocations s @ [\<lparr>inv_id = mid, inv_subject = subject, inv_pc = Begin\<rparr>]\<rparr>"
    by simp
  have old: "invocation_at s k = Some i \<Longrightarrow> k \<noteq> length (as_invocations s)" for k i
    by (auto simp: invocation_at_def split: if_splits)
  have "pc_justified t k (inv_id i) (inv_pc i)" if "invocation_at t k = Some i" for k i
    using that 1(1) unfolding ack_inv_def t
    by (auto simp: invocation_at_deliver split: if_splits intro: pc_justified_mono [of s])
  moreover have "receiver_justified t (as_receiver t)"
    using 1(1) old unfolding ack_inv_def t by (cases "as_receiver s") (auto simp: invocation_at_deliver)
  moreover have "\<exists>i. invocation_at t k = Some i \<and> inv_id i = m" if "fmlookup (as_map t) m = Some k" for m k
    using that 1(1) old unfolding ack_inv_def t by (auto simp: invocation_at_deliver) blast
  ultimately show ?case by (auto simp: ack_inv_def)
next
  case (2 k s)
  then show ?case by (auto split: option.splits if_splits intro: ack_inv_set_pc)
next
  case (3 k s)
  then show ?case by (auto split: option.splits if_splits intro!: ack_inv_set_pc [of s])
next
  case (4 k e s)
  then show ?case by (auto split: option.splits if_splits intro: ack_inv_set_pc)
next
  case (5 k s)
  then obtain i where i: "invocation_at s k = Some i" "inv_pc i = Sending"
    and t: "t = set_pc k Waiting (s\<lparr>as_sent := k # as_sent s\<rparr>)"
    by (auto split: option.splits if_splits)
  from 5(1) i have "pc_justified s k (inv_id i) Sending" by (metis ack_inv_def)
  then have "pc_justified (s\<lparr>as_sent := k # as_sent s\<rparr>) k (inv_id i) Waiting" by simp
  with 5(1) i(1) show ?case unfolding t by (rule ack_inv_set_pc) auto
next
  case (6 k e s)
  then show ?case by (auto split: option.splits if_splits intro: ack_inv_set_pc)
next
  case (7 k s)
  then obtain i r where i: "invocation_at s k = Some i" "inv_pc i = Leaving r"
    and t: "t = set_pc k (Returned r) (s\<lparr>as_map := fmdrop (inv_id i) (as_map s)\<rparr>)"
    by (auto split: option.splits handler_pc.splits if_splits)
  from 7(1) i have "pc_justified s k (inv_id i) (Leaving r)" by (metis ack_inv_def)
  then have "pc_justified (s\<lparr>as_map := fmdrop (inv_id i) (as_map s)\<rparr>) k (inv_id i) (Returned r)" by simp
  with 7(1) i(1) show ?case unfolding t by (rule ack_inv_set_pc) auto
qed simp_all

lemma ack_inv_receiver: "ack_inv s \<Longrightarrow> receiver_step a s = Some t \<Longrightarrow> ack_inv t"
proof (induction a s rule: receiver_step.induct)
  case (3 a s)
  then have t: "t = s\<lparr>as_receiver := Looking (pba_message_id a) (pba_error a),
      as_acks := (pba_message_id a, pba_error a) # as_acks s\<rparr>"
    by (simp add: getters split: if_splits)
  have "pc_justified t k (inv_id i) (inv_pc i)" if "invocation_at t k = Some i" for k i
    using that 3(1) unfolding ack_inv_def t by (auto intro: pc_justified_mono [of s])
  then show ?case using 3(1) by (auto simp: ack_inv_def t)
next
  case (4 s)
  obtain mid e where look: "as_receiver s = Looking mid e" using 4(2) by (auto split: receiver_pc.splits)
  have keep: "ack_inv (s\<lparr>as_receiver := r\<rparr>)" if "receiver_justified s r" for r
  proof -
    have "receiver_justified (s\<lparr>as_receiver := r\<rparr>) r" using that by (cases r) auto
    moreover have "pc_justified (s\<lparr>as_receiver := r\<rparr>) k i pc = pc_justified s k i pc" for k i pc
      by (cases pc) auto
    ultimately show ?thesis using 4(1) by (auto simp: ack_inv_def)
  qed
  have "receiver_justified s (HandingOver k e)" if "fmlookup (as_map s) mid = Some k" for k
    using 4(1) look that by (force simp: ack_inv_def)
  with 4(2) look keep show ?case by (auto split: option.splits)
next
  case (5 s)
  then obtain k e i where hand: "as_receiver s = HandingOver k e" "invocation_at s k = Some i" "inv_pc i = Waiting"
    and t: "t = set_pc k (Leaving (ack_result e)) (s\<lparr>as_receiver := Receiving\<rparr>)"
    by (auto split: receiver_pc.splits option.splits if_splits)
  from 5(1) hand have "pc_justified s k (inv_id i) Waiting" by (metis ack_inv_def)
  moreover from 5(1) hand have "(inv_id i, e) \<in> set (as_acks s)" by (auto simp: ack_inv_def)
  ultimately have "pc_justified (s\<lparr>as_receiver := Receiving\<rparr>) k (inv_id i) (Leaving (ack_result e))"
    by (auto simp: ack_result_def split: if_splits)
  with 5(1) hand(2) show ?case unfolding t by (rule ack_inv_set_pc) auto
next
  case (1 s)
  then have t: "t = s\<lparr>as_receiver := Stopped\<rparr>" by (simp split: if_splits)
  have "pc_justified t k i pc = pc_justified s k i pc" for k i pc by (cases pc) (auto simp: t)
  then show ?case using 1(1) by (auto simp: ack_inv_def t)
qed (auto split: if_splits)

interpretation ack: invariant_system ack_step ack_inv "\<lambda>s. s = ack_init"
proof
  fix s t assume "ack_inv s" "ack_step s t"
  then show "ack_inv t"
    by (auto elim!: ack_stepE simp: ack_action_step_def split: option.splits
        intro: ack_inv_handler ack_inv_receiver)
next
  fix s assume "s = ack_init"
  then show "ack_inv s" by (auto simp: ack_inv_def ack_init_def invocation_at_def)
qed

section \<open>Blocking\<close>

text \<open>
  An invocation no answer can reach: its own entry of the map is gone and no answer is under way.  \<open>A\<close> are the actions
  so far; an error it ends with is that of its context.
\<close>

definition cut_off :: "ack_action set \<Rightarrow> nat \<Rightarrow> ack_state \<Rightarrow> bool" where
  "cut_off A k s \<longleftrightarrow>
     (\<exists>i. invocation_at s k = Some i \<and> (inv_pc i = Waiting
        \<or> (\<exists>e. ContextDone k e \<in> A \<and> inv_pc i \<in> {Leaving (Fail e), Returned (Fail e)})))
     \<and> (\<forall>mid. fmlookup (as_map s) mid \<noteq> Some k)
     \<and> (\<forall>e. as_receiver s \<noteq> HandingOver k e)"

text \<open>
  An acknowledgement of invocation \<open>k\<close> with error text \<open>e\<close> after it was received: it is on its way, or the invocation
  leaves with its result, or with the error of its context.  No other invocation in progress has the same id.
\<close>

definition answered :: "ack_action set \<Rightarrow> nat \<Rightarrow> invocation \<Rightarrow> string \<Rightarrow> ack_state \<Rightarrow> bool" where
  "answered A k i e s \<longleftrightarrow>
     (\<exists>pc. invocation_at s k = Some (i\<lparr>inv_pc := pc\<rparr>)
        \<and> (pc = Waiting \<and> (as_receiver s = Looking (inv_id i) e \<and> fmlookup (as_map s) (inv_id i) = Some k
                             \<or> as_receiver s = HandingOver k e)
           \<or> HandOver \<in> A \<and> pc \<in> {Leaving (ack_result e), Returned (ack_result e)}
           \<or> (\<exists>c. ContextDone k c \<in> A \<and> pc \<in> {Leaving (Fail c), Returned (Fail c)})))
     \<and> (\<forall>j i'. j \<noteq> k \<longrightarrow> invocation_at s j = Some i' \<longrightarrow> inv_id i' = inv_id i \<longrightarrow> (\<exists>r. inv_pc i' = Returned r))"

text \<open>The receiver hands an answer to an invocation that has left its \<^verbatim>\<open>select\<close> and waits for the lock.\<close>

definition ack_deadlock :: "nat \<Rightarrow> string \<Rightarrow> result \<Rightarrow> ack_state \<Rightarrow> bool" where
  "ack_deadlock k e r s \<longleftrightarrow>
     as_receiver s = HandingOver k e \<and> (\<exists>i. invocation_at s k = Some i \<and> inv_pc i = Leaving r)"

lemma invocation_at_bound: "invocation_at s k = Some i \<Longrightarrow> k \<noteq> length (as_invocations s)"
  by (auto simp: invocation_at_def split: if_splits)

lemma ack_deadlock_step: "ack_deadlock k e r s \<Longrightarrow> ack_action_step a s = Some t \<Longrightarrow> ack_deadlock k e r t"
  by (cases a)
    (auto simp: ack_deadlock_def ack_step_simps invocation_at_bound
      split: option.splits if_splits handler_pc.splits)

lemma cut_off_step: "cut_off A k s \<Longrightarrow> ack_action_step a s = Some t \<Longrightarrow> cut_off (insert a A) k t"
  by (cases a)
    (auto simp: cut_off_def ack_step_simps invocation_at_bound
      split: option.splits if_splits handler_pc.splits receiver_pc.splits)

lemma cut_off_run: "cut_off A k s \<Longrightarrow> ack_run as s = Some t \<Longrightarrow> cut_off (A \<union> set as) k t"
proof (induction as arbitrary: A s)
  case (Cons a as)
  then obtain u where u: "ack_action_step a s = Some u" "ack_run as u = Some t" by (auto split: option.splits)
  from Cons.IH [OF cut_off_step [OF Cons.prems(1) u(1)] u(2)] show ?case by simp
qed simp

text \<open>A step that changes an invocation finds it unfinished.\<close>

lemma invocation_step:
  "ack_action_step a s = Some t \<Longrightarrow> invocation_at t j = Some i \<Longrightarrow>
     invocation_at s j = Some i \<or> (\<exists>subject. a = Deliver (inv_id i) subject)
     \<or> (\<exists>i0. invocation_at s j = Some i0 \<and> inv_id i0 = inv_id i \<and> (\<forall>r. inv_pc i0 \<noteq> Returned r))"
  by (cases a)
    (auto simp: ack_step_simps split: option.splits if_splits handler_pc.splits receiver_pc.splits)

text \<open>The entry of an id changes only by an unfinished invocation of that id.\<close>

lemma entry_step:
  "ack_action_step a s = Some t \<Longrightarrow> fmlookup (as_map t) mid = fmlookup (as_map s) mid
     \<or> (\<exists>j i. invocation_at s j = Some i \<and> inv_id i = mid \<and> (inv_pc i = Begin \<or> (\<exists>r. inv_pc i = Leaving r)))"
  by (cases a)
    (auto simp: ack_step_simps split: option.splits if_splits handler_pc.splits receiver_pc.splits)

lemma waiting_step:
  "ack_action_step a s = Some t \<Longrightarrow> invocation_at s k = Some i \<Longrightarrow> inv_pc i = Waiting \<Longrightarrow>
     as_receiver s = Looking (inv_id i) e \<and> fmlookup (as_map s) (inv_id i) = Some k \<or> as_receiver s = HandingOver k e \<Longrightarrow>
     invocation_at t k = Some i \<and> (as_receiver t = as_receiver s \<or> as_receiver t = HandingOver k e)
     \<or> a = HandOver \<and> invocation_at t k = Some (i\<lparr>inv_pc := Leaving (ack_result e)\<rparr>)
     \<or> (\<exists>c. a = ContextDone k c \<and> invocation_at t k = Some (i\<lparr>inv_pc := Leaving (Fail c)\<rparr>))"
  by (cases a)
    (auto simp: ack_step_simps invocation_at_bound split: option.splits if_splits handler_pc.splits)

lemma leaving_step:
  "ack_action_step a s = Some t \<Longrightarrow> invocation_at s k = Some i \<Longrightarrow> inv_pc i \<in> {Leaving r, Returned r} \<Longrightarrow>
     invocation_at t k = Some i \<or> invocation_at t k = Some (i\<lparr>inv_pc := Returned r\<rparr>)"
  by (cases a)
    (auto simp: ack_step_simps invocation_at_bound split: option.splits if_splits handler_pc.splits receiver_pc.splits)

lemma answered_step:
  assumes "answered A k i e s" and step: "ack_action_step a s = Some t"
    and fresh: "\<forall>subject. a \<noteq> Deliver (inv_id i) subject"
  shows "answered (insert a A) k i e t"
proof -
  from assms(1) obtain pc where at: "invocation_at s k = Some (i\<lparr>inv_pc := pc\<rparr>)"
    and pc: "pc = Waiting \<and> (as_receiver s = Looking (inv_id i) e \<and> fmlookup (as_map s) (inv_id i) = Some k
                             \<or> as_receiver s = HandingOver k e)
           \<or> HandOver \<in> A \<and> pc \<in> {Leaving (ack_result e), Returned (ack_result e)}
           \<or> (\<exists>c. ContextDone k c \<in> A \<and> pc \<in> {Leaving (Fail c), Returned (Fail c)})"
    and others: "\<forall>j i'. j \<noteq> k \<longrightarrow> invocation_at s j = Some i' \<longrightarrow> inv_id i' = inv_id i \<longrightarrow> (\<exists>r. inv_pc i' = Returned r)"
    unfolding answered_def by blast
  have "\<exists>r. inv_pc i' = Returned r" if "j \<noteq> k" "invocation_at t j = Some i'" "inv_id i' = inv_id i" for j i'
    using invocation_step [OF step that(2)] others fresh that(1,3) by auto
  moreover have "\<exists>pc'. invocation_at t k = Some (i\<lparr>inv_pc := pc'\<rparr>)
      \<and> (pc' = Waiting \<and> (as_receiver t = Looking (inv_id i) e \<and> fmlookup (as_map t) (inv_id i) = Some k
                             \<or> as_receiver t = HandingOver k e)
           \<or> HandOver \<in> insert a A \<and> pc' \<in> {Leaving (ack_result e), Returned (ack_result e)}
           \<or> (\<exists>c. ContextDone k c \<in> insert a A \<and> pc' \<in> {Leaving (Fail c), Returned (Fail c)}))"
  proof (cases "pc = Waiting")
    case True
    have "\<not> (invocation_at s j = Some i0 \<and> inv_id i0 = inv_id i \<and> (inv_pc i0 = Begin \<or> (\<exists>r. inv_pc i0 = Leaving r)))" for j i0
      using others at True by (cases "j = k") auto
    then have entry: "fmlookup (as_map t) (inv_id i) = fmlookup (as_map s) (inv_id i)"
      using entry_step [OF step, of "inv_id i"] by blast
    from waiting_step [OF step at, of e] pc True
    consider "invocation_at t k = Some (i\<lparr>inv_pc := Waiting\<rparr>)" "as_receiver t = as_receiver s \<or> as_receiver t = HandingOver k e"
      | "a = HandOver" "invocation_at t k = Some (i\<lparr>inv_pc := Leaving (ack_result e)\<rparr>)"
      | c where "a = ContextDone k c" "invocation_at t k = Some (i\<lparr>inv_pc := Leaving (Fail c)\<rparr>)"
      by auto
    then show ?thesis
    proof cases
      case 1
      then show ?thesis using pc True entry by (intro exI [of _ Waiting]) auto
    qed auto
  next
    case False
    with pc obtain r where r: "pc \<in> {Leaving r, Returned r}"
      and why: "HandOver \<in> A \<and> r = ack_result e \<or> (\<exists>c. ContextDone k c \<in> A \<and> r = Fail c)" by blast
    from leaving_step [OF step at, of r] r
    have "invocation_at t k = Some (i\<lparr>inv_pc := pc\<rparr>) \<or> invocation_at t k = Some (i\<lparr>inv_pc := Returned r\<rparr>)" by simp
    with r why show ?thesis by blast
  qed
  ultimately show ?thesis unfolding answered_def by blast
qed

lemma answered_run:
  "answered A k i e s \<Longrightarrow> ack_run as s = Some t \<Longrightarrow> \<forall>subject. Deliver (inv_id i) subject \<notin> set as
   \<Longrightarrow> answered (A \<union> set as) k i e t"
proof (induction as arbitrary: A s)
  case (Cons a as)
  then obtain u where u: "ack_action_step a s = Some u" "ack_run as u = Some t" by (auto split: option.splits)
  have "\<forall>subject. a \<noteq> Deliver (inv_id i) subject" using Cons.prems(3) by auto
  from Cons.IH [OF answered_step [OF Cons.prems(1) u(1) this] u(2)] Cons.prems(3) show ?case by simp
qed simp

text \<open>An answer on its way reaches the handler in the receiver's next steps.\<close>

lemma on_its_way_delivered:
  assumes "invocation_at s k = Some i" and "inv_pc i = Waiting"
    and "as_receiver s = Looking (inv_id i) e \<and> fmlookup (as_map s) (inv_id i) = Some k \<or> as_receiver s = HandingOver k e"
  shows "\<exists>bs t. set bs \<subseteq> {LookUp, HandOver, Cleanup k} \<and> ack_run bs s = Some t
     \<and> invocation_at t k = Some (i\<lparr>inv_pc := Returned (ack_result e)\<rparr>)
     \<and> as_map t = fmdrop (inv_id i) (as_map s) \<and> as_receiver t = Receiving"
  using assms(3)
proof
  assume "as_receiver s = Looking (inv_id i) e \<and> fmlookup (as_map s) (inv_id i) = Some k"
  with assms(1,2) show ?thesis
    by (intro exI [of _ "[LookUp, HandOver, Cleanup k]"]) (simp add: ack_step_simps)
next
  assume "as_receiver s = HandingOver k e"
  with assms(1,2) show ?thesis
    by (intro exI [of _ "[HandOver, Cleanup k]"]) (simp add: ack_step_simps)
qed

interpretation deadlocked: preserved ack_step "ack_deadlock k e r"
  by unfold_locales (auto elim!: ack_stepE intro: ack_deadlock_step)

section \<open>Properties\<close>

text \<open>C3: the handler reports success to the broker only for a message that was sent to the client and
  that the client acknowledged without an error, under the message's own id; a message without an id
  is refused.\<close>

theorem ok_only_after_ack:
  assumes "reachable (\<lambda>s. s = ack_init) ack_step s"
    and "invocation_at s k = Some i" and "inv_pc i = Returned Ok"
  shows "inv_id i \<noteq> [] \<and> k \<in> set (as_sent s) \<and> (inv_id i, []) \<in> set (as_acks s)"
proof -
  from ack.inv_reachable [OF assms(1)] assms(2) have "pc_justified s k (inv_id i) (inv_pc i)"
    by (simp add: ack_inv_def)
  then show ?thesis by (simp add: assms(3))
qed

text \<open>C18: when the client acknowledges a message whose handler waits and is registered under the id, and no
  other message with that id is being handled or delivered, then at every moment of every further run the answer
  is on its way to that handler, or was handed over to it, which then ends with nil for an empty error text
  and the text as an error otherwise, or the handler's context ended before, and it ends with that error.
  As long as the handler waits, the answer can reach it by steps of the receiver and of the handler alone: the
  handler returns with it, its entry is removed, and the receiver is ready for the next acknowledgement.\<close>

theorem ack_reaches_waiting_handler:
  assumes "invocation_at s k = Some i" and "inv_pc i = Waiting"
    and "fmlookup (as_map s) (inv_id i) = Some k" and "as_receiver s = Receiving"
    and "\<forall>j i'. j \<noteq> k \<longrightarrow> invocation_at s j = Some i' \<longrightarrow> inv_id i' = inv_id i \<longrightarrow> (\<exists>r. inv_pc i' = Returned r)"
    and "\<forall>subject. Deliver (inv_id i) subject \<notin> set as"
    and "ack_run (RecvAck \<lparr>pba_message_id = inv_id i, pba_error = e\<rparr> # as) s = Some t"
  shows "\<exists>pc. invocation_at t k = Some (i\<lparr>inv_pc := pc\<rparr>)
    \<and> (pc = Waiting \<and> as_receiver t \<in> {Looking (inv_id i) e, HandingOver k e}
       \<or> HandOver \<in> set as \<and> pc \<in> {Leaving (ack_result e), Returned (ack_result e)}
       \<or> (\<exists>c. ContextDone k c \<in> set as \<and> pc \<in> {Leaving (Fail c), Returned (Fail c)}))
    \<and> (pc = Waiting \<longrightarrow>
         (\<exists>bs u. set bs \<subseteq> {LookUp, HandOver, Cleanup k} \<and> ack_run bs t = Some u
            \<and> invocation_at u k = Some (i\<lparr>inv_pc := Returned (ack_result e)\<rparr>)
            \<and> as_map u = fmdrop (inv_id i) (as_map t) \<and> as_receiver u = Receiving))"
proof -
  let ?s1 = "s\<lparr>as_receiver := Looking (inv_id i) e, as_acks := (inv_id i, e) # as_acks s\<rparr>"
  have "i\<lparr>inv_pc := Waiting\<rparr> = i" using assms(2) by simp
  then have "answered {} k i e ?s1" using assms(1,3,5) by (auto simp: answered_def)
  moreover have "ack_run as ?s1 = Some t" using assms(4,7) by (simp add: ack_action_step_def getters)
  ultimately have "answered (set as) k i e t" using answered_run [of "{}" k i e ?s1 as t] assms(6) by simp
  then obtain pc where pc: "invocation_at t k = Some (i\<lparr>inv_pc := pc\<rparr>)"
    "pc = Waiting \<and> (as_receiver t = Looking (inv_id i) e \<and> fmlookup (as_map t) (inv_id i) = Some k
                      \<or> as_receiver t = HandingOver k e)
     \<or> HandOver \<in> set as \<and> pc \<in> {Leaving (ack_result e), Returned (ack_result e)}
     \<or> (\<exists>c. ContextDone k c \<in> set as \<and> pc \<in> {Leaving (Fail c), Returned (Fail c)})"
    unfolding answered_def by blast
  have "\<exists>bs u. set bs \<subseteq> {LookUp, HandOver, Cleanup k} \<and> ack_run bs t = Some u
            \<and> invocation_at u k = Some (i\<lparr>inv_pc := Returned (ack_result e)\<rparr>)
            \<and> as_map u = fmdrop (inv_id i) (as_map t) \<and> as_receiver u = Receiving" if "pc = Waiting"
    using on_its_way_delivered [OF pc(1)] pc(2) that by simp
  with pc show ?thesis by (intro exI [of _ pc]) blast
qed

text \<open>C34: when the receiver has taken the read lock to hand an answer to a handler whose context ended
  meanwhile, neither ever moves again: the receiver keeps the lock, so no handler of the stream
  registers a message or cleans up after one any more.\<close>

theorem ack_deadlock_permanent:
  assumes "ack_deadlock k e r s" and "ack_step\<^sup>*\<^sup>* s t"
  shows "ack_deadlock k e r t \<and> receiver_step LookUp t = None \<and> receiver_step HandOver t = None
    \<and> receiver_step (RecvAck a) t = None
    \<and> handler_step (Register j) t = None \<and> handler_step (Cleanup j) t = None"
proof -
  from deadlocked.inv_steps [OF assms(2,1)] have t: "ack_deadlock k e r t" .
  then show ?thesis
    by (auto simp: ack_deadlock_def split: option.splits handler_pc.splits)
qed

text \<open>C35: a waiting handler whose entry of the map is gone - which a second message with the same id
  does, by overwriting it - is never acknowledged: whatever the client answers and in whatever order everything
  runs, the receiver never hands it an answer, it waits on, and it can only end with an error that its
  context ended with.\<close>

theorem overwritten_handler_never_acked:
  assumes "invocation_at s k = Some i" and "inv_pc i = Waiting"
    and "\<forall>mid. fmlookup (as_map s) mid \<noteq> Some k" and "\<forall>e. as_receiver s \<noteq> HandingOver k e"
    and "ack_run as s = Some t"
  shows "\<exists>j. invocation_at t k = Some j \<and> (\<forall>e. as_receiver t \<noteq> HandingOver k e)
    \<and> (inv_pc j = Waiting
       \<or> (\<exists>e. ContextDone k e \<in> set as \<and> inv_pc j \<in> {Leaving (Fail e), Returned (Fail e)}))"
proof -
  have "cut_off {} k s" using assms(1-4) by (auto simp: cut_off_def)
  from cut_off_run [OF this assms(5)] show ?thesis by (auto simp: cut_off_def)
qed

section \<open>Witnesses\<close>

lemmas ack_eval = ack_init_def ack_action_step_def invocation_at_def set_pc_def getters ack_result_def

definition acked_run :: "ack_action list" where
  "acked_run =
     [Deliver ''m1'' ''orders'', Register 0, SendOk 0,
      RecvAck \<lparr>pba_message_id = ''m1'', pba_error = []\<rparr>, LookUp, HandOver, Cleanup 0]"

theorem ok_only_after_ack_witness:
  "\<exists>s. reachable (\<lambda>s. s = ack_init) ack_step s
     \<and> map inv_pc (as_invocations s) = [Returned Ok] \<and> (''m1'', []) \<in> set (as_acks s)"
proof -
  obtain s where run: "ack_run acked_run ack_init = Some s"
    and s: "as_invocations s = [\<lparr>inv_id = ''m1'', inv_subject = ''orders'', inv_pc = Returned Ok\<rparr>]"
    by (simp add: acked_run_def ack_eval)
  from ack_run_reachable [OF run] have reach: "reachable (\<lambda>s. s = ack_init) ack_step s" .
  have "invocation_at s 0 = Some \<lparr>inv_id = ''m1'', inv_subject = ''orders'', inv_pc = Returned Ok\<rparr>"
    by (simp add: invocation_at_def s)
  from ok_only_after_ack [OF reach this] s reach show ?thesis by auto
qed

definition waiting_state :: ack_state where
  "waiting_state =
     \<lparr>as_invocations = [\<lparr>inv_id = ''m1'', inv_subject = ''orders'', inv_pc = Waiting\<rparr>],
      as_map = fmupd ''m1'' 0 fmempty, as_receiver = Receiving, as_acks = [], as_sent = [0]\<rparr>"

lemma waiting_state_reached:
  "ack_run [Deliver ''m1'' ''orders'', Register 0, SendOk 0] ack_init = Some waiting_state"
  by (simp add: ack_eval waiting_state_def)

text \<open>Another message arrives and registers between the acknowledgement and its delivery.\<close>

theorem ack_reaches_waiting_handler_witness:
  "\<exists>t bs u. ack_run [RecvAck \<lparr>pba_message_id = ''m1'', pba_error = ''no''\<rparr>, Deliver ''m2'' ''orders'', Register 1, LookUp]
        waiting_state = Some t
     \<and> map inv_pc (as_invocations t) = [Waiting, Sending]
     \<and> ack_run bs t = Some u \<and> invocation_at u 0 = Some \<lparr>inv_id = ''m1'', inv_subject = ''orders'',
          inv_pc = Returned (Fail (ErrText ''no''))\<rparr>"
proof -
  let ?i = "\<lparr>inv_id = ''m1'', inv_subject = ''orders'', inv_pc = Waiting\<rparr>"
  have at: "invocation_at waiting_state 0 = Some ?i"
    by (simp add: waiting_state_def invocation_at_def)
  have others: "\<forall>j i'. j \<noteq> 0 \<longrightarrow> invocation_at waiting_state j = Some i' \<longrightarrow> inv_id i' = inv_id ?i \<longrightarrow> (\<exists>r. inv_pc i' = Returned r)"
    by (simp add: waiting_state_def invocation_at_def)
  obtain t where run: "ack_run (RecvAck \<lparr>pba_message_id = inv_id ?i, pba_error = ''no''\<rparr>
        # [Deliver ''m2'' ''orders'', Register 1, LookUp]) waiting_state = Some t"
    and t: "map inv_pc (as_invocations t) = [Waiting, Sending]"
    by (simp add: waiting_state_def ack_eval)
  have now: "invocation_at t 0 = Some (?i\<lparr>inv_pc := pc\<rparr>) \<Longrightarrow> pc = Waiting" for pc
    using t by (auto simp: invocation_at_def map_eq_Cons_conv)
  from ack_reaches_waiting_handler [OF at _ _ _ others _ run] now
  obtain bs u where "ack_run bs t = Some u" "invocation_at u 0 = Some (?i\<lparr>inv_pc := Returned (ack_result ''no'')\<rparr>)"
    by (fastforce simp: waiting_state_def)
  with run t show ?thesis by (auto simp: ack_result_def)
qed

text \<open>A reachable deadlock: the context ends between the receiver's lookup and its send.\<close>

theorem ack_deadlock_permanent_witness:
  "\<exists>s. reachable (\<lambda>s. s = ack_init) ack_step s
     \<and> ack_deadlock 0 [] (Fail ErrCanceled) s \<and> handler_step (Cleanup 0) s = None"
proof -
  obtain s where run: "ack_run [Deliver ''m1'' ''orders'', Register 0, SendOk 0,
      RecvAck \<lparr>pba_message_id = ''m1'', pba_error = []\<rparr>, LookUp, ContextDone 0 ErrCanceled] ack_init = Some s"
    and dead: "ack_deadlock 0 [] (Fail ErrCanceled) s"
    by (simp add: ack_eval ack_deadlock_def)
  from ack_deadlock_permanent [OF dead, of s] ack_run_reachable [OF run] dead show ?thesis by blast
qed

text \<open>Two messages with one id: the second overwrites the entry of the first, which waits for ever.\<close>

theorem overwritten_handler_never_acked_witness:
  "\<exists>s. ack_run [Deliver ''m1'' ''orders'', Register 0, SendOk 0,
        Deliver ''m1'' ''orders'', Register 1, SendOk 1,
        RecvAck \<lparr>pba_message_id = ''m1'', pba_error = []\<rparr>, LookUp, HandOver, Cleanup 1] ack_init = Some s
     \<and> map inv_pc (as_invocations s) = [Waiting, Returned Ok]
     \<and> (\<forall>t. \<not> (\<exists>as. ack_run as s = Some t \<and> map inv_pc (as_invocations t) = [Returned Ok, Returned Ok]))"
proof -
  obtain s where run: "ack_run [Deliver ''m1'' ''orders'', Register 0, SendOk 0,
        Deliver ''m1'' ''orders'', Register 1, SendOk 1,
        RecvAck \<lparr>pba_message_id = ''m1'', pba_error = []\<rparr>, LookUp, HandOver, Cleanup 1] ack_init = Some s"
    and s: "as_invocations s = [\<lparr>inv_id = ''m1'', inv_subject = ''orders'', inv_pc = Waiting\<rparr>,
        \<lparr>inv_id = ''m1'', inv_subject = ''orders'', inv_pc = Returned Ok\<rparr>]"
      "\<forall>mid. fmlookup (as_map s) mid = None" "as_receiver s = Receiving"
    by (simp add: ack_eval)
  have at: "invocation_at s 0 = Some \<lparr>inv_id = ''m1'', inv_subject = ''orders'', inv_pc = Waiting\<rparr>"
    by (simp add: invocation_at_def s)
  have never: "map inv_pc (as_invocations t) \<noteq> [Returned Ok, Returned Ok]" if "ack_run as s = Some t" for as t
  proof
    assume two: "map inv_pc (as_invocations t) = [Returned Ok, Returned Ok]"
    from overwritten_handler_never_acked [OF at _ _ _ that] s
    obtain j where "invocation_at t 0 = Some j" "inv_pc j \<noteq> Returned Ok" by auto
    with two show False by (auto simp: invocation_at_def map_eq_Cons_conv)
  qed
  show ?thesis
  proof (intro exI conjI)
    show "ack_run [Deliver ''m1'' ''orders'', Register 0, SendOk 0,
        Deliver ''m1'' ''orders'', Register 1, SendOk 1,
        RecvAck \<lparr>pba_message_id = ''m1'', pba_error = []\<rparr>, LookUp, HandOver, Cleanup 1] ack_init = Some s" by (rule run)
    show "map inv_pc (as_invocations s) = [Waiting, Returned Ok]" by (simp add: s)
    show "\<forall>t. \<not> (\<exists>as. ack_run as s = Some t \<and> map inv_pc (as_invocations t) = [Returned Ok, Returned Ok])"
      by (intro allI notI, elim exE conjE) (use never in simp)
  qed
qed

end
