(* ===== verification/Grpc_Delivery.thy ===== *)
theory Grpc_Delivery
  imports Grpc_Ack
begin

text \<open>
  What the acknowledgement machinery of a Subscribe stream promises to a broker, and the proof that it
  keeps the promise: an abstract delivery protocol without locks, channels and goroutines, and a
  simulation of it by the steps of \<open>Grpc_Ack\<close>.
\<close>

section \<open>The protocol\<close>

text \<open>
  A message is pending until it was sent to the client, and is settled once, with the result the broker
  gets.  It is settled with a client's answer only after the client gave that answer to its id; any
  other settlement is an error.
\<close>

datatype delivery = Pending | Sent | Settled result

record delivery_state =
  ds_messages :: "(string \<times> delivery) list"
  ds_answers :: "(string \<times> string) set"

definition delivery_init :: "delivery_state \<Rightarrow> bool" where
  "delivery_init d \<longleftrightarrow> ds_messages d = [] \<and> ds_answers d = {}"

definition message_is :: "delivery_state \<Rightarrow> nat \<Rightarrow> string \<Rightarrow> delivery \<Rightarrow> bool" where
  "message_is d k mid st \<longleftrightarrow> k < length (ds_messages d) \<and> ds_messages d ! k = (mid, st)"

definition put_message :: "nat \<Rightarrow> string \<Rightarrow> delivery \<Rightarrow> delivery_state \<Rightarrow> delivery_state" where
  "put_message k mid st d = d\<lparr>ds_messages := (ds_messages d)[k := (mid, st)]\<rparr>"

inductive delivery_step :: "delivery_state \<Rightarrow> delivery_state \<Rightarrow> bool" where
  arrive: "delivery_step d (d\<lparr>ds_messages := ds_messages d @ [(mid, Pending)]\<rparr>)"
| send: "message_is d k mid Pending \<Longrightarrow> mid \<noteq> [] \<Longrightarrow> delivery_step d (put_message k mid Sent d)"
| answer: "delivery_step d (d\<lparr>ds_answers := insert (mid, e) (ds_answers d)\<rparr>)"
| settle: "message_is d k mid Sent \<Longrightarrow> (mid, e) \<in> ds_answers d
    \<Longrightarrow> delivery_step d (put_message k mid (Settled (ack_result e)) d)"
| fail: "message_is d k mid st \<Longrightarrow> st = Pending \<or> st = Sent
    \<Longrightarrow> delivery_step d (put_message k mid (Settled (Fail e)) d)"

inductive_cases delivery_stepE: "delivery_step d d'"

lemma message_is_put:
  "message_is (put_message k mid st d) j m st' \<longleftrightarrow>
     (if j = k then k < length (ds_messages d) \<and> m = mid \<and> st' = st else message_is d j m st')"
  by (auto simp: message_is_def put_message_def)

lemma message_is_unique: "message_is d k m st \<Longrightarrow> message_is d k m' st' \<Longrightarrow> m' = m \<and> st' = st"
  by (simp add: message_is_def)

text \<open>A settlement is final.\<close>

definition settled :: "nat \<Rightarrow> string \<Rightarrow> result \<Rightarrow> delivery_state \<Rightarrow> bool" where
  "settled k mid r d \<longleftrightarrow> message_is d k mid (Settled r)"

lemma settled_step: "settled k mid r d \<Longrightarrow> delivery_step d d' \<Longrightarrow> settled k mid r d'"
  by (erule delivery_stepE)
    (auto simp: settled_def message_is_put message_is_def nth_append put_message_def nth_list_update)

interpretation settled: preserved delivery_step "settled k mid r"
  by unfold_locales (rule settled_step)

text \<open>A success rests on an answer of the client without an error.\<close>

definition delivery_inv :: "delivery_state \<Rightarrow> bool" where
  "delivery_inv d \<longleftrightarrow>
     (\<forall>k mid. message_is d k mid Sent \<longrightarrow> mid \<noteq> [])
     \<and> (\<forall>k mid. message_is d k mid (Settled Ok) \<longrightarrow> mid \<noteq> [] \<and> (mid, []) \<in> ds_answers d)"

lemma delivery_inv_step: "delivery_inv d \<Longrightarrow> delivery_step d d' \<Longrightarrow> delivery_inv d'"
  by (erule delivery_stepE)
    (auto simp: delivery_inv_def message_is_put message_is_def nth_append put_message_def nth_list_update
      ack_result_def split: if_splits)

interpretation delivery: invariant_system delivery_step delivery_inv delivery_init
proof
  fix d assume "delivery_init d"
  then show "delivery_inv d" by (simp add: delivery_inv_def delivery_init_def message_is_def)
qed (rule delivery_inv_step)

section \<open>The simulation\<close>

fun delivery_of_pc :: "handler_pc \<Rightarrow> delivery" where
  "delivery_of_pc Begin = Pending"
| "delivery_of_pc Sending = Pending"
| "delivery_of_pc Waiting = Sent"
| "delivery_of_pc (Leaving r) = Settled r"
| "delivery_of_pc (Returned r) = Settled r"

definition delivery_of :: "ack_state \<Rightarrow> delivery_state" where
  "delivery_of s =
     \<lparr>ds_messages = map (\<lambda>i. (inv_id i, delivery_of_pc (inv_pc i))) (as_invocations s),
      ds_answers = set (as_acks s)\<rparr>"

lemma delivery_of_update [simp]:
  "delivery_of (s\<lparr>as_map := m\<rparr>) = delivery_of s"
  "delivery_of (s\<lparr>as_receiver := r\<rparr>) = delivery_of s"
  "delivery_of (s\<lparr>as_sent := l\<rparr>) = delivery_of s"
  by (simp_all add: delivery_of_def)

lemma message_is_delivery_of:
  "invocation_at s k = Some i \<Longrightarrow> message_is (delivery_of s) k (inv_id i) (delivery_of_pc (inv_pc i))"
  by (auto simp: message_is_def delivery_of_def invocation_at_def split: if_splits)

lemma delivery_of_set_pc:
  "invocation_at s k = Some i \<Longrightarrow>
     delivery_of (set_pc k pc s) = put_message k (inv_id i) (delivery_of_pc pc) (delivery_of s)"
  by (auto simp: delivery_of_def put_message_def set_pc_def invocation_at_def map_update split: if_splits)

text \<open>A step that keeps the abstract status of its invocation is invisible.\<close>

lemma delivery_of_same_pc:
  assumes "invocation_at s k = Some i" and "delivery_of_pc pc = delivery_of_pc (inv_pc i)"
  shows "delivery_of (set_pc k pc s) = delivery_of s"
  using message_is_delivery_of [OF assms(1)]
  by (simp add: delivery_of_set_pc [OF assms(1)] assms(2) message_is_def put_message_def
      list_update_same_conv [THEN iffD2])

lemma invocation_at_fields:
  "invocation_at (s\<lparr>as_map := m\<rparr>) k = invocation_at s k"
  "invocation_at (s\<lparr>as_sent := l\<rparr>) k = invocation_at s k"
  "invocation_at (s\<lparr>as_receiver := r\<rparr>) k = invocation_at s k"
  by (simp_all add: invocation_at_def)

lemma handler_step_simulates:
  assumes "ack_inv s" and "handler_step a s = Some t"
  shows "delivery_of t = delivery_of s \<or> delivery_step (delivery_of s) (delivery_of t)"
proof (cases a)
  case (Deliver mid subject)
  have "delivery_step (delivery_of s) ((delivery_of s)\<lparr>ds_messages := ds_messages (delivery_of s) @ [(mid, Pending)]\<rparr>)"
    by (rule delivery_step.arrive)
  with assms(2) Deliver show ?thesis by (auto simp: delivery_of_def)
next
  case (Reject k)
  with assms(2) obtain i e where i: "invocation_at s k = Some i" "inv_pc i = Begin"
    and t: "t = set_pc k (Returned (Fail e)) s"
    by (auto split: option.splits if_splits)
  show ?thesis
    using delivery_step.fail [OF message_is_delivery_of [OF i(1)]] i by (auto simp: t delivery_of_set_pc)
next
  case (Register k)
  with assms(2) obtain i where i: "invocation_at s k = Some i" "inv_pc i = Begin"
    and t: "t = set_pc k Sending (s\<lparr>as_map := fmupd (inv_id i) k (as_map s)\<rparr>)"
    by (auto split: option.splits if_splits)
  have "delivery_of t = delivery_of (s\<lparr>as_map := fmupd (inv_id i) k (as_map s)\<rparr>)"
    unfolding t by (rule delivery_of_same_pc [where i = i]) (simp_all add: i)
  then show ?thesis by simp
next
  case (SendFails k e)
  with assms(2) obtain i where i: "invocation_at s k = Some i" "inv_pc i = Sending"
    and t: "t = set_pc k (Leaving (Fail e)) s"
    by (auto split: option.splits if_splits)
  show ?thesis
    using delivery_step.fail [OF message_is_delivery_of [OF i(1)]] i by (auto simp: t delivery_of_set_pc)
next
  case (SendOk k)
  with assms(2) obtain i where i: "invocation_at s k = Some i" "inv_pc i = Sending"
    and t: "t = set_pc k Waiting (s\<lparr>as_sent := k # as_sent s\<rparr>)"
    by (auto split: option.splits if_splits)
  from assms(1) i have "inv_id i \<noteq> []" by (fastforce simp: ack_inv_def)
  with delivery_step.send [of "delivery_of s" k "inv_id i"] message_is_delivery_of [OF i(1)] i(2)
  have "delivery_step (delivery_of s) (put_message k (inv_id i) Sent (delivery_of s))" by simp
  moreover have "delivery_of t = put_message k (inv_id i) Sent (delivery_of s)"
    unfolding t by (subst delivery_of_set_pc [where i = i]) (simp_all add: i)
  ultimately show ?thesis by simp
next
  case (ContextDone k e)
  with assms(2) obtain i where i: "invocation_at s k = Some i" "inv_pc i = Waiting"
    and t: "t = set_pc k (Leaving (Fail e)) s"
    by (auto split: option.splits if_splits)
  show ?thesis
    using delivery_step.fail [OF message_is_delivery_of [OF i(1)]] i by (auto simp: t delivery_of_set_pc)
next
  case (Cleanup k)
  with assms(2) obtain i r where i: "invocation_at s k = Some i" "inv_pc i = Leaving r"
    and t: "t = set_pc k (Returned r) (s\<lparr>as_map := fmdrop (inv_id i) (as_map s)\<rparr>)"
    by (auto split: option.splits if_splits handler_pc.splits)
  have "delivery_of t = delivery_of (s\<lparr>as_map := fmdrop (inv_id i) (as_map s)\<rparr>)"
    unfolding t by (rule delivery_of_same_pc [where i = i]) (simp_all add: i)
  then show ?thesis by simp
qed (use assms(2) in simp_all)

lemma receiver_step_simulates:
  assumes "ack_inv s" and "receiver_step a s = Some t"
  shows "delivery_of t = delivery_of s \<or> delivery_step (delivery_of s) (delivery_of t)"
proof (cases a)
  case (RecvAck m)
  have "delivery_step (delivery_of s)
      ((delivery_of s)\<lparr>ds_answers := insert (pba_message_id m, pba_error m) (ds_answers (delivery_of s))\<rparr>)"
    by (rule delivery_step.answer)
  with assms(2) RecvAck show ?thesis by (auto simp: delivery_of_def split: if_splits)
next
  case HandOver
  with assms(2) obtain k e i where hand: "as_receiver s = HandingOver k e"
    and i: "invocation_at s k = Some i" "inv_pc i = Waiting"
    and t: "t = set_pc k (Leaving (ack_result e)) (s\<lparr>as_receiver := Receiving\<rparr>)"
    by (auto split: option.splits if_splits receiver_pc.splits)
  from assms(1) hand i(1) have "(inv_id i, e) \<in> ds_answers (delivery_of s)"
    by (auto simp: ack_inv_def delivery_of_def)
  with delivery_step.settle [of "delivery_of s" k "inv_id i" e] message_is_delivery_of [OF i(1)] i(2)
  have "delivery_step (delivery_of s) (put_message k (inv_id i) (Settled (ack_result e)) (delivery_of s))" by simp
  moreover have "delivery_of t = put_message k (inv_id i) (Settled (ack_result e)) (delivery_of s)"
    unfolding t by (subst delivery_of_set_pc [where i = i]) (simp_all add: i)
  ultimately show ?thesis by simp
qed (use assms(2) in \<open>auto split: option.splits if_splits receiver_pc.splits\<close>)

interpretation delivers: simulation ack_step ack_inv "\<lambda>s. s = ack_init" delivery_of delivery_init delivery_step
proof
  fix s :: ack_state assume "s = ack_init"
  then show "delivery_init (delivery_of s)" by (simp add: delivery_init_def delivery_of_def ack_init_def)
next
  fix s t assume "ack_inv s" "ack_step s t"
  then show "delivery_of t = delivery_of s \<or> delivery_step (delivery_of s) (delivery_of t)"
    by (auto elim!: ack_stepE simp: ack_action_step_def split: option.splits
        dest: handler_step_simulates receiver_step_simulates)
qed

section \<open>Properties\<close>

text \<open>C2: the handlers and the receiver of a stream implement the delivery protocol: every run of them is, seen
  through the statuses of the messages, a run of the protocol; so a message gets one result, which no
  later step changes, and the result is nil only for a message with an id the client acknowledged
  without an error.\<close>

theorem ack_implements_delivery:
  assumes "reachable (\<lambda>s. s = ack_init) ack_step s" and "ack_step\<^sup>*\<^sup>* s t"
  shows "delivery_step\<^sup>*\<^sup>* (delivery_of s) (delivery_of t)
    \<and> (\<forall>k i r. invocation_at s k = Some i \<and> inv_pc i = Returned r \<longrightarrow>
         settled k (inv_id i) r (delivery_of t)
         \<and> (r = Ok \<longrightarrow> inv_id i \<noteq> [] \<and> (inv_id i, []) \<in> ds_answers (delivery_of t)))"
proof -
  have steps: "delivery_step\<^sup>*\<^sup>* (delivery_of s) (delivery_of t)" by (rule delivers.sim_steps [OF assms(2,1)])
  have t: "delivery_inv (delivery_of t)"
    by (intro delivery.inv_reachable delivers.sim_reachable reachable_steps [OF assms(2,1)])
  have final: "settled k (inv_id i) r (delivery_of t)" if "invocation_at s k = Some i" "inv_pc i = Returned r" for k i r
    using settled.inv_steps [OF steps] message_is_delivery_of [OF that(1)] that(2) by (simp add: settled_def)
  with t have "inv_id i \<noteq> [] \<and> (inv_id i, []) \<in> ds_answers (delivery_of t)"
    if "invocation_at s k = Some i" "inv_pc i = Returned Ok" for k i
    using that unfolding delivery_inv_def settled_def by blast
  with steps final show ?thesis by blast
qed

section \<open>Witness\<close>

theorem ack_implements_delivery_witness:
  "\<exists>s. ds_messages (delivery_of s) = [(''m1'', Settled Ok)] \<and> settled 0 ''m1'' Ok (delivery_of s)
     \<and> (''m1'', []) \<in> ds_answers (delivery_of s)"
proof -
  obtain s where run: "ack_run acked_run ack_init = Some s"
    and s: "as_invocations s = [\<lparr>inv_id = ''m1'', inv_subject = ''orders'', inv_pc = Returned Ok\<rparr>]"
    by (simp add: acked_run_def ack_eval)
  have at: "invocation_at s 0 = Some \<lparr>inv_id = ''m1'', inv_subject = ''orders'', inv_pc = Returned Ok\<rparr>"
    by (simp add: invocation_at_def s)
  from ack_implements_delivery [OF ack_run_reachable [OF run] rtranclp.rtrancl_refl] at
  have "settled 0 ''m1'' Ok (delivery_of s) \<and> (''m1'', []) \<in> ds_answers (delivery_of s)" by force
  with s show ?thesis by (intro exI [of _ s]) (simp add: delivery_of_def)
qed

end
