(* ===== verification/Registry.thy ===== *)
theory Registry
  imports Messaging
begin

text \<open>
  The registries of pub/sub and middleware factories
  (\<^verbatim>\<open>pkg/custom-resource/components/{pubsub,middleware}/registry.go\<close>, \<^verbatim>\<open>versioning.go\<close>).
  Both are a table from a lower-case name, optionally followed by \<^verbatim>\<open>/version\<close>, to a factory; their
  clients rely on the laws of the locale \<open>component_registry\<close> only.
\<close>

section \<open>Versions\<close>

definition unstable_version :: string where "unstable_version = ''v0''"

definition first_stable_version :: string where "first_stable_version = ''v1''"

definition is_initial_version :: "string \<Rightarrow> bool" where
  "is_initial_version version =
     (let v = to_lower version in v = [] \<or> v = unstable_version \<or> v = first_stable_version)"

lemma is_initial_version_lower [simp]: "is_initial_version (to_lower v) = is_initial_version v"
  by (simp add: is_initial_version_def)

section \<open>The interface\<close>

locale component_registry =
  fixes register :: "'d list \<Rightarrow> 'r \<Rightarrow> 'r"
    and find_factory :: "'r \<Rightarrow> string \<Rightarrow> string \<Rightarrow> 'f option"
    and key :: "'d \<Rightarrow> string"
    and factory :: "'d \<Rightarrow> 'f"
    and table :: "'r \<Rightarrow> (string, 'f) fmap"
  assumes table_register: "table (register ds r) = foldl (\<lambda>t d. fmupd (key d) (factory d) t) (table r) ds"
    and find_table: "find_factory r n v =
      (case fmlookup (table r) (to_lower n @ ''/'' @ to_lower v) of
         Some f \<Rightarrow> Some f
       | None \<Rightarrow> if is_initial_version v then fmlookup (table r) (to_lower n) else None)"
begin

lemma find_lower: "find_factory r (to_lower n) (to_lower v) = find_factory r n v"
  by (simp add: find_table split: option.split)

lemma table_unregistered:
  "k \<notin> key ` set ds \<Longrightarrow> fmlookup (table (register ds r)) k = fmlookup (table r) k"
  unfolding table_register by (induction ds rule: rev_induct) auto

lemma table_registered:
  "distinct (map key ds) \<Longrightarrow> d \<in> set ds \<Longrightarrow> fmlookup (table (register ds r)) (key d) = Some (factory d)"
  unfolding table_register by (induction ds rule: rev_induct) auto

lemma table_find:
  assumes "distinct (map key ds)" and "table r = fmempty"
  shows "fmlookup (table (register ds r)) k = map_option factory (find (\<lambda>d. key d = k) ds)"
proof (cases "find (\<lambda>d. key d = k) ds")
  case None
  then have "k \<notin> key ` set ds" by (auto simp: find_None_iff)
  with None assms(2) show ?thesis by (simp add: table_unregistered)
next
  case (Some d)
  then have "d \<in> set ds" and "key d = k" by (auto simp: find_Some_iff)
  with Some table_registered [OF assms(1)] show ?thesis by auto
qed

text \<open>A lookup after registration, as a search in the list of definitions.\<close>

lemma find_after_register:
  assumes "distinct (map key ds)" and "table r = fmempty"
  shows "find_factory (register ds r) n v =
    map_option factory
      (case find (\<lambda>d. key d = to_lower n @ ''/'' @ to_lower v) ds of
         Some d \<Rightarrow> Some d
       | None \<Rightarrow> if is_initial_version v then find (\<lambda>d. key d = to_lower n) ds else None)"
  by (simp add: find_table table_find [OF assms] split: option.splits)

end

section \<open>Pub/sub factories\<close>

text \<open>
  \<^verbatim>\<open>FactoryMethod func() messaging.PubSub\<close> returns a new object on every call: the model's
  factory is that object's initial state.
\<close>

record 'p pubsub_definition =
  psd_name :: string
  psd_factory :: 'p

definition pubsub_full_name :: "string \<Rightarrow> string" where
  "pubsub_full_name name = to_lower (''pubsub.'' @ name)"

fun pubsub_register :: "'p pubsub_definition list \<Rightarrow> (string, 'p) fmap \<Rightarrow> (string, 'p) fmap" where
  "pubsub_register [] reg = reg"
| "pubsub_register (d # ds) reg =
     pubsub_register ds (fmupd (pubsub_full_name (psd_name d)) (psd_factory d) reg)"

definition get_pubsub :: "(string, 'p) fmap \<Rightarrow> string \<Rightarrow> string \<Rightarrow> 'p option" where
  "get_pubsub reg name version =
     (let name_lower = to_lower name; version_lower = to_lower version
      in case fmlookup reg (name_lower @ ''/'' @ version_lower) of
           Some f \<Rightarrow> Some f
         | None \<Rightarrow>
             if is_initial_version version_lower then fmlookup reg name_lower else None)"

definition pubsub_create :: "(string, 'p) fmap \<Rightarrow> string \<Rightarrow> string \<Rightarrow> error + 'p" where
  "pubsub_create reg name version =
     (case get_pubsub reg name version of
        Some m \<Rightarrow> Inr m
      | None \<Rightarrow> Inl (ErrText (''couldn't find message bus '' @ name @ ''/'' @ version)))"

interpretation pubsub_registry: component_registry
  pubsub_register get_pubsub "\<lambda>d. pubsub_full_name (psd_name d)" psd_factory "\<lambda>r. r"
proof unfold_locales
  fix ds :: "'p pubsub_definition list" and r
  show "pubsub_register ds r =
      foldl (\<lambda>t d. fmupd (pubsub_full_name (psd_name d)) (psd_factory d) t) r ds"
    by (induction ds arbitrary: r) auto
qed (simp add: get_pubsub_def Let_def)

section \<open>Middleware factories\<close>

record ('o, 'w) middleware_definition =
  mwd_name :: string
  mwd_factory :: "gomap \<Rightarrow> ('o, 'w) middleware"

definition middleware_full_name :: "string \<Rightarrow> string" where
  "middleware_full_name name = to_lower (''middleware.pubsub.'' @ name)"

type_synonym ('o, 'w) middleware_table = "(string, gomap \<Rightarrow> ('o, 'w) middleware) fmap"

fun middleware_register :: "('o, 'w) middleware_definition list \<Rightarrow> ('o, 'w) middleware_table
    \<Rightarrow> ('o, 'w) middleware_table" where
  "middleware_register [] reg = reg"
| "middleware_register (d # ds) reg =
     middleware_register ds (fmupd (middleware_full_name (mwd_name d)) (mwd_factory d) reg)"

definition get_middleware_factory :: "('o, 'w) middleware_table \<Rightarrow> string \<Rightarrow> string
    \<Rightarrow> (gomap \<Rightarrow> ('o, 'w) middleware) option" where
  "get_middleware_factory reg name version =
     (let name_lower = to_lower name; version_lower = to_lower version
      in case fmlookup reg (name_lower @ ''/'' @ version_lower) of
           Some f \<Rightarrow> Some f
         | None \<Rightarrow>
             if is_initial_version version_lower then fmlookup reg name_lower else None)"

definition middleware_create :: "('o, 'w) middleware_table \<Rightarrow> string \<Rightarrow> string \<Rightarrow> gomap
    \<Rightarrow> error + ('o, 'w) middleware" where
  "middleware_create reg name version properties =
     (case get_middleware_factory reg name version of
        Some m \<Rightarrow> Inr (m properties)
      | None \<Rightarrow> Inl (ErrText (''Pubsub middleware '' @ name @ ''/'' @ version @ '' has not been registered'')))"

interpretation middleware_registry: component_registry
  middleware_register get_middleware_factory "\<lambda>d. middleware_full_name (mwd_name d)" mwd_factory "\<lambda>r. r"
proof unfold_locales
  fix ds :: "('o, 'w) middleware_definition list" and r
  show "middleware_register ds r =
      foldl (\<lambda>t d. fmupd (middleware_full_name (mwd_name d)) (mwd_factory d) t) r ds"
    by (induction ds arbitrary: r) auto
qed (simp add: get_middleware_factory_def Let_def)

section \<open>Properties\<close>

text \<open>For definitions with pairwise different full names, \<^verbatim>\<open>Create(type, version)\<close> returns the
  factory registered as \<open>type/version\<close>, else, for version \<open>""\<close>, \<open>v0\<close> or \<open>v1\<close>, the one registered as
  \<open>type\<close>, else the not-found error; letter case of the type and the version does not matter.\<close>

theorem pubsub_create_after_register:
  assumes "distinct (map (\<lambda>d. pubsub_full_name (psd_name d)) ds)"
  shows "pubsub_create (pubsub_register ds fmempty) name version =
    (case (case find (\<lambda>d. pubsub_full_name (psd_name d) = to_lower name @ ''/'' @ to_lower version) ds of
             Some d \<Rightarrow> Some d
           | None \<Rightarrow> if is_initial_version version
                     then find (\<lambda>d. pubsub_full_name (psd_name d) = to_lower name) ds else None) of
       Some d \<Rightarrow> Inr (psd_factory d)
     | None \<Rightarrow> Inl (ErrText (''couldn't find message bus '' @ name @ ''/'' @ version)))"
  unfolding pubsub_create_def pubsub_registry.find_after_register [OF assms refl]
  by (simp split: option.splits)

theorem pubsub_create_after_register_witness:
  "pubsub_create
     (pubsub_register [\<lparr>psd_name = ''natsstreaming'', psd_factory = (1::nat)\<rparr>,
                       \<lparr>psd_name = ''Jetstream'', psd_factory = 2\<rparr>] fmempty)
     ''PubSub.jetStream'' ''V1'' = Inr 2"
proof -
  have d: "distinct (map (\<lambda>d. pubsub_full_name (psd_name d))
      [\<lparr>psd_name = ''natsstreaming'', psd_factory = (1::nat)\<rparr>, \<lparr>psd_name = ''Jetstream'', psd_factory = 2\<rparr>])"
    by code_simp
  show ?thesis unfolding pubsub_create_after_register [OF d] by code_simp
qed

end
