(* ===== verification/Healthcheck.thy ===== *)
theory Healthcheck
  imports Prelude
begin

text \<open>
  \<^verbatim>\<open>pkg/healthcheck\<close>: the health results components answer with (\<^verbatim>\<open>types.go\<close>) and the HTTP handler that
  asks all checkers within a time limit (\<^verbatim>\<open>health.go\<close>).
\<close>

section \<open>Results\<close>

datatype health_status = Unhealthy | Degraded | Healthy

record health_result =
  hr_status :: health_status
  hr_description :: string

definition healthy_result :: health_result where
  "healthy_result = \<lparr>hr_status = Healthy, hr_description = []\<rparr>"

section \<open>The handler\<close>

text \<open>A checker answers in time, or not: \<^term>\<open>None\<close>.\<close>

type_synonym health_checker = "health_result option"

definition timeout_checker :: "health_checker \<Rightarrow> health_result" where
  "timeout_checker answer =
     (case answer of
        Some r \<Rightarrow> r
      | None \<Rightarrow> \<lparr>hr_status = Unhealthy, hr_description = ''max check time exceeded''\<rparr>)"

record 'c health =
  he_checkers :: "(string, 'c) fmap"
  he_timeout :: int

definition health_handler :: "('c health \<Rightarrow> 'c health) list \<Rightarrow> 'c health" where
  "health_handler opts = foldl (\<lambda>h opt. opt h) \<lparr>he_checkers = fmempty, he_timeout = 30000000000\<rparr> opts"

definition with_checker :: "string \<Rightarrow> 'c \<Rightarrow> 'c health \<Rightarrow> 'c health" where
  "with_checker name c h = h\<lparr>he_checkers := fmupd name c (he_checkers h)\<rparr>"

definition with_timeout :: "int \<Rightarrow> 'c health \<Rightarrow> 'c health" where
  "with_timeout timeout h = h\<lparr>he_timeout := timeout\<rparr>"

record health_response =
  hx_code :: nat
  hx_errors :: smap

text \<open>One goroutine of \<^verbatim>\<open>ServeHTTP\<close>, under the mutex.\<close>

definition record_check :: "string \<Rightarrow> health_result \<Rightarrow> health_response \<Rightarrow> health_response" where
  "record_check key r resp =
     (if hr_status r \<noteq> Healthy
      then resp\<lparr>hx_errors := fmupd key (hr_description r) (hx_errors resp), hx_code := 503\<rparr>
      else resp)"

text \<open>\<open>ks\<close> is the order in which the goroutines finish, \<open>answer\<close> what each checker answered in time.\<close>

fun run_checks :: "('c \<Rightarrow> health_checker) \<Rightarrow> (string, 'c) fmap \<Rightarrow> string list \<Rightarrow> health_response \<Rightarrow> health_response" where
  "run_checks answer checkers [] resp = resp"
| "run_checks answer checkers (k # ks) resp =
     (case fmlookup checkers k of
        None \<Rightarrow> run_checks answer checkers ks resp
      | Some c \<Rightarrow> run_checks answer checkers ks (record_check k (timeout_checker (answer c)) resp))"

definition serve_http :: "('c \<Rightarrow> health_checker) \<Rightarrow> 'c health \<Rightarrow> string list \<Rightarrow> health_response" where
  "serve_http answer h ks = run_checks answer (he_checkers h) ks \<lparr>hx_code = 200, hx_errors = fmempty\<rparr>"

text \<open>The verdict on one checker.\<close>

definition check_fails :: "('c \<Rightarrow> health_checker) \<Rightarrow> (string, 'c) fmap \<Rightarrow> string \<Rightarrow> string option" where
  "check_fails answer checkers k =
     (case fmlookup checkers k of
        None \<Rightarrow> None
      | Some c \<Rightarrow>
          (if hr_status (timeout_checker (answer c)) \<noteq> Healthy
           then Some (hr_description (timeout_checker (answer c))) else None))"

lemma run_checks_errors:
  "distinct ks \<Longrightarrow> fmlookup (hx_errors (run_checks answer checkers ks resp)) k =
     (if k \<in> set ks \<and> check_fails answer checkers k \<noteq> None then check_fails answer checkers k
      else fmlookup (hx_errors resp) k)"
  by (induction ks arbitrary: resp) (auto simp: check_fails_def record_check_def split: option.split)

lemma run_checks_code:
  "hx_code (run_checks answer checkers ks resp) =
     (if \<exists>k\<in>set ks. check_fails answer checkers k \<noteq> None then 503 else hx_code resp)"
  by (induction ks arbitrary: resp) (auto simp: check_fails_def record_check_def split: option.split)

text \<open>
  The handler answers 200 exactly when every checker answers "healthy" in time, and names every other one
  with its description, in whatever order the goroutines finish.
\<close>

theorem serve_http_verdict:
  assumes "enumerates ks (he_checkers h)"
  shows "hx_code (serve_http answer h ks) =
      (if \<exists>k. check_fails answer (he_checkers h) k \<noteq> None then 503 else 200)
    \<and> fmlookup (hx_errors (serve_http answer h ks)) k = check_fails answer (he_checkers h) k"
proof -
  have "check_fails answer (he_checkers h) j = None" if "j \<notin> set ks" for j
    using that enumerates_mem [OF assms, of j] by (simp add: check_fails_def)
  then show ?thesis
    using enumerates_distinct [OF assms]
    by (auto simp: serve_http_def run_checks_code run_checks_errors)
qed

end
