(* ===== verification/Configuration.thy ===== *)
theory Configuration
  imports Prelude
begin

text \<open>
  The application configuration (\<^verbatim>\<open>pkg/custom-resource/configuration\<close>): its types, the feature
  lookup, the default and the loader for a local file.  A slice is \<^term>\<open>None\<close> when it is nil,
  since \<^verbatim>\<open>reflect.DeepEqual\<close> tells a nil slice from an empty one.
\<close>

section \<open>Types\<close>

record handler_spec =
  hs_name :: string
  hs_type :: string
  hs_version :: string

record feature_spec =
  fs_name :: string
  fs_enabled :: bool

record telemetry_spec =
  ts_collector_endpoint :: string
  ts_propagator :: string

record config_spec =
  sp_subscriber_handlers :: "handler_spec list option"
  sp_publisher_handlers :: "handler_spec list option"
  sp_telemetry :: telemetry_spec
  sp_features :: "feature_spec list option"
  sp_pubsub_name :: string
  sp_min_runtime_version :: string

definition slice :: "'a list option \<Rightarrow> 'a list" where
  "slice xs = (case xs of None \<Rightarrow> [] | Some l \<Rightarrow> l)"

lemma slice_simps [simp]: "slice None = []" "slice (Some l) = l"
  by (simp_all add: slice_def)

definition propagator_w3c :: string where "propagator_w3c = ''w3c''"

definition propagator_jaeger :: string where "propagator_jaeger = ''jaeger''"

section \<open>Features\<close>

fun is_feature_enabled :: "feature_spec list \<Rightarrow> string \<Rightarrow> bool" where
  "is_feature_enabled [] target = False"
| "is_feature_enabled (f # fs) target =
     (if fs_name f = target then fs_enabled f else is_feature_enabled fs target)"

lemma is_feature_enabled_find:
  "is_feature_enabled fs target \<longleftrightarrow> (\<exists>f. find (\<lambda>f. fs_name f = target) fs = Some f \<and> fs_enabled f)"
  by (induction fs) auto

section \<open>Loading\<close>

text \<open>\<^verbatim>\<open>configuration.Spec{}\<close> and \<^verbatim>\<open>LoadDefaultConfiguration\<close>: all fields are zero.\<close>

definition zero_config :: config_spec where
  "zero_config =
     \<lparr>sp_subscriber_handlers = None, sp_publisher_handlers = None,
      sp_telemetry = \<lparr>ts_collector_endpoint = [], ts_propagator = []\<rparr>,
      sp_features = None, sp_pubsub_name = [], sp_min_runtime_version = []\<rparr>"

definition load_default_configuration :: config_spec where
  "load_default_configuration =
     zero_config\<lparr>sp_telemetry := \<lparr>ts_collector_endpoint = [], ts_propagator = []\<rparr>,
                 sp_pubsub_name := []\<rparr>"

text \<open>
  \<^verbatim>\<open>LoadStandaloneConfiguration\<close>: the file system and the YAML decoder are parameters.  The result
  is the error and what the goroutine sends on the channel; it sends also when the decoder failed.
\<close>

definition load_standalone_configuration ::
  "(string \<Rightarrow> error option) \<Rightarrow> (string \<Rightarrow> error + string) \<Rightarrow> (string \<Rightarrow> string)
    \<Rightarrow> (string \<Rightarrow> config_spec \<Rightarrow> error option \<times> config_spec) \<Rightarrow> string
    \<Rightarrow> error option \<times> config_spec list" where
  "load_standalone_configuration stat read_file expand_env unmarshal config =
     (case stat config of
        Some e \<Rightarrow> (Some e, [])
      | None \<Rightarrow>
          (case read_file config of
             Inl e \<Rightarrow> (Some e, [])
           | Inr b \<Rightarrow>
               (case unmarshal (expand_env b) load_default_configuration of
                  (err, cfg) \<Rightarrow> (err, [cfg]))))"

end
