(* ===== verification/Components.thy ===== *)
theory Components
  imports Registry Healthcheck Configuration
begin

text \<open>
  The components manager (\<^verbatim>\<open>pkg/runtime/components_manager.go\<close>) and the component data of
  \<^verbatim>\<open>pkg/custom-resource/components/types.go\<close>.

  A pub/sub object is a value of a type \<open>'p\<close> whose operations are a record \<open>pubsub_ops\<close>: the
  brokers are parameters here, and \<^verbatim>\<open>Init\<close> and \<^verbatim>\<open>Close\<close> change the object.  The manager holds
  pointers, so the object in its map changes with every call.  A \<^verbatim>\<open>range\<close> over a map takes the order
  of the keys as an argument.  The unbuffered notification channel is the list of what was sent.
\<close>

section \<open>Types\<close>

datatype category = BindingsComponent | PubsubComponent | SecretStoreComponent | MiddlewareComponent

fun category_name :: "category \<Rightarrow> string" where
  "category_name BindingsComponent = ''bindings''"
| "category_name PubsubComponent = ''pubsub''"
| "category_name SecretStoreComponent = ''secretstores''"
| "category_name MiddlewareComponent = ''middleware''"

datatype operation = Insert | Update | Delete

fun operation_name :: "operation \<Rightarrow> string" where
  "operation_name Insert = ''insert''"
| "operation_name Update = ''update''"
| "operation_name Delete = ''delete''"

definition component_categories :: "category list" where
  "component_categories =
     [BindingsComponent, PubsubComponent, SecretStoreComponent, MiddlewareComponent]"

record spec =
  cs_name :: string
  cs_type :: string
  cs_version :: string
  cs_metadata :: gomap
  cs_scopes :: "string list"

record change_notification =
  cn_category :: category
  cn_operation :: operation
  cn_spec :: spec

record 'p pubsub_ops =
  ops_init :: "'p \<Rightarrow> gomap \<Rightarrow> error option \<times> 'p"
  ops_close :: "'p \<Rightarrow> error option \<times> 'p"
  ops_health :: "'p \<Rightarrow> health_result option"

record ('p, 'o, 'w) manager =
  m_app_id :: string
  m_instances :: "(string, 'p) fmap"
  m_components :: "(string, spec) fmap"
  m_notifications :: "change_notification list"
  m_watch_closed :: bool
  m_pubsubs :: "(string, 'p) fmap"
  m_middlewares :: "('o, 'w) middleware_table"

text \<open>
  \<^verbatim>\<open>NewComponentsManager\<close>, after the options have collected the definitions to register; the
  loader's error comes first.
\<close>

definition new_components_manager :: "string \<Rightarrow> error option \<Rightarrow> 'p pubsub_definition list
    \<Rightarrow> ('o, 'w) middleware_definition list \<Rightarrow> error + ('p, 'o, 'w) manager" where
  "new_components_manager app_id loader_err pubsubs middlewares =
     (case loader_err of
        Some e \<Rightarrow> Inl e
      | None \<Rightarrow>
          Inr \<lparr>m_app_id = app_id, m_instances = fmempty, m_components = fmempty,
               m_notifications = [], m_watch_closed = False,
               m_pubsubs = pubsub_register pubsubs fmempty,
               m_middlewares = middleware_register middlewares fmempty\<rparr>)"

text \<open>
  The options of \<^verbatim>\<open>pkg/runtime/options.go\<close>: functions that add definitions, applied in their order to
  empty lists.
\<close>

record ('p, 'o, 'w) runtime_opts =
  ro_pubsubs :: "'p pubsub_definition list"
  ro_pubsub_middleware :: "('o, 'w) middleware_definition list"

definition with_pubsubs :: "'p pubsub_definition list \<Rightarrow> ('p, 'o, 'w) runtime_opts \<Rightarrow> ('p, 'o, 'w) runtime_opts" where
  "with_pubsubs ds opts = opts\<lparr>ro_pubsubs := ro_pubsubs opts @ ds\<rparr>"

definition with_pubsub_middleware :: "('o, 'w) middleware_definition list \<Rightarrow> ('p, 'o, 'w) runtime_opts
    \<Rightarrow> ('p, 'o, 'w) runtime_opts" where
  "with_pubsub_middleware ds opts = opts\<lparr>ro_pubsub_middleware := ro_pubsub_middleware opts @ ds\<rparr>"

definition apply_options :: "(('p, 'o, 'w) runtime_opts \<Rightarrow> ('p, 'o, 'w) runtime_opts) list \<Rightarrow> ('p, 'o, 'w) runtime_opts" where
  "apply_options opts = fold (\<lambda>opt o1. opt o1) opts \<lparr>ro_pubsubs = [], ro_pubsub_middleware = []\<rparr>"

text \<open>Options accumulate: one given twice adds the definitions of both.\<close>

lemma apply_options_snoc:
  "ro_pubsubs (apply_options (opts @ [with_pubsubs ds])) = ro_pubsubs (apply_options opts) @ ds"
  "ro_pubsub_middleware (apply_options (opts @ [with_pubsubs ds])) = ro_pubsub_middleware (apply_options opts)"
  "ro_pubsubs (apply_options (opts @ [with_pubsub_middleware ms])) = ro_pubsubs (apply_options opts)"
  "ro_pubsub_middleware (apply_options (opts @ [with_pubsub_middleware ms]))
     = ro_pubsub_middleware (apply_options opts) @ ms"
  by (simp_all add: apply_options_def with_pubsubs_def with_pubsub_middleware_def)

section \<open>Components\<close>

fun category_of_type :: "category list \<Rightarrow> string \<Rightarrow> category option" where
  "category_of_type [] typ = None"
| "category_of_type (c # cs) typ =
     (if has_prefix (category_name c @ ''.'') typ then Some c else category_of_type cs typ)"

text \<open>\<^term>\<open>None\<close> stands for the empty category.\<close>

definition extract_component_category :: "spec \<Rightarrow> category option" where
  "extract_component_category s = category_of_type component_categories (cs_type s)"

definition get_component_key :: "string \<Rightarrow> string \<Rightarrow> string" where
  "get_component_key ctype name = ctype @ ''-'' @ name"

text \<open>The loop of \<^verbatim>\<open>getComponent\<close> over the map, in the order \<open>ks\<close> of its keys.\<close>

fun find_component :: "(string, spec) fmap \<Rightarrow> string \<Rightarrow> string \<Rightarrow> string list \<Rightarrow> spec option" where
  "find_component m ctype name [] = None"
| "find_component m ctype name (k # ks) =
     (case fmlookup m k of
        None \<Rightarrow> find_component m ctype name ks
      | Some c \<Rightarrow>
          (if cs_type c = ctype \<and> cs_name c = name then Some c
           else find_component m ctype name ks))"

definition get_component :: "string list \<Rightarrow> ('p, 'o, 'w) manager \<Rightarrow> string \<Rightarrow> string \<Rightarrow> spec option" where
  "get_component ks m ctype name = find_component (m_components m) ctype name ks"

definition store_component :: "spec \<Rightarrow> ('p, 'o, 'w) manager \<Rightarrow> ('p, 'o, 'w) manager" where
  "store_component s m =
     m\<lparr>m_components := fmupd (get_component_key (cs_type s) (cs_name s)) s (m_components m)\<rparr>"

definition publish_change :: "category \<Rightarrow> operation \<Rightarrow> spec \<Rightarrow> ('p, 'o, 'w) manager
    \<Rightarrow> ('p, 'o, 'w) manager" where
  "publish_change category operation s m =
     m\<lparr>m_notifications := m_notifications m @
        [\<lparr>cn_category = category, cn_operation = operation, cn_spec = s\<rparr>]\<rparr>"

text \<open>The copy of the metadata that \<^verbatim>\<open>Init\<close> gets, with the consumer id.\<close>

definition init_metadata :: "string \<Rightarrow> gomap \<Rightarrow> gomap" where
  "init_metadata app_id metadata =
     Some (fmupd ''consumerID'' app_id (case metadata of None \<Rightarrow> fmempty | Some f \<Rightarrow> f))"

definition init_pubsub :: "'p pubsub_ops \<Rightarrow> spec \<Rightarrow> ('p, 'o, 'w) manager
    \<Rightarrow> error option \<times> ('p, 'o, 'w) manager" where
  "init_pubsub ops s m =
     (case pubsub_create (m_pubsubs m) (cs_type s) (cs_version s) of
        Inl e \<Rightarrow> (Some e, m)
      | Inr ps \<Rightarrow>
          (case ops_init ops ps (init_metadata (m_app_id m) (cs_metadata s)) of
             (Some e, ps1) \<Rightarrow> (Some e, m)
           | (None, ps1) \<Rightarrow>
               (None, m\<lparr>m_instances := fmupd (cs_name s) ps1 (m_instances m)\<rparr>)))"

definition update_pubsub :: "'p pubsub_ops \<Rightarrow> spec \<Rightarrow> ('p, 'o, 'w) manager
    \<Rightarrow> error option \<times> ('p, 'o, 'w) manager" where
  "update_pubsub ops s m =
     (case fmlookup (m_instances m) (cs_name s) of
        None \<Rightarrow> init_pubsub ops s m
      | Some ps \<Rightarrow>
          (case ops_close ops ps of (err, ps1) \<Rightarrow>
             (let m1 = m\<lparr>m_instances := fmupd (cs_name s) ps1 (m_instances m)\<rparr>
              in case err of Some e \<Rightarrow> (Some e, m1) | None \<Rightarrow> init_pubsub ops s m1)))"

text \<open>
  The message of the default branch has the component's name where the format says "operation",
  and the operation where it says "component", as the source has them.
\<close>

definition invalid_category_error :: "operation \<Rightarrow> spec \<Rightarrow> error" where
  "invalid_category_error operation s =
     ErrText (''invalid category '' @ [] @ '' or operation '' @ cs_name s @ '' for this component ''
        @ operation_name operation)"

definition add_or_update_component :: "'p pubsub_ops \<Rightarrow> string list \<Rightarrow> spec \<Rightarrow> ('p, 'o, 'w) manager
    \<Rightarrow> error option \<times> ('p, 'o, 'w) manager" where
  "add_or_update_component ops ks s m =
     (let old = get_component ks m (cs_type s) (cs_name s);
          operation = (if old \<noteq> None then Update else Insert)
      in if map_option cs_metadata old = Some (cs_metadata s) then (None, m)
         else case extract_component_category s of
             None \<Rightarrow> (Some (invalid_category_error operation s), m)
           | Some cat \<Rightarrow>
               (case (if cat = PubsubComponent
                      then (if operation = Update then update_pubsub ops s m else init_pubsub ops s m)
                      else (None, m)) of
                  (err, m1) \<Rightarrow>
                    (let m2 = store_component s m1
                     in (err, if err = None then publish_change cat operation s m2 else m2))))"

text \<open>The goroutine that drains the update channel, then closes the notifications.\<close>

fun watch_components_updates :: "'p pubsub_ops \<Rightarrow> (('p, 'o, 'w) manager \<Rightarrow> string list) \<Rightarrow> spec list
    \<Rightarrow> ('p, 'o, 'w) manager \<Rightarrow> ('p, 'o, 'w) manager" where
  "watch_components_updates ops order [] m = m\<lparr>m_watch_closed := True\<rparr>"
| "watch_components_updates ops order (s # ss) m =
     watch_components_updates ops order ss (snd (add_or_update_component ops (order m) s m))"

section \<open>Lookups\<close>

definition get_middleware :: "string list \<Rightarrow> ('p, 'o, 'w) manager \<Rightarrow> handler_spec
    \<Rightarrow> error + ('o, 'w) middleware" where
  "get_middleware ks m h =
     (case get_component ks m (hs_type h) (hs_name h) of
        None \<Rightarrow> Inl (ErrText (''couldn't find middleware component with name '' @ hs_name h
                   @ '' and type '' @ hs_type h @ ''/'' @ hs_version h))
      | Some c \<Rightarrow> middleware_create (m_middlewares m) (hs_type h) (hs_version h) (cs_metadata c))"

definition get_publisher :: "('p, 'o, 'w) manager \<Rightarrow> string \<Rightarrow> 'p option" where
  "get_publisher m name = fmlookup (m_instances m) name"

definition get_subscriber :: "('p, 'o, 'w) manager \<Rightarrow> string \<Rightarrow> 'p option" where
  "get_subscriber m name = fmlookup (m_instances m) name"

definition watch_notifications :: "('p, 'o, 'w) manager \<Rightarrow> change_notification list" where
  "watch_notifications m = m_notifications m"

fun instances_health :: "'p pubsub_ops \<Rightarrow> (string, 'p) fmap \<Rightarrow> string list \<Rightarrow> health_result option" where
  "instances_health ops m [] = None"
| "instances_health ops m (k # ks) =
     (case Option.bind (fmlookup m k) (ops_health ops) of
        None \<Rightarrow> instances_health ops m ks
      | Some r \<Rightarrow> (if hr_status r \<noteq> Healthy then Some r else instances_health ops m ks))"

definition manager_is_healthy :: "'p pubsub_ops \<Rightarrow> string list \<Rightarrow> ('p, 'o, 'w) manager \<Rightarrow> health_result" where
  "manager_is_healthy ops ks m =
     (case instances_health ops (m_instances m) ks of
        Some r \<Rightarrow> r
      | None \<Rightarrow>
          (if m_instances m = fmempty
           then \<lparr>hr_status = Unhealthy, hr_description = ''no pubsub instance created yet''\<rparr>
           else healthy_result))"

section \<open>The component table\<close>

text \<open>Every component is stored under its own key, so at most one entry matches a lookup.\<close>

definition keys_ok :: "('p, 'o, 'w) manager \<Rightarrow> bool" where
  "keys_ok m \<longleftrightarrow> (\<forall>k c. fmlookup (m_components m) k = Some c \<longrightarrow>
      k = get_component_key (cs_type c) (cs_name c))"

definition lookup_spec :: "('p, 'o, 'w) manager \<Rightarrow> string \<Rightarrow> string \<Rightarrow> spec option" where
  "lookup_spec m ctype name =
     (case fmlookup (m_components m) (get_component_key ctype name) of
        None \<Rightarrow> None
      | Some c \<Rightarrow> (if cs_type c = ctype \<and> cs_name c = name then Some c else None))"

lemma find_component_Some:
  "find_component m ctype name ks = Some c \<Longrightarrow>
     \<exists>k\<in>set ks. fmlookup m k = Some c \<and> cs_type c = ctype \<and> cs_name c = name"
  by (induction ks) (auto split: option.splits if_splits)

lemma find_component_None:
  "find_component m ctype name ks = None \<Longrightarrow> k \<in> set ks \<Longrightarrow> fmlookup m k = Some c \<Longrightarrow>
     \<not> (cs_type c = ctype \<and> cs_name c = name)"
  by (induction ks) (auto split: option.splits if_splits)

lemma get_component_eq:
  assumes "keys_ok m" and "enumerates ks (m_components m)"
  shows "get_component ks m ctype name = lookup_spec m ctype name"
proof (cases "get_component ks m ctype name")
  case None
  then have "\<not> (cs_type c = ctype \<and> cs_name c = name)" if "fmlookup (m_components m) k = Some c" for k c
    using that find_component_None [of "m_components m" ctype name ks k c] enumerates_mem [OF assms(2), of k]
    by (simp add: get_component_def)
  with None show ?thesis by (auto simp: lookup_spec_def split: option.splits)
next
  case (Some c)
  then obtain k where "fmlookup (m_components m) k = Some c" "cs_type c = ctype" "cs_name c = name"
    using find_component_Some by (fastforce simp: get_component_def)
  moreover from this assms(1) have "k = get_component_key ctype name" by (auto simp: keys_ok_def)
  ultimately show ?thesis using Some by (simp add: lookup_spec_def)
qed

lemma lookup_spec_cong: "m_components m1 = m_components m \<Longrightarrow> lookup_spec m1 = lookup_spec m"
  by (simp add: lookup_spec_def fun_eq_iff)

lemma lookup_spec_store [simp]: "lookup_spec (store_component s m) (cs_type s) (cs_name s) = Some s"
  by (simp add: lookup_spec_def store_component_def)

subsection \<open>What each operation leaves alone\<close>

named_theorems manager_frame \<open>fields an operation of the manager does not write\<close>

lemma init_pubsub_frame [manager_frame]:
  "init_pubsub ops s m = (err, m1) \<Longrightarrow>
     m_components m1 = m_components m \<and> m_notifications m1 = m_notifications m
     \<and> m_app_id m1 = m_app_id m \<and> m_pubsubs m1 = m_pubsubs m \<and> m_middlewares m1 = m_middlewares m"
  by (auto simp: init_pubsub_def split: sum.splits prod.splits option.splits)

lemma update_pubsub_frame [manager_frame]:
  "update_pubsub ops s m = (err, m1) \<Longrightarrow>
     m_components m1 = m_components m \<and> m_notifications m1 = m_notifications m
     \<and> m_app_id m1 = m_app_id m \<and> m_pubsubs m1 = m_pubsubs m \<and> m_middlewares m1 = m_middlewares m"
  by (auto simp: update_pubsub_def Let_def split: prod.splits option.splits dest!: init_pubsub_frame)

lemma store_component_frame [simp]:
  "m_notifications (store_component s m) = m_notifications m"
  "m_instances (store_component s m) = m_instances m"
  "m_app_id (store_component s m) = m_app_id m"
  "m_pubsubs (store_component s m) = m_pubsubs m"
  "m_middlewares (store_component s m) = m_middlewares m"
  by (simp_all add: store_component_def)

lemma publish_change_frame [simp]:
  "m_components (publish_change c p s m) = m_components m"
  "m_instances (publish_change c p s m) = m_instances m"
  "m_app_id (publish_change c p s m) = m_app_id m"
  "m_pubsubs (publish_change c p s m) = m_pubsubs m"
  "m_middlewares (publish_change c p s m) = m_middlewares m"
  "m_notifications (publish_change c p s m) =
     m_notifications m @ [\<lparr>cn_category = c, cn_operation = p, cn_spec = s\<rparr>]"
  by (simp_all add: publish_change_def)

text \<open>The three ways \<^verbatim>\<open>addOrUpdateComponent\<close> can go.\<close>

definition pubsub_step :: "'p pubsub_ops \<Rightarrow> category \<Rightarrow> operation \<Rightarrow> spec \<Rightarrow> ('p, 'o, 'w) manager
    \<Rightarrow> error option \<times> ('p, 'o, 'w) manager" where
  "pubsub_step ops cat operation s m =
     (if cat = PubsubComponent
      then (if operation = Update then update_pubsub ops s m else init_pubsub ops s m)
      else (None, m))"

lemma pubsub_step_frame [manager_frame]:
  "pubsub_step ops cat operation s m = (err, m1) \<Longrightarrow>
     m_components m1 = m_components m \<and> m_notifications m1 = m_notifications m
     \<and> m_app_id m1 = m_app_id m \<and> m_pubsubs m1 = m_pubsubs m \<and> m_middlewares m1 = m_middlewares m"
  by (auto simp: pubsub_step_def split: if_splits dest!: init_pubsub_frame update_pubsub_frame)

lemma add_or_update_cases:
  assumes "add_or_update_component ops ks s m = (err, m1)"
  obtains (unchanged) "map_option cs_metadata (get_component ks m (cs_type s) (cs_name s)) = Some (cs_metadata s)"
      "err = None" "m1 = m"
  | (invalid) operation where "extract_component_category s = None"
      "map_option cs_metadata (get_component ks m (cs_type s) (cs_name s)) \<noteq> Some (cs_metadata s)"
      "operation = (if get_component ks m (cs_type s) (cs_name s) \<noteq> None then Update else Insert)"
      "err = Some (invalid_category_error operation s)" "m1 = m"
  | (stored) cat operation m2 where "extract_component_category s = Some cat"
      "map_option cs_metadata (get_component ks m (cs_type s) (cs_name s)) \<noteq> Some (cs_metadata s)"
      "operation = (if get_component ks m (cs_type s) (cs_name s) \<noteq> None then Update else Insert)"
      "pubsub_step ops cat operation s m = (err, m2)"
      "m1 = (if err = None then publish_change cat operation s (store_component s m2)
             else store_component s m2)"
  using assms
  by (auto simp: add_or_update_component_def pubsub_step_def Let_def split: if_splits option.splits prod.splits)

lemma add_or_update_keys_ok:
  assumes "keys_ok m" and "add_or_update_component ops ks s m = (err, m1)"
  shows "keys_ok m1"
  using assms(2)
proof (cases rule: add_or_update_cases)
  case (stored cat operation m2)
  then have "m_components m1 = fmupd (get_component_key (cs_type s) (cs_name s)) s (m_components m)"
    using pubsub_step_frame [OF stored(4)] by (simp add: store_component_def)
  with assms(1) show ?thesis by (simp add: keys_ok_def)
qed (use assms(1) in simp_all)

lemma keys_ok_new: "new_components_manager app_id e ds ms = Inr m \<Longrightarrow> keys_ok m"
  by (auto simp: new_components_manager_def keys_ok_def split: option.splits)

lemma watch_keys_ok: "keys_ok m \<Longrightarrow> keys_ok (watch_components_updates ops order ss m)"
proof (induction ss arbitrary: m)
  case Nil
  then show ?case by (simp add: keys_ok_def)
next
  case (Cons s ss)
  obtain err m1 where m1: "add_or_update_component ops (order m) s m = (err, m1)" by (rule prod.exhaust)
  with Cons show ?case using add_or_update_keys_ok [OF Cons.prems m1] by simp
qed

text \<open>
  What an announcement does to the pub/sub objects.  \<open>running\<close> is the object that has to be closed first: the one of
  the component's name, when the component was known.  \<open>kept\<close> is the map after \<^verbatim>\<open>Close\<close>, which changes the object behind
  the pointer also when it fails.
\<close>

lemma pubsub_step_closing:
  "pubsub_step ops PubsubComponent operation s m =
     (let running = (if operation = Update then fmlookup (m_instances m) (cs_name s) else None);
          kept = (case running of None \<Rightarrow> m_instances m
                    | Some ps \<Rightarrow> fmupd (cs_name s) (snd (ops_close ops ps)) (m_instances m))
      in case Option.bind running (\<lambda>ps. fst (ops_close ops ps)) of
           Some e \<Rightarrow> (Some e, m\<lparr>m_instances := kept\<rparr>)
         | None \<Rightarrow> init_pubsub ops s (m\<lparr>m_instances := kept\<rparr>))"
  by (auto simp: pubsub_step_def update_pubsub_def Let_def split: option.split prod.split)

lemma pubsub_step_result:
  assumes "pubsub_step ops PubsubComponent operation s m = (err, m1)"
    and "running = (if operation = Update then fmlookup (m_instances m) (cs_name s) else None)"
    and "kept = (case running of None \<Rightarrow> m_instances m
                   | Some ps \<Rightarrow> fmupd (cs_name s) (snd (ops_close ops ps)) (m_instances m))"
    and "close_err = Option.bind running (\<lambda>ps. fst (ops_close ops ps))"
  shows "(close_err \<noteq> None \<longrightarrow> err = close_err \<and> m_instances m1 = kept)
    \<and> (\<forall>e. close_err = None \<longrightarrow> pubsub_create (m_pubsubs m) (cs_type s) (cs_version s) = Inl e \<longrightarrow>
          err = Some e \<and> m_instances m1 = kept)
    \<and> (\<forall>ps e ps1. close_err = None \<longrightarrow> pubsub_create (m_pubsubs m) (cs_type s) (cs_version s) = Inr ps \<longrightarrow>
          ops_init ops ps (init_metadata (m_app_id m) (cs_metadata s)) = (Some e, ps1) \<longrightarrow>
          err = Some e \<and> m_instances m1 = kept)
    \<and> (\<forall>ps ps1. close_err = None \<longrightarrow> pubsub_create (m_pubsubs m) (cs_type s) (cs_version s) = Inr ps \<longrightarrow>
          ops_init ops ps (init_metadata (m_app_id m) (cs_metadata s)) = (None, ps1) \<longrightarrow>
          err = None \<and> m_instances m1 = fmupd (cs_name s) ps1 kept)"
proof -
  have "(err, m1) = (case close_err of
           Some e \<Rightarrow> (Some e, m\<lparr>m_instances := kept\<rparr>)
         | None \<Rightarrow> init_pubsub ops s (m\<lparr>m_instances := kept\<rparr>))"
    using assms(1) unfolding pubsub_step_closing Let_def assms(2-4) by (rule sym)
  then show ?thesis by (cases close_err) (auto simp: init_pubsub_def)
qed

section \<open>Properties\<close>

text \<open>Whatever updates a new manager has processed, and whatever order Go's map iteration takes,
  \<^verbatim>\<open>getComponent\<close> returns the same component: the one stored under the key of type and name, if its
  type and name are the ones asked for.\<close>

theorem get_component_order_independent:
  assumes "new_components_manager app_id loader_err ds ms = Inr m0"
    and "m = watch_components_updates ops order updates m0"
    and "enumerates ks (m_components m)"
  shows "get_component ks m ctype name = lookup_spec m ctype name"
  using assms(2) get_component_eq [OF _ assms(3)] watch_keys_ok [OF keys_ok_new [OF assms(1)]] by blast

text \<open>C14: the whole of \<^verbatim>\<open>addOrUpdateComponent\<close>: unchanged metadata is a no-op, an unknown category is
  an error that changes nothing, and otherwise the component is stored - also when the pub/sub object
  could not be closed or initialised - and one notification is sent exactly when there was no error,
  with operation Update exactly when a component of that type and name was known.  A component that is not
  a pub/sub one gives no error and leaves the pub/sub objects alone.  For a pub/sub component that was known,
  the object of its name is closed first, and an error of \<^verbatim>\<open>Close\<close> ends the update with the closed object
  still in place; then an error of the factory or of \<^verbatim>\<open>Init\<close> is the error of the update and adds no object,
  and without one the object that the factory made and \<^verbatim>\<open>Init\<close> accepted, with the metadata and the
  consumer id, takes the place under the component's name.  The objects of other names stay.\<close>

theorem add_or_update_behaviour:
  assumes "keys_ok m" and "enumerates ks (m_components m)"
    and "add_or_update_component ops ks s m = (err, m1)"
  shows "if map_option cs_metadata (lookup_spec m (cs_type s) (cs_name s)) = Some (cs_metadata s)
         then err = None \<and> m1 = m
         else case extract_component_category s of
             None \<Rightarrow> err \<noteq> None \<and> m1 = m
           | Some cat \<Rightarrow>
               lookup_spec m1 (cs_type s) (cs_name s) = Some s
               \<and> m_components m1 = fmupd (get_component_key (cs_type s) (cs_name s)) s (m_components m)
               \<and> m_notifications m1 = m_notifications m @
                   (if err = None
                    then [\<lparr>cn_category = cat,
                           cn_operation = (if lookup_spec m (cs_type s) (cs_name s) = None then Insert else Update),
                           cn_spec = s\<rparr>]
                    else [])
               \<and> (cat \<noteq> PubsubComponent \<longrightarrow> err = None \<and> m_instances m1 = m_instances m)
               \<and> (cat = PubsubComponent \<longrightarrow>
                   (let running = (if lookup_spec m (cs_type s) (cs_name s) = None then None
                                   else fmlookup (m_instances m) (cs_name s));
                        kept = (case running of None \<Rightarrow> m_instances m
                                  | Some ps \<Rightarrow> fmupd (cs_name s) (snd (ops_close ops ps)) (m_instances m));
                        close_err = Option.bind running (\<lambda>ps. fst (ops_close ops ps));
                        made = pubsub_create (m_pubsubs m) (cs_type s) (cs_version s);
                        metadata = init_metadata (m_app_id m) (cs_metadata s)
                    in (close_err \<noteq> None \<longrightarrow> err = close_err \<and> m_instances m1 = kept)
                       \<and> (\<forall>e. close_err = None \<longrightarrow> made = Inl e \<longrightarrow> err = Some e \<and> m_instances m1 = kept)
                       \<and> (\<forall>ps e ps1. close_err = None \<longrightarrow> made = Inr ps \<longrightarrow> ops_init ops ps metadata = (Some e, ps1) \<longrightarrow>
                             err = Some e \<and> m_instances m1 = kept)
                       \<and> (\<forall>ps ps1. close_err = None \<longrightarrow> made = Inr ps \<longrightarrow> ops_init ops ps metadata = (None, ps1) \<longrightarrow>
                             err = None \<and> m_instances m1 = fmupd (cs_name s) ps1 kept)))"
  using assms(3)
proof (cases rule: add_or_update_cases)
  case unchanged
  then show ?thesis using get_component_eq [OF assms(1,2)] by simp
next
  case (invalid operation)
  then show ?thesis using get_component_eq [OF assms(1,2)] by simp
next
  case (stored cat operation m2)
  have differ: "map_option cs_metadata (lookup_spec m (cs_type s) (cs_name s)) \<noteq> Some (cs_metadata s)"
    using stored(2) get_component_eq [OF assms(1,2)] by simp
  have operation: "operation = (if lookup_spec m (cs_type s) (cs_name s) = None then Insert else Update)"
    using stored(3) get_component_eq [OF assms(1,2)] by auto
  have known: "lookup_spec m1 (cs_type s) (cs_name s) = Some s"
    using stored(5) lookup_spec_cong [of m1 "store_component s m2"] by (simp split: if_splits)
  have table: "m_components m1 = fmupd (get_component_key (cs_type s) (cs_name s)) s (m_components m)"
    and instances: "m_instances m1 = m_instances m2"
    using pubsub_step_frame [OF stored(4)] stored(5) by (simp_all add: store_component_def)
  have sent: "m_notifications m1 = m_notifications m @ (if err = None
      then [\<lparr>cn_category = cat, cn_operation = (if lookup_spec m (cs_type s) (cs_name s) = None then Insert else Update),
              cn_spec = s\<rparr>] else [])"
    using pubsub_step_frame [OF stored(4)] stored(5) operation by simp
  have other: "err = None \<and> m_instances m2 = m_instances m" if "cat \<noteq> PubsubComponent"
    using stored(4) that by (simp add: pubsub_step_def)
  have running: "(if lookup_spec m (cs_type s) (cs_name s) = None then None else fmlookup (m_instances m) (cs_name s))
      = (if operation = Update then fmlookup (m_instances m) (cs_name s) else None)"
    by (simp add: operation)
  have step: "pubsub_step ops PubsubComponent operation s m = (err, m2)" if "cat = PubsubComponent"
    using stored(4) that by simp
  show ?thesis
    unfolding if_not_P [OF differ] stored(1) option.case Let_def instances
    by (rule conjI [OF known], rule conjI [OF table], rule conjI [OF sent], rule conjI, rule impI, erule other,
        rule impI, rule pubsub_step_result [OF _ running refl refl], erule step)
qed

text \<open>C39: a failed initialisation or close is never retried: when an update of a valid category ends
  in an error, delivering the very same component again is taken for "unchanged" and reports
  success without touching the pub/sub object.\<close>

theorem failed_component_not_retried:
  assumes "keys_ok m" and "enumerates ks (m_components m)"
    and "add_or_update_component ops ks s m = (Some e, m1)"
    and "extract_component_category s \<noteq> None"
    and "enumerates ks1 (m_components m1)"
  shows "add_or_update_component ops ks1 s m1 = (None, m1)"
proof -
  have "keys_ok m1" by (rule add_or_update_keys_ok [OF assms(1,3)])
  from assms(3) have "lookup_spec m1 (cs_type s) (cs_name s) = Some s"
    using assms(4) lookup_spec_store by (cases rule: add_or_update_cases) auto
  then show ?thesis
    using get_component_eq [OF \<open>keys_ok m1\<close> assms(5)] by (simp add: add_or_update_component_def)
qed

text \<open>The key of a component is not injective: when two components of different type or name
  share a key, processing the second one makes the first unknown to \<^verbatim>\<open>getComponent\<close>.  Such pairs
  exist: type \<open>pubsub.a\<close> with name \<open>b-c\<close>, and type \<open>pubsub.a-b\<close> with name \<open>c\<close>.\<close>

theorem component_key_collision:
  assumes "keys_ok m" and "enumerates ks (m_components (store_component s2 m))"
    and "get_component_key ctype name = get_component_key (cs_type s2) (cs_name s2)"
    and "(ctype, name) \<noteq> (cs_type s2, cs_name s2)"
  shows "get_component ks (store_component s2 m) ctype name = None"
proof -
  have "keys_ok (store_component s2 m)"
    using assms(1) by (simp add: keys_ok_def store_component_def)
  then show ?thesis
    using get_component_eq [OF _ assms(2)] assms(3,4) by (auto simp: lookup_spec_def store_component_def)
qed

subsection \<open>The pub/sub objects\<close>

text \<open>
  A predicate of objects that a successful \<^verbatim>\<open>Init\<close> with the manager's application id establishes
  and \<^verbatim>\<open>Close\<close> keeps.
\<close>

definition object_contract :: "'p pubsub_ops \<Rightarrow> string \<Rightarrow> ('p \<Rightarrow> bool) \<Rightarrow> bool" where
  "object_contract ops app_id good \<longleftrightarrow>
     (\<forall>ps md ps1. ops_init ops ps md = (None, ps1) \<longrightarrow> gomap_get md ''consumerID'' = Some app_id \<longrightarrow> good ps1)
     \<and> (\<forall>ps err ps1. ops_close ops ps = (err, ps1) \<longrightarrow> good ps \<longrightarrow> good ps1)"

definition all_instances :: "('p \<Rightarrow> bool) \<Rightarrow> ('p, 'o, 'w) manager \<Rightarrow> bool" where
  "all_instances good m \<longleftrightarrow> (\<forall>n ps. fmlookup (m_instances m) n = Some ps \<longrightarrow> good ps)"

lemma init_metadata_consumer [simp]: "gomap_get (init_metadata app_id md) ''consumerID'' = Some app_id"
  by (simp add: init_metadata_def)

lemma init_pubsub_instances:
  "object_contract ops (m_app_id m) good \<Longrightarrow> all_instances good m \<Longrightarrow> init_pubsub ops s m = (err, m1) \<Longrightarrow>
     all_instances good m1"
  by (auto simp: init_pubsub_def all_instances_def object_contract_def
      split: sum.splits prod.splits option.splits if_splits)

lemma update_pubsub_instances:
  assumes "object_contract ops (m_app_id m) good" "all_instances good m" "update_pubsub ops s m = (err, m1)"
  shows "all_instances good m1"
proof (cases "fmlookup (m_instances m) (cs_name s)")
  case None
  with assms show ?thesis by (simp add: update_pubsub_def init_pubsub_instances)
next
  case (Some ps)
  obtain e ps1 where c: "ops_close ops ps = (e, ps1)" by (rule prod.exhaust)
  let ?m = "m\<lparr>m_instances := fmupd (cs_name s) ps1 (m_instances m)\<rparr>"
  have "all_instances good ?m"
    using assms(1,2) c Some by (auto simp: all_instances_def object_contract_def)
  moreover have "m1 = ?m \<or> init_pubsub ops s ?m = (err, m1)"
    using assms(3) Some c by (auto simp: update_pubsub_def Let_def split: option.splits)
  ultimately show ?thesis using init_pubsub_instances [of ops ?m good s err m1] assms(1) by auto
qed

lemma add_or_update_instances:
  assumes "object_contract ops (m_app_id m) good" and "all_instances good m"
    and "add_or_update_component ops ks s m = (err, m1)"
  shows "all_instances good m1 \<and> m_app_id m1 = m_app_id m"
  using assms(3)
proof (cases rule: add_or_update_cases)
  case (stored cat operation m2)
  have "all_instances good m2"
    using stored(4) assms(1,2)
    by (auto simp: pubsub_step_def split: if_splits dest: init_pubsub_instances update_pubsub_instances)
  then show ?thesis using stored(5) pubsub_step_frame [OF stored(4)]
    by (simp add: all_instances_def split: if_splits)
qed (use assms(2) in simp_all)

text \<open>C15: every pub/sub object the manager hands out went through a successful \<^verbatim>\<open>Init\<close> whose
  metadata carried the application's id as \<open>consumerID\<close> (possibly followed by \<^verbatim>\<open>Close\<close>), whatever
  updates were processed: a predicate such an \<^verbatim>\<open>Init\<close> establishes and \<^verbatim>\<open>Close\<close> keeps holds of all.\<close>

theorem instances_initialised_with_consumer_id:
  assumes "object_contract ops app_id good"
    and "new_components_manager app_id loader_err ds ms = Inr m0"
    and "m = watch_components_updates ops order updates m0"
    and "get_publisher m name = Some ps"
  shows "good ps"
proof -
  have run: "all_instances good (watch_components_updates ops order us m')"
    if "object_contract ops (m_app_id m') good" "all_instances good m'" for us m'
    using that
  proof (induction us arbitrary: m')
    case Nil
    then show ?case by (simp add: all_instances_def)
  next
    case (Cons u us)
    obtain err m1 where m1: "add_or_update_component ops (order m') u m' = (err, m1)" by (rule prod.exhaust)
    from add_or_update_instances [OF Cons.prems m1] Cons m1 show ?case by simp
  qed
  have "all_instances good m0" and "m_app_id m0 = app_id"
    using assms(2) by (auto simp: new_components_manager_def all_instances_def split: option.splits)
  then show ?thesis
    using run [of m0 updates] assms(1,3,4) by (auto simp: get_publisher_def all_instances_def)
qed

text \<open>Inserting a component never closes an object: the result does not depend on \<^verbatim>\<open>Close\<close>, so a
  second pub/sub component of the same name but another type replaces the first one's object in
  the map without closing it.\<close>

theorem insert_never_closes:
  assumes "get_component ks m (cs_type s) (cs_name s) = None"
  shows "add_or_update_component (ops\<lparr>ops_close := c\<rparr>) ks s m = add_or_update_component ops ks s m
    \<and> (extract_component_category s = Some PubsubComponent
         \<and> fst (add_or_update_component ops ks s m) = None
       \<longrightarrow> (\<exists>ps ps1. pubsub_create (m_pubsubs m) (cs_type s) (cs_version s) = Inr ps
             \<and> ops_init ops ps (init_metadata (m_app_id m) (cs_metadata s)) = (None, ps1)
             \<and> m_instances (snd (add_or_update_component ops ks s m)) = fmupd (cs_name s) ps1 (m_instances m)))"
proof -
  have "init_pubsub (ops\<lparr>ops_close := c\<rparr>) s m = init_pubsub ops s m"
    by (simp add: init_pubsub_def split: sum.split prod.split)
  then have "add_or_update_component (ops\<lparr>ops_close := c\<rparr>) ks s m = add_or_update_component ops ks s m"
    using assms by (simp add: add_or_update_component_def Let_def cong: option.case_cong if_cong)
  moreover have "\<exists>ps ps1. pubsub_create (m_pubsubs m) (cs_type s) (cs_version s) = Inr ps
             \<and> ops_init ops ps (init_metadata (m_app_id m) (cs_metadata s)) = (None, ps1)
             \<and> m_instances (snd (add_or_update_component ops ks s m)) = fmupd (cs_name s) ps1 (m_instances m)"
    if "extract_component_category s = Some PubsubComponent" "fst (add_or_update_component ops ks s m) = None"
    using that assms
    by (auto simp: add_or_update_component_def init_pubsub_def Let_def
        split: sum.splits prod.splits option.splits)
  ultimately show ?thesis by blast
qed

lemma instances_health_Some:
  "instances_health ops m ks = Some r \<Longrightarrow>
     hr_status r \<noteq> Healthy \<and> (\<exists>k\<in>set ks. \<exists>ps. fmlookup m k = Some ps \<and> ops_health ops ps = Some r)"
  by (induction ks) (auto split: option.splits if_splits simp: bind_eq_Some_conv)

lemma instances_health_None:
  "instances_health ops m ks = None \<longleftrightarrow>
     (\<forall>k\<in>set ks. \<forall>ps r. fmlookup m k = Some ps \<longrightarrow> ops_health ops ps = Some r \<longrightarrow> hr_status r = Healthy)"
  by (induction ks) (auto split: option.splits if_splits simp: bind_eq_Some_conv bind_eq_None_conv)

text \<open>C23: the manager is healthy exactly when it has a pub/sub object and every object that is a
  health checker reports Healthy, in whatever order the map is visited; otherwise the answer is that
  of one of the unhealthy objects, or "no pubsub instance created yet" when there is no object.\<close>

theorem manager_health:
  assumes "enumerates ks (m_instances m)" and "answer = manager_is_healthy ops ks m"
  shows "(hr_status answer = Healthy \<longleftrightarrow>
      m_instances m \<noteq> fmempty
      \<and> (\<forall>n ps r. fmlookup (m_instances m) n = Some ps \<longrightarrow> ops_health ops ps = Some r \<longrightarrow> hr_status r = Healthy))
    \<and> (hr_status answer = Healthy \<longrightarrow> answer = healthy_result)
    \<and> (hr_status answer \<noteq> Healthy \<longrightarrow> m_instances m \<noteq> fmempty \<longrightarrow>
        (\<exists>n ps. fmlookup (m_instances m) n = Some ps \<and> ops_health ops ps = Some answer))
    \<and> (m_instances m = fmempty \<longrightarrow>
        answer = \<lparr>hr_status = Unhealthy, hr_description = ''no pubsub instance created yet''\<rparr>)"
proof (cases "instances_health ops (m_instances m) ks")
  case None
  then have "\<forall>n ps r. fmlookup (m_instances m) n = Some ps \<longrightarrow> ops_health ops ps = Some r \<longrightarrow> hr_status r = Healthy"
    using enumerates_mem [OF assms(1)] by (auto simp: instances_health_None)
  moreover have "answer = (if m_instances m = fmempty
      then \<lparr>hr_status = Unhealthy, hr_description = ''no pubsub instance created yet''\<rparr> else healthy_result)"
    using None by (simp add: assms(2) manager_is_healthy_def)
  ultimately show ?thesis by (simp add: healthy_result_def)
next
  case (Some r)
  then have "answer = r" by (simp add: assms(2) manager_is_healthy_def)
  with instances_health_Some [OF Some] show ?thesis by auto
qed

section \<open>Witnesses\<close>

text \<open>A broker that counts its initialisations and needs a url.\<close>

definition sample_ops :: "nat pubsub_ops" where
  "sample_ops =
     \<lparr>ops_init = (\<lambda>p md. if gomap_read md ''natsURL'' = [] then (Some (ErrText ''missing nats URL''), p)
                         else (None, Suc p)),
      ops_close = (\<lambda>p. (None, p)),
      ops_health = (\<lambda>p. Some (if p = 0 then \<lparr>hr_status = Unhealthy, hr_description = ''closed''\<rparr>
                              else healthy_result))\<rparr>"

definition sample_manager :: "(nat, nat, unit) manager" where
  "sample_manager =
     \<lparr>m_app_id = ''app'', m_instances = fmempty, m_components = fmempty, m_notifications = [],
      m_watch_closed = False,
      m_pubsubs = pubsub_register [\<lparr>psd_name = ''jetstream'', psd_factory = 0\<rparr>] fmempty,
      m_middlewares = fmempty\<rparr>"

definition sample_spec :: spec where
  "sample_spec =
     \<lparr>cs_name = ''bus'', cs_type = ''pubsub.jetstream'', cs_version = ''v1'',
      cs_metadata = Some (fmupd ''natsURL'' ''nats://x'' fmempty), cs_scopes = []\<rparr>"

definition broken_spec :: spec where
  "broken_spec = sample_spec\<lparr>cs_metadata := Some fmempty\<rparr>"

lemma sample_manager_new:
  "new_components_manager ''app'' None [\<lparr>psd_name = ''jetstream'', psd_factory = 0\<rparr>] [] = Inr sample_manager"
  by (simp add: new_components_manager_def sample_manager_def)

lemma sample_keys_ok [simp]: "keys_ok sample_manager"
  by (simp add: keys_ok_def sample_manager_def)

lemma sample_enumerates: "enumerates [] (m_components sample_manager)"
  by (simp add: sample_manager_def)

theorem get_component_order_independent_witness:
  "get_component [] (watch_components_updates sample_ops (\<lambda>m. []) [] sample_manager) ''pubsub.jetstream'' ''bus''
     = lookup_spec (watch_components_updates sample_ops (\<lambda>m. []) [] sample_manager) ''pubsub.jetstream'' ''bus''"
  by (rule get_component_order_independent [OF sample_manager_new refl])
    (simp add: sample_manager_def)

text \<open>An update of a component that runs: its object is closed, and the new one takes its place.\<close>

theorem add_or_update_behaviour_witness:
  "let m = store_component broken_spec (sample_manager\<lparr>m_instances := fmupd ''bus'' 7 fmempty\<rparr>);
       r = add_or_update_component sample_ops [''pubsub.jetstream-bus''] sample_spec m
   in fst r = None \<and> m_instances (snd r) = fmupd ''bus'' 1 (fmupd ''bus'' 7 fmempty)
     \<and> lookup_spec (snd r) ''pubsub.jetstream'' ''bus'' = Some sample_spec
     \<and> map cn_operation (m_notifications (snd r)) = [Update]"
proof -
  let ?m = "store_component broken_spec (sample_manager\<lparr>m_instances := fmupd ''bus'' 7 fmempty\<rparr>)"
  let ?r = "add_or_update_component sample_ops [''pubsub.jetstream-bus''] sample_spec ?m"
  have c: "extract_component_category sample_spec = Some PubsubComponent" by code_simp
  have f: "cs_type sample_spec = ''pubsub.jetstream''" "cs_name sample_spec = ''bus''"
    by (simp_all add: sample_spec_def)
  have n: "lookup_spec ?m (cs_type sample_spec) (cs_name sample_spec) = Some broken_spec" by code_simp
  have differ: "cs_metadata broken_spec \<noteq> cs_metadata sample_spec"
    by (auto simp: broken_spec_def sample_spec_def dest: arg_cong [where f = "\<lambda>f. fmlookup f ''natsURL''"])
  have old: "m_notifications ?m = []" "m_instances ?m = fmupd ''bus'' 7 fmempty"
    by (simp_all add: sample_manager_def)
  have close: "ops_close sample_ops 7 = (None, 7)" by (simp add: sample_ops_def)
  have made: "pubsub_create (m_pubsubs ?m) (cs_type sample_spec) (cs_version sample_spec) = Inr 0" by code_simp
  have init: "ops_init sample_ops 0 (init_metadata (m_app_id ?m) (cs_metadata sample_spec)) = (None, 1)" by code_simp
  have keys: "keys_ok ?m" by (simp add: keys_ok_def store_component_def sample_manager_def)
  have ks: "enumerates [''pubsub.jetstream-bus''] (m_components ?m)"
    unfolding enumerates_def by code_simp
  have r: "?r = (fst ?r, snd ?r)" by simp
  show ?thesis
    using add_or_update_behaviour [OF keys ks r] c n differ old close made init unfolding Let_def f by simp
qed

theorem failed_component_not_retried_witness:
  "let m1 = snd (add_or_update_component sample_ops [] broken_spec sample_manager) in
     fst (add_or_update_component sample_ops [] broken_spec sample_manager) \<noteq> None
     \<and> fst (add_or_update_component sample_ops [''pubsub.jetstream-bus''] broken_spec m1) = None
     \<and> get_publisher m1 ''bus'' = None"
proof -
  let ?r = "add_or_update_component sample_ops [] broken_spec sample_manager"
  have e: "fst ?r = Some (ErrText ''missing nats URL'')" by code_simp
  then have r: "?r = (Some (ErrText ''missing nats URL''), snd ?r)" by (metis prod.collapse)
  have c: "extract_component_category broken_spec \<noteq> None" by code_simp
  have ks: "enumerates [''pubsub.jetstream-bus''] (m_components (snd ?r))"
    unfolding enumerates_def by code_simp
  have p: "get_publisher (snd ?r) ''bus'' = None" by code_simp
  show ?thesis
    using failed_component_not_retried [OF sample_keys_ok sample_enumerates r c ks] e p by (simp add: Let_def)
qed

theorem component_key_collision_witness:
  "get_component [''pubsub.a-b-c''] (store_component (sample_spec\<lparr>cs_type := ''pubsub.a-b'', cs_name := ''c''\<rparr>)
      (store_component (sample_spec\<lparr>cs_type := ''pubsub.a'', cs_name := ''b-c''\<rparr>) sample_manager))
      ''pubsub.a'' ''b-c'' = None"
proof -
  let ?m = "store_component (sample_spec\<lparr>cs_type := ''pubsub.a'', cs_name := ''b-c''\<rparr>) sample_manager"
  let ?s = "sample_spec\<lparr>cs_type := ''pubsub.a-b'', cs_name := ''c''\<rparr>"
  have "keys_ok ?m" by (simp add: keys_ok_def store_component_def sample_manager_def)
  moreover have "enumerates [''pubsub.a-b-c''] (m_components (store_component ?s ?m))"
    unfolding enumerates_def by code_simp
  ultimately show ?thesis
    by (rule component_key_collision) (simp_all add: get_component_key_def)
qed

theorem instances_initialised_with_consumer_id_witness:
  "\<exists>ps. get_publisher (watch_components_updates sample_ops (\<lambda>m. []) [sample_spec] sample_manager) ''bus'' = Some ps
     \<and> 0 < ps"
proof -
  have c: "object_contract sample_ops ''app'' (\<lambda>ps. 0 < ps)"
    by (auto simp: object_contract_def sample_ops_def split: if_splits)
  have g: "get_publisher (watch_components_updates sample_ops (\<lambda>m. []) [sample_spec] sample_manager) ''bus'' = Some 1"
    by code_simp
  from instances_initialised_with_consumer_id [OF c sample_manager_new refl g] g show ?thesis by blast
qed

theorem insert_never_closes_witness:
  "m_instances (snd (add_or_update_component sample_ops [] sample_spec sample_manager)) \<noteq> fmempty"
proof -
  have g: "get_component [] sample_manager (cs_type sample_spec) (cs_name sample_spec) = None" by code_simp
  have e: "fst (add_or_update_component sample_ops [] sample_spec sample_manager) = None" by code_simp
  have c: "extract_component_category sample_spec = Some PubsubComponent" by code_simp
  show ?thesis
    using insert_never_closes [OF g, where ops = sample_ops and c = "ops_close sample_ops"] e c
    by (auto dest: arg_cong [where f = "\<lambda>x. fmlookup x (cs_name sample_spec)"])
qed

theorem manager_health_witness:
  "manager_is_healthy sample_ops [] sample_manager
     = \<lparr>hr_status = Unhealthy, hr_description = ''no pubsub instance created yet''\<rparr>
   \<and> manager_is_healthy sample_ops [''a'', ''b''] (sample_manager\<lparr>m_instances := fmupd ''b'' 0 (fmupd ''a'' 1 fmempty)\<rparr>)
     = \<lparr>hr_status = Unhealthy, hr_description = ''closed''\<rparr>"
proof -
  have "enumerates [] (m_instances sample_manager)" by (simp add: sample_manager_def)
  from manager_health [OF this refl, of sample_ops]
  have first: "manager_is_healthy sample_ops [] sample_manager
     = \<lparr>hr_status = Unhealthy, hr_description = ''no pubsub instance created yet''\<rparr>"
    by (simp add: sample_manager_def)
  let ?m = "sample_manager\<lparr>m_instances := fmupd ''b'' 0 (fmupd ''a'' 1 fmempty)\<rparr>"
  let ?answer = "manager_is_healthy sample_ops [''a'', ''b''] ?m"
  have ks: "enumerates [''a'', ''b''] (m_instances ?m)" by (auto simp: enumerates_def)
  have zero: "fmlookup (m_instances ?m) ''b'' = Some 0" by simp
  have checked: "ops_health sample_ops 0 = Some \<lparr>hr_status = Unhealthy, hr_description = ''closed''\<rparr>"
    by (simp add: sample_ops_def)
  have some: "m_instances ?m \<noteq> fmempty" using zero by force
  from manager_health [OF ks refl, of sample_ops] zero checked some
  obtain n ps where "fmlookup (m_instances ?m) n = Some ps" "ops_health sample_ops ps = Some ?answer"
    "hr_status ?answer \<noteq> Healthy" by fastforce
  then have "?answer = \<lparr>hr_status = Unhealthy, hr_description = ''closed''\<rparr>"
    by (auto simp: sample_ops_def healthy_result_def split: if_splits)
  with first show ?thesis by (rule conjI)
qed

end
