(* ===== verification/Middleware.thy ===== *)
theory Middleware
  imports Messaging
begin

text \<open>
  \<^verbatim>\<open>pkg/middleware\<close> and the recording functions of \<^verbatim>\<open>internal/metrics\<close>: the tracing and metrics
  middlewares that wrap every publish and every received message.

  OpenTelemetry is not under \<^verbatim>\<open>src/\<close>: its propagator, baggage, tracer and the formatting of
  values are the fields of \<open>otel_api\<close>, and every theorem holds for all of them.  What the
  middlewares tell it (spans started, statuses, metrics) is the log of the world.
\<close>

section \<open>The telemetry the code emits\<close>

datatype span_kind = KindProducer | KindConsumer

datatype attr = AttrText string string | AttrDestinationName string
  | AttrDestinationKindTopic | AttrOperationReceive

datatype tele_event =
    SpanStart nat string span_kind "attr list"
  | SpanEvent nat string "attr list"
  | SpanAttr nat attr
  | SpanStatusOk nat
  | SpanStatusError nat error
  | SpanRecordError nat error
  | SpanEnd nat
  | MetricPublish string bool
  | MetricProcessing string bool

record tele =
  tele_spans :: nat
  tele_log :: "tele_event list"

definition emit :: "tele_event list \<Rightarrow> 'a tele_scheme \<Rightarrow> 'a tele_scheme" where
  "emit es w = w\<lparr>tele_log := tele_log w @ es\<rparr>"

record ('o, 'b, 's) otel_api =
  api_extract :: "'o \<Rightarrow> gomap \<Rightarrow> 'o"
  api_inject :: "'o \<Rightarrow> (string \<times> string) list"
  api_baggage :: "'o \<Rightarrow> 'b"
  api_span_context :: "'o \<Rightarrow> 's"
  api_with_baggage :: "'o \<Rightarrow> 'b \<Rightarrow> 'o"
  api_with_remote :: "'o \<Rightarrow> 's \<Rightarrow> 'o"
  api_start :: "'o \<Rightarrow> nat \<Rightarrow> 'o"
  api_show_headers :: "gomap \<Rightarrow> string"
  api_show_value :: "json \<Rightarrow> string"
  api_shorten :: "string \<Rightarrow> nat \<Rightarrow> string"

section \<open>The header carrier\<close>

definition carrier_get :: "gomap \<Rightarrow> string \<Rightarrow> string" where
  "carrier_get headers key = gomap_read headers key"

definition carrier_set :: "gomap \<Rightarrow> string \<Rightarrow> string \<Rightarrow> gomap outcome" where
  "carrier_set headers key v = gomap_set headers key v"

text \<open>The \<^verbatim>\<open>Set\<close> calls of a propagator's \<^verbatim>\<open>Inject\<close>, in order; on the nil map the first panics.\<close>

fun carrier_set_all :: "gomap \<Rightarrow> (string \<times> string) list \<Rightarrow> gomap outcome" where
  "carrier_set_all headers [] = Returns headers"
| "carrier_set_all headers ((k, v) # kvs) =
     (case carrier_set headers k v of
        Panics m \<Rightarrow> Panics m
      | Returns headers' \<Rightarrow> carrier_set_all headers' kvs)"

definition inject_trace :: "('o, 'b, 's) otel_api \<Rightarrow> 'o ctx \<Rightarrow> gomap \<Rightarrow> gomap outcome" where
  "inject_trace api c headers = carrier_set_all headers (api_inject api (ctx_otel c))"

definition extract_trace :: "('o, 'b, 's) otel_api \<Rightarrow> 'o ctx \<Rightarrow> gomap \<Rightarrow> 'b \<times> 's" where
  "extract_trace api c headers =
     (let o1 = api_extract api (ctx_otel c) headers
      in (api_baggage api o1, api_span_context api o1))"

lemma carrier_set_all_non_nil [simp]:
  "carrier_set_all (Some f) kvs = Returns (Some (foldl (\<lambda>f (k, v). fmupd k v f) f kvs))"
  by (induction kvs arbitrary: f) (auto simp: carrier_set_def)

lemma carrier_set_all_nil:
  "carrier_set_all None kvs = (if kvs = [] then Returns None else Panics nil_map_write)"
  by (cases kvs) (auto simp: carrier_set_def)

section \<open>Metrics\<close>

definition record_publish_message :: "string \<Rightarrow> bool \<Rightarrow> 'a tele_scheme \<Rightarrow> 'a tele_scheme" where
  "record_publish_message topic success w = emit [MetricPublish topic success] w"

definition record_subscriber_processing_time :: "string \<Rightarrow> bool \<Rightarrow> 'a tele_scheme \<Rightarrow> 'a tele_scheme" where
  "record_subscriber_processing_time topic success w = emit [MetricProcessing topic success] w"

definition topic_assertion :: string where
  "topic_assertion = ''interface conversion: interface {} is nil, not string''"

text \<open>A crash of the next handler unwinds through both middlewares: nothing is recorded.\<close>

definition subscriber_metrics :: "('o, 'a tele_scheme) middleware" where
  "subscriber_metrics next c msg w =
     (case next c msg w of (r, msg1, w1) \<Rightarrow>
        (case r of
           Crash m \<Rightarrow> (r, msg1, w1)
         | _ \<Rightarrow>
             (if env_subject msg1 \<noteq> []
              then (r, msg1, record_subscriber_processing_time (env_subject msg1) (r = Ok) w1)
              else (case ctx_topic c of
                      None \<Rightarrow> (Crash topic_assertion, msg1, w1)
                    | Some topic \<Rightarrow>
                        (r, msg1, record_subscriber_processing_time topic (r = Ok) w1)))))"

definition publisher_metrics :: "('o, 'a tele_scheme) middleware" where
  "publisher_metrics next c msg w =
     (case next c msg w of (r, msg1, w1) \<Rightarrow>
        (case r of
           Crash m \<Rightarrow> (r, msg1, w1)
         | _ \<Rightarrow> (r, msg1, record_publish_message (env_subject msg1) (r = Ok) w1)))"

section \<open>Tracing\<close>

text \<open>The \<^verbatim>\<open>span.SetStatus\<close> and \<^verbatim>\<open>span.RecordError\<close> calls after the next handler returned.\<close>

fun span_status :: "nat \<Rightarrow> result \<Rightarrow> tele_event list" where
  "span_status n Ok = [SpanStatusOk n]"
| "span_status n (Fail e) = [SpanStatusError n e, SpanRecordError n e]"
| "span_status n (Crash m) = []"

definition publisher_tracing :: "('o, 'b, 's) otel_api \<Rightarrow> ('o, 'a tele_scheme) middleware" where
  "publisher_tracing api next c msg w =
     (case extract_trace api c (env_headers msg) of (bags, span_ctx) \<Rightarrow>
      let c1 = c\<lparr>ctx_otel := api_with_baggage api (ctx_otel c) bags\<rparr> in
      case ctx_topic c1 of
        None \<Rightarrow> (Crash topic_assertion, msg, w)
      | Some topic \<Rightarrow>
          let n = tele_spans w;
              c2 = c1\<lparr>ctx_otel := api_start api (api_with_remote api (ctx_otel c1) span_ctx) n\<rparr>;
              w1 = emit [SpanStart n (topic @ '' send'') KindProducer
                           [AttrText ''component'' ''Rusi'', AttrDestinationName topic,
                            AttrDestinationKindTopic]]
                     (w\<lparr>tele_spans := Suc n\<rparr>)
          in case inject_trace api c2 (env_headers msg) of
               Panics m \<Rightarrow> (Crash m, msg, emit [SpanEnd n] w1)
             | Returns h \<Rightarrow>
                 (case next c2 (msg\<lparr>env_headers := h\<rparr>) w1 of (r, msg1, w2) \<Rightarrow>
                    (r, msg1, emit (span_status n r @ [SpanEnd n]) w2)))"

text \<open>
  The subscriber's middleware registers \<^verbatim>\<open>defer span.End()\<close> only after \<^verbatim>\<open>Inject\<close>: a panic there
  leaves the span open.
\<close>

definition subscriber_tracing :: "('o, 'b, 's) otel_api \<Rightarrow> ('o, 'a tele_scheme) middleware" where
  "subscriber_tracing api next c msg w =
     (case extract_trace api c (env_headers msg) of (bags, span_ctx) \<Rightarrow>
      let c1 = c\<lparr>ctx_otel := api_with_baggage api (ctx_otel c) bags\<rparr> in
      case ctx_topic c1 of
        None \<Rightarrow> (Crash topic_assertion, msg, w)
      | Some topic \<Rightarrow>
          let n = tele_spans w;
              c2 = c1\<lparr>ctx_otel := api_start api (api_with_remote api (ctx_otel c1) span_ctx) n\<rparr>;
              w1 = emit ([SpanStart n (topic @ '' receive'') KindConsumer
                            [AttrText ''component'' ''Rusi'', AttrDestinationName topic,
                             AttrDestinationKindTopic, AttrOperationReceive],
                          SpanEvent n ''new message received''
                            [AttrText ''headers'' (api_show_headers api (env_headers msg))]]
                         @ (if env_payload msg \<noteq> VNull
                            then [SpanAttr n (AttrText ''messaging.message_payload''
                                    (api_shorten api (api_show_value api (env_payload msg)) 500))]
                            else [])
                         @ [SpanAttr n (AttrText ''messaging.message_id'' (env_id msg))])
                     (w\<lparr>tele_spans := Suc n\<rparr>)
          in case inject_trace api c2 (env_headers msg) of
               Panics m \<Rightarrow> (Crash m, msg, w1)
             | Returns h \<Rightarrow>
                 (case next c2 (msg\<lparr>env_headers := h\<rparr>) w1 of (r, msg1, w2) \<Rightarrow>
                    (r, msg1, emit (span_status n r @ [SpanEnd n]) w2)))"

section \<open>What the middlewares guarantee\<close>

text \<open>Spans a log opens and closes.\<close>

definition open_spans :: "tele_event list \<Rightarrow> nat set" where
  "open_spans es = {n. (\<exists>nm k as. SpanStart n nm k as \<in> set es) \<and> SpanEnd n \<notin> set es}"

text \<open>
  What a handler may do to the telemetry: the log only grows, spans are numbered from the
  counter, and whatever span is opened is closed.
\<close>

definition traced :: "'a tele_scheme \<Rightarrow> 'a tele_scheme \<Rightarrow> bool" where
  "traced w w1 \<longleftrightarrow>
     (\<exists>es. tele_log w1 = tele_log w @ es
        \<and> tele_spans w \<le> tele_spans w1
        \<and> (\<forall>n nm k as. SpanStart n nm k as \<in> set es \<longrightarrow> tele_spans w \<le> n \<and> SpanEnd n \<in> set es))"

definition well_traced :: "('o, 'a tele_scheme) handler \<Rightarrow> bool" where
  "well_traced h \<longleftrightarrow> (\<forall>c msg w r msg1 w1. h c msg w = (r, msg1, w1) \<longrightarrow> traced w w1)"

definition no_start :: "tele_event list \<Rightarrow> bool" where
  "no_start es \<longleftrightarrow> (\<forall>n nm k as. SpanStart n nm k as \<notin> set es)"

lemma no_start_simps [simp]:
  "no_start []"
  "no_start (e # es) \<longleftrightarrow> (\<forall>n nm k as. e \<noteq> SpanStart n nm k as) \<and> no_start es"
  "no_start (es @ fs) \<longleftrightarrow> no_start es \<and> no_start fs"
  "no_start (span_status n r)"
  by (auto simp: no_start_def dest: sym) (cases r; auto)

lemma emit_simps [simp]:
  "tele_log (emit es w) = tele_log w @ es"
  "tele_spans (emit es w) = tele_spans w"
  by (simp_all add: emit_def)

lemma traced_refl [simp, intro]: "traced w w"
  by (auto simp: traced_def)

lemma traced_emit [intro]: "traced w w1 \<Longrightarrow> no_start es \<Longrightarrow> traced w (emit es w1)"
  unfolding traced_def no_start_def by fastforce

lemma traced_span:
  assumes "traced (emit (SpanStart (tele_spans w) nm k as # es0) (w\<lparr>tele_spans := Suc (tele_spans w)\<rparr>)) w2"
    and "no_start es0" and "no_start st"
  shows "traced w (emit (st @ [SpanEnd (tele_spans w)]) w2)"
proof -
  let ?n = "tele_spans w"
  from assms(1) obtain es where es: "tele_log w2 = tele_log w @ SpanStart ?n nm k as # es0 @ es"
      "Suc ?n \<le> tele_spans w2"
      "\<forall>n nm k as. SpanStart n nm k as \<in> set es \<longrightarrow> Suc ?n \<le> n \<and> SpanEnd n \<in> set es"
    unfolding traced_def by auto
  let ?es = "SpanStart ?n nm k as # es0 @ es @ st @ [SpanEnd ?n]"
  have "\<forall>n nm k as. SpanStart n nm k as \<in> set ?es \<longrightarrow> ?n \<le> n \<and> SpanEnd n \<in> set ?es"
    using es(3) assms(2,3) by (fastforce simp: no_start_def)
  moreover have "tele_log (emit (st @ [SpanEnd ?n]) w2) = tele_log w @ ?es"
    using es(1) by simp
  moreover have "?n \<le> tele_spans (emit (st @ [SpanEnd ?n]) w2)" using es(2) by simp
  ultimately show ?thesis unfolding traced_def by blast
qed

lemma well_tracedD: "well_traced h \<Longrightarrow> h c msg w = (r, msg1, w1) \<Longrightarrow> traced w w1"
  by (simp add: well_traced_def)

lemma subscriber_metrics_well_traced: "well_traced h \<Longrightarrow> well_traced (subscriber_metrics h)"
  unfolding well_traced_def [of "subscriber_metrics h"]
  by (auto simp: subscriber_metrics_def record_subscriber_processing_time_def
      split: prod.splits result.splits if_splits option.splits dest!: well_tracedD)

lemma publisher_metrics_well_traced: "well_traced h \<Longrightarrow> well_traced (publisher_metrics h)"
  unfolding well_traced_def [of "publisher_metrics h"]
  by (auto simp: publisher_metrics_def record_publish_message_def
      split: prod.splits result.splits dest!: well_tracedD)

lemmas traced_span_empty = traced_span [where ?es0.0 = "[]" and st = "[]", simplified, OF traced_refl]

lemma publisher_tracing_well_traced:
  assumes "well_traced h"
  shows "well_traced (publisher_tracing api h)"
  unfolding well_traced_def
  apply (auto simp: publisher_tracing_def Let_def split: prod.splits option.splits outcome.splits)
  subgoal by (rule traced_span [OF well_tracedD [OF assms]], assumption, simp_all)
  subgoal by (rule traced_span_empty)
  done

lemma subscriber_tracing_traced:
  assumes "well_traced h" and "subscriber_tracing api h c msg w = (r, msg1, w1)"
    and "env_headers msg \<noteq> None"
  shows "traced w w1"
  using assms(2,3)
  apply (auto simp: subscriber_tracing_def inject_trace_def Let_def
      split: prod.splits option.splits if_splits)
  subgoal by (rule traced_span [OF well_tracedD [OF assms(1)]], assumption, simp_all)
  subgoal by (rule traced_span [OF well_tracedD [OF assms(1)]], assumption, simp_all)
  done

lemma traced_open_spans:
  assumes "traced w w1" and "tele_log w = []"
  shows "open_spans (tele_log w1) = {}"
proof -
  from assms have "SpanStart n nm k as \<in> set (tele_log w1) \<Longrightarrow> SpanEnd n \<in> set (tele_log w1)" for n nm k as
    by (auto simp: traced_def)
  then show ?thesis by (auto simp: open_spans_def)
qed

text \<open>C10: around a handler that closes the spans it opens, the publisher pipeline (tracing, then
  metrics) closes its own span on every path, a missing topic and a panic of the header carrier
  included: no span is left open.\<close>

theorem publisher_pipeline_closes_spans:
  assumes "well_traced h"
    and "build_pipeline [publisher_tracing api, publisher_metrics] h c msg w = (r, msg1, w1)"
    and "tele_log w = []"
  shows "open_spans (tele_log w1) = {}"
proof -
  have "well_traced (build_pipeline [publisher_tracing api, publisher_metrics] h)"
    using assms(1) by (simp add: go_simps publisher_metrics_well_traced publisher_tracing_well_traced)
  with assms(2) have "traced w w1" by (blast dest: well_tracedD)
  then show ?thesis using assms(3) by (rule traced_open_spans)
qed

section \<open>A concrete OpenTelemetry for the witnesses\<close>

text \<open>A propagator that writes one header and a tracer that keeps the span number.\<close>

definition sample_api :: "(nat, nat, nat) otel_api" where
  "sample_api =
     \<lparr>api_extract = (\<lambda>o1 h. o1), api_inject = (\<lambda>o1. [(''traceparent'', utoa o1)]),
      api_baggage = (\<lambda>o1. 0), api_span_context = (\<lambda>o1. o1), api_with_baggage = (\<lambda>o1 b. o1),
      api_with_remote = (\<lambda>o1 s. o1), api_start = (\<lambda>o1 n. n), api_show_headers = (\<lambda>h. []),
      api_show_value = (\<lambda>v. []), api_shorten = (\<lambda>s n. take n s)\<rparr>"

definition sample_ctx :: "nat ctx" where
  "sample_ctx = \<lparr>ctx_topic = Some ''orders'', ctx_otel = 0\<rparr>"

definition sample_tele :: tele where
  "sample_tele = \<lparr>tele_spans = 0, tele_log = []\<rparr>"

text \<open>A handler that always fails.\<close>

definition failing_handler :: "(nat, tele) handler" where
  "failing_handler c msg w = (Fail (ErrText ''down''), msg, w)"

theorem publisher_pipeline_closes_spans_witness:
  "open_spans (tele_log (snd (snd
     (build_pipeline [publisher_tracing sample_api, publisher_metrics] failing_handler
        sample_ctx empty_envelope sample_tele)))) = {}"
proof -
  have "well_traced failing_handler" by (simp add: well_traced_def failing_handler_def)
  moreover obtain r msg1 w1 where
    "build_pipeline [publisher_tracing sample_api, publisher_metrics] failing_handler
        sample_ctx empty_envelope sample_tele = (r, msg1, w1)"
    by (metis prod_cases3)
  moreover have "tele_log sample_tele = []" by (simp add: sample_tele_def)
  ultimately show ?thesis using publisher_pipeline_closes_spans by fastforce
qed

end
