(* ===== verification/Runtime.thy ===== *)
theory Runtime
  imports Components Middleware "HOL-Library.List_Lexorder"
begin

text \<open>
  The runtime (\<^verbatim>\<open>pkg/runtime/runtime.go\<close>) and the subscriber service
  (\<^verbatim>\<open>pkg/runtime/service/subscriber.go\<close>): how a publish or a subscribe request finds its broker and
  its middlewares, and how configuration and component changes refresh the subscriptions.

  A broker is a pub/sub object with the two operations of \<^verbatim>\<open>messaging.Publisher\<close> and
  \<^verbatim>\<open>messaging.Subscriber\<close> added to those the manager uses; a close function is named by a number.
  \<^verbatim>\<open>uuid.New\<close> and \<^verbatim>\<open>time.Now\<close> are arguments.
\<close>

section \<open>State\<close>

record ('p, 'o, 'w) broker = "'p pubsub_ops" +
  br_publish :: "'p \<Rightarrow> string \<Rightarrow> envelope \<Rightarrow> 'w \<Rightarrow> result \<times> envelope \<times> 'w"
  br_subscribe :: "'p \<Rightarrow> string \<Rightarrow> ('o, 'w) handler \<Rightarrow> subscription_options option \<Rightarrow> 'w \<Rightarrow> (error + nat) \<times> 'w"

record ('p, 'o, 'w) runtime =
  rt_app_id :: string
  rt_config :: config_spec
  rt_manager :: "('p, 'o, 'w) manager"
  rt_refreshes :: nat

text \<open>
  What the first receive from a configuration channel gives; a channel that is closed gives the zero value.
\<close>

datatype 'a first_received = Arrives 'a | NeverArrives | ClosedEmpty

text \<open>
  \<^verbatim>\<open>NewRuntime\<close>: the loader's error, or a runtime with the first configuration of the channel, for which it waits:
  \<^term>\<open>Inr None\<close> is a call that does not return.
\<close>

definition new_runtime :: "string \<Rightarrow> error + config_spec first_received \<Rightarrow> ('p, 'o, 'w) manager
    \<Rightarrow> error + ('p, 'o, 'w) runtime option" where
  "new_runtime app_id loaded m =
     (case loaded of
        Inl e \<Rightarrow> Inl e
      | Inr NeverArrives \<Rightarrow> Inr None
      | Inr (Arrives cfg) \<Rightarrow> Inr (Some \<lparr>rt_app_id = app_id, rt_config = cfg, rt_manager = m, rt_refreshes = 0\<rparr>)
      | Inr ClosedEmpty \<Rightarrow>
          Inr (Some \<lparr>rt_app_id = app_id, rt_config = zero_config, rt_manager = m, rt_refreshes = 0\<rparr>))"

section \<open>Refreshing\<close>

definition api_refresh :: "('p, 'o, 'w) runtime \<Rightarrow> ('p, 'o, 'w) runtime" where
  "api_refresh rt = rt\<lparr>rt_refreshes := Suc (rt_refreshes rt)\<rparr>"

fun watch_configuration_updates :: "config_spec list \<Rightarrow> ('p, 'o, 'w) runtime \<Rightarrow> ('p, 'o, 'w) runtime" where
  "watch_configuration_updates [] rt = rt"
| "watch_configuration_updates (u # us) rt =
     (if rt_config rt = u then watch_configuration_updates us rt
      else watch_configuration_updates us (api_refresh (rt\<lparr>rt_config := u\<rparr>)))"

fun watch_component_notifications :: "change_notification list \<Rightarrow> ('p, 'o, 'w) runtime
    \<Rightarrow> ('p, 'o, 'w) runtime" where
  "watch_component_notifications [] rt = rt"
| "watch_component_notifications (n # ns) rt =
     watch_component_notifications ns (if cn_operation n = Update then api_refresh rt else rt)"

section \<open>Publishing\<close>

definition resolve_pubsub_name :: "('p, 'o, 'w) runtime \<Rightarrow> string \<Rightarrow> string" where
  "resolve_pubsub_name rt requested = (if requested \<noteq> [] then requested else sp_pubsub_name (rt_config rt))"

definition publish_envelope :: "string \<Rightarrow> int \<Rightarrow> publish_request \<Rightarrow> envelope" where
  "publish_envelope uuid now request =
     empty_envelope\<lparr>env_id := uuid, env_time := now, env_subject := pr_topic request,
       env_type := pr_type request, env_data_content_type := pr_data_content_type request,
       env_headers := pr_metadata request, env_payload := pr_data request\<rparr>"

definition publish_handler :: "('o, 'b, 's) otel_api \<Rightarrow> ('p, 'o, 'a tele_scheme) broker
    \<Rightarrow> ('p, 'o, 'a tele_scheme) runtime \<Rightarrow> string \<Rightarrow> int \<Rightarrow> 'o ctx \<Rightarrow> publish_request
    \<Rightarrow> 'a tele_scheme \<Rightarrow> result \<times> 'a tele_scheme" where
  "publish_handler api br rt uuid now c request w =
     (let name = resolve_pubsub_name rt (pr_pubsub_name request) in
      if name = []
      then (Fail (ErrText ''PubSubName is empty. Please provide a valid pubSub name in the publish request or via configuration.''), w)
      else case get_publisher (rt_manager rt) name of
          None \<Rightarrow> (Fail (ErrText (''pubsub '' @ name @ '' not found'')), w)
        | Some publisher \<Rightarrow>
            (let env = publish_envelope uuid now request;
                 c1 = c\<lparr>ctx_topic := Some (pr_topic request)\<rparr>;
                 pipe = use_middleware (use_middleware [] (publisher_tracing api)) publisher_metrics;
                 midl = build_pipeline pipe (\<lambda>c msg w. br_publish br publisher (pr_topic request) msg w)
             in case midl c1 env w of (r, msg, w1) \<Rightarrow> (r, w1)))"

section \<open>Subscribing\<close>

text \<open>The loop of \<^verbatim>\<open>buildSubscriberPipeline\<close>: the first middleware that cannot be made is the error.\<close>

fun build_subscriber_pipeline :: "string list \<Rightarrow> ('p, 'o, 'w) manager \<Rightarrow> handler_spec list
    \<Rightarrow> ('o, 'w) pipeline \<Rightarrow> error + ('o, 'w) pipeline" where
  "build_subscriber_pipeline ks m [] pipe = Inr pipe"
| "build_subscriber_pipeline ks m (h # hs) pipe =
     (case get_middleware ks m h of
        Inl e \<Rightarrow> Inl e
      | Inr mw \<Rightarrow> build_subscriber_pipeline ks m hs (use_middleware pipe mw))"

definition start_subscribing :: "('o, 'b, 's) otel_api \<Rightarrow> ('p, 'o, 'a tele_scheme) broker \<Rightarrow> 'p
    \<Rightarrow> ('o, 'a tele_scheme) pipeline \<Rightarrow> ('o, 'a tele_scheme) subscribe_request
    \<Rightarrow> 'a tele_scheme \<Rightarrow> (error + nat) \<times> 'a tele_scheme" where
  "start_subscribing api br subscriber pipeline request w =
     (let pipe = build_pipeline
            (use_middleware (use_middleware pipeline subscriber_metrics) (subscriber_tracing api))
            (sr_handler request)
      in br_subscribe br subscriber (sr_topic request)
           (\<lambda>c env w. pipe (c\<lparr>ctx_topic := Some (sr_topic request)\<rparr>) env w)
           (sr_options request) w)"

definition subscribe_handler :: "('o, 'b, 's) otel_api \<Rightarrow> ('p, 'o, 'a tele_scheme) broker
    \<Rightarrow> string list \<Rightarrow> ('p, 'o, 'a tele_scheme) runtime \<Rightarrow> ('o, 'a tele_scheme) subscribe_request
    \<Rightarrow> 'a tele_scheme \<Rightarrow> (error + nat) \<times> 'a tele_scheme" where
  "subscribe_handler api br ks rt request w =
     (let name = resolve_pubsub_name rt (sr_pubsub_name request) in
      if name = []
      then (Inl (ErrText ''PubSubName is empty. Please provide a valid pubSub name in the subscribe request or via configuration.''), w)
      else case get_subscriber (rt_manager rt) name of
          None \<Rightarrow> (Inl (ErrText (''cannot find PubsubName named '' @ name)), w)
        | Some subs \<Rightarrow>
            (case build_subscriber_pipeline ks (rt_manager rt)
                    (slice (sp_subscriber_handlers (rt_config rt))) [] of
               Inl e \<Rightarrow> (Inl e, w)
             | Inr pipeline \<Rightarrow> start_subscribing api br subs pipeline request w))"

section \<open>Health\<close>

text \<open>\<^verbatim>\<open>version.Version() < MinRuntimeVersion\<close> compares the strings byte by byte.\<close>

definition runtime_is_healthy :: "string \<Rightarrow> ('p, 'o, 'w) runtime \<Rightarrow> health_result" where
  "runtime_is_healthy version rt =
     (if sp_min_runtime_version (rt_config rt) \<noteq> [] \<and> version < sp_min_runtime_version (rt_config rt)
      then \<lparr>hr_status = Unhealthy, hr_description = ''a bigger minimum runtime version is required''\<rparr>
      else healthy_result)"

section \<open>The factories the sidecar registers\<close>

text \<open>
  \<^verbatim>\<open>RegisterComponentFactories\<close> (\<^verbatim>\<open>cmd/rusid/components.go\<close>): two brokers and the "uppercase"
  middleware, which only logs.
\<close>

definition uppercase_middleware :: "gomap \<Rightarrow> ('o, 'w) middleware" where
  "uppercase_middleware properties next c msg w = next c msg w"

definition registered_pubsubs :: "'p \<Rightarrow> 'p \<Rightarrow> 'p pubsub_definition list" where
  "registered_pubsubs nats_streaming jet_stream =
     [\<lparr>psd_name = ''natsstreaming'', psd_factory = nats_streaming\<rparr>,
      \<lparr>psd_name = ''jetstream'', psd_factory = jet_stream\<rparr>]"

definition registered_middlewares :: "('o, 'w) middleware_definition list" where
  "registered_middlewares = [\<lparr>mwd_name = ''uppercase'', mwd_factory = uppercase_middleware\<rparr>]"

section \<open>Properties of publishing\<close>

text \<open>The context the broker is called in, and the telemetry up to that call.\<close>

definition publish_otel :: "('o, 'b, 's) otel_api \<Rightarrow> 'o ctx \<Rightarrow> gomap \<Rightarrow> nat \<Rightarrow> 'o" where
  "publish_otel api c headers n =
     (let e = api_extract api (ctx_otel c) headers
      in api_start api (api_with_remote api (api_with_baggage api (ctx_otel c) (api_baggage api e))
           (api_span_context api e)) n)"

definition publish_started :: "string \<Rightarrow> 'a tele_scheme \<Rightarrow> 'a tele_scheme" where
  "publish_started topic w =
     emit [SpanStart (tele_spans w) (topic @ '' send'') KindProducer
             [AttrText ''component'' ''Rusi'', AttrDestinationName topic, AttrDestinationKindTopic]]
       (w\<lparr>tele_spans := Suc (tele_spans w)\<rparr>)"

text \<open>C13: when the request (or else the configuration) names a known broker and the metadata map is
  not nil, that broker is called once, with the request's topic and an envelope that carries the
  fresh id, the request's data and its metadata plus the injected trace headers; its result is the
  result of the publish, one publish metric with its success is recorded, and the span gets the status
  and is closed.\<close>

theorem publish_handler_success:
  assumes "resolve_pubsub_name rt (pr_pubsub_name request) = name" and "name \<noteq> []"
    and "get_publisher (rt_manager rt) name = Some ps"
    and "pr_metadata request = Some f"
    and "br_publish br ps (pr_topic request)
           ((publish_envelope uuid now request)\<lparr>env_headers :=
              Some (foldl (\<lambda>f (k, v). fmupd k v f) f (api_inject api (publish_otel api c (Some f) (tele_spans w))))\<rparr>)
           (publish_started (pr_topic request) w) = (r, msg1, w2)"
    and "\<forall>m. r \<noteq> Crash m"
  shows "publish_handler api br rt uuid now c request w =
    (r, emit (MetricPublish (env_subject msg1) (r = Ok) # span_status (tele_spans w) r @ [SpanEnd (tele_spans w)]) w2)"
  using assms
  by (cases r)
    (simp_all add: publish_handler_def go_simps publisher_tracing_def publisher_metrics_def
      extract_trace_def inject_trace_def publish_otel_def publish_started_def publish_envelope_def
      record_publish_message_def emit_def Let_def)

text \<open>Without a broker name, or with the name of an unknown broker, a publish fails and nothing
  else happens: no broker is called, no span or metric is recorded.\<close>

theorem publish_handler_unresolved:
  assumes "get_publisher (rt_manager rt) (resolve_pubsub_name rt (pr_pubsub_name request)) = None
    \<or> resolve_pubsub_name rt (pr_pubsub_name request) = []"
  shows "\<exists>m. publish_handler api br rt uuid now c request w = (Fail (ErrText m), w)"
  using assms by (auto simp: publish_handler_def Let_def split: option.split)

text \<open>With a nil metadata map and a propagator that has a header to inject, the publish panics
  before the broker is called, and the span is still closed.\<close>

theorem publish_handler_nil_metadata:
  assumes "resolve_pubsub_name rt (pr_pubsub_name request) = name" and "name \<noteq> []"
    and "get_publisher (rt_manager rt) name = Some ps"
    and "pr_metadata request = None"
    and "api_inject api (publish_otel api c None (tele_spans w)) \<noteq> []"
  shows "publish_handler api br rt uuid now c request w =
    (Crash nil_map_write, emit [SpanEnd (tele_spans w)] (publish_started (pr_topic request) w))"
  using assms
  by (simp add: publish_handler_def go_simps publisher_tracing_def carrier_set_all_nil
      extract_trace_def inject_trace_def publish_otel_def publish_started_def publish_envelope_def
      empty_envelope_def Let_def)

section \<open>Properties of subscribing\<close>

lemma build_subscriber_pipeline_Inr:
  "build_subscriber_pipeline ks m hs pipe = Inr p \<longleftrightarrow>
     (\<exists>mws. p = pipe @ mws \<and> list_all2 (\<lambda>h mw. get_middleware ks m h = Inr mw) hs mws)"
proof (induction hs arbitrary: pipe)
  case Nil
  then show ?case by auto
next
  case (Cons h hs)
  then show ?case
    by (cases "get_middleware ks m h") (auto simp: use_middleware_def list_all2_Cons1)
qed

text \<open>C12: a subscription that finds its broker and its middlewares registers, under the request's
  topic and options, a handler that runs the configured middlewares in their order (first one
  outermost), then the metrics, then the tracing middleware, then the request's handler, with the
  topic in the context.\<close>

theorem subscribe_handler_pipeline:
  assumes "resolve_pubsub_name rt (sr_pubsub_name request) = name" and "name \<noteq> []"
    and "get_subscriber (rt_manager rt) name = Some ps"
    and "list_all2 (\<lambda>h mw. get_middleware ks (rt_manager rt) h = Inr mw)
           (slice (sp_subscriber_handlers (rt_config rt))) mws"
  shows "subscribe_handler api br ks rt request w =
    br_subscribe br ps (sr_topic request)
      (\<lambda>c env w. foldr (\<lambda>m. m) mws (subscriber_metrics (subscriber_tracing api (sr_handler request)))
                   (c\<lparr>ctx_topic := Some (sr_topic request)\<rparr>) env w)
      (sr_options request) w"
proof -
  have "build_subscriber_pipeline ks (rt_manager rt) (slice (sp_subscriber_handlers (rt_config rt))) [] = Inr mws"
    using assms(4) by (simp add: build_subscriber_pipeline_Inr)
  with assms(1-3) show ?thesis
    by (simp add: subscribe_handler_def start_subscribing_def use_middleware_def build_pipeline_foldr Let_def)
qed

text \<open>A handler of the pipeline configuration is resolved exactly when a component with that
  very type and name was loaded and a factory is registered for the type and version.\<close>

theorem get_middleware_resolves:
  assumes "keys_ok m" and "enumerates ks (m_components m)"
  shows "(\<exists>mw. get_middleware ks m h = Inr mw) \<longleftrightarrow>
    lookup_spec m (hs_type h) (hs_name h) \<noteq> None
    \<and> get_middleware_factory (m_middlewares m) (hs_type h) (hs_version h) \<noteq> None"
  by (auto simp: get_middleware_def get_component_eq [OF assms] middleware_create_def split: option.splits)

text \<open>
  The README configures a component of type \<^verbatim>\<open>middleware.http.uppercase\<close> named \<^verbatim>\<open>uppercase\<close>, and a
  pipeline handler of type \<^verbatim>\<open>middleware.pubsub.uppercase\<close> named \<^verbatim>\<open>pubsub-uppercase\<close>: the handler
  does not resolve.
\<close>

definition readme_component :: spec where
  "readme_component =
     \<lparr>cs_name = ''uppercase'', cs_type = ''middleware.http.uppercase'', cs_version = ''v1'',
      cs_metadata = Some fmempty, cs_scopes = []\<rparr>"

definition readme_handler :: handler_spec where
  "readme_handler =
     \<lparr>hs_name = ''pubsub-uppercase'', hs_type = ''middleware.pubsub.uppercase'', hs_version = []\<rparr>"

theorem readme_pipeline_unresolved:
  assumes "new_components_manager app_id None ds registered_middlewares = Inr m0"
  shows "\<exists>e. get_middleware [''middleware.http.uppercase-uppercase'']
      (watch_components_updates ops (\<lambda>m. []) [readme_component] m0) readme_handler = Inl e"
proof -
  have m0: "m_components m0 = fmempty" using assms by (auto simp: new_components_manager_def)
  have cat: "extract_component_category readme_component = Some MiddlewareComponent" by code_simp
  have "m_components (watch_components_updates ops (\<lambda>m. []) [readme_component] m0)
      = fmupd ''middleware.http.uppercase-uppercase'' readme_component fmempty"
    using cat m0
    by (simp add: add_or_update_component_def get_component_def store_component_def Let_def
        get_component_key_def readme_component_def)
  then show ?thesis
    by (simp add: get_middleware_def get_component_def readme_component_def readme_handler_def)
qed

section \<open>Properties of refreshing and health\<close>

text \<open>The updates that differ from the configuration before them.\<close>

definition config_changes :: "config_spec \<Rightarrow> config_spec list \<Rightarrow> nat" where
  "config_changes cfg us = length (filter (\<lambda>(a, b). a \<noteq> b) (zip (cfg # us) us))"

text \<open>After a sequence of configuration updates the runtime has the last one, and the
  subscriptions were refreshed once per update that differs from its predecessor - not for a repeated
  configuration.\<close>

theorem configuration_refreshes:
  "rt_config (watch_configuration_updates us rt) = last (rt_config rt # us)
   \<and> rt_refreshes (watch_configuration_updates us rt) = rt_refreshes rt + config_changes (rt_config rt) us
   \<and> rt_manager (watch_configuration_updates us rt) = rt_manager rt"
proof (induction us arbitrary: rt)
  case Nil
  then show ?case by (simp add: config_changes_def)
next
  case (Cons u us)
  show ?case
    by (cases "rt_config rt = u") (use Cons in \<open>auto simp: config_changes_def api_refresh_def\<close>)
qed

text \<open>The minimum version is compared byte by byte: where the two versions first differ, the
  bytes decide, whatever numbers they belong to.  So \<open>1.10.0\<close> fails a required minimum of \<open>1.9.0\<close>.\<close>

theorem version_compared_bytewise:
  assumes "sp_min_runtime_version (rt_config rt) = p @ d # y" and "c < d"
  shows "hr_status (runtime_is_healthy (p @ c # x) rt) = Unhealthy"
proof -
  have "p @ c # x < p @ d # y" using assms(2) by (induction p) auto
  with assms(1) show ?thesis by (simp add: runtime_is_healthy_def)
qed

section \<open>Witnesses\<close>

definition sample_broker :: "(nat, nat, tele) broker" where
  "sample_broker =
     pubsub_ops.extend sample_ops
       \<lparr>br_publish = (\<lambda>p topic msg w. (if topic = ''bad'' then Fail (ErrText ''refused'') else Ok, msg, w)),
        br_subscribe = (\<lambda>p topic h opts w. (Inr p, w))\<rparr>"

definition sample_runtime :: "(nat, nat, tele) runtime" where
  "sample_runtime =
     \<lparr>rt_app_id = ''app'',
      rt_config = zero_config\<lparr>sp_pubsub_name := ''bus'', sp_min_runtime_version := ''1.9.0'',
                   sp_subscriber_handlers := Some [\<lparr>hs_name = ''up'', hs_type = ''middleware.pubsub.uppercase'',
                                                     hs_version = ''v1''\<rparr>]\<rparr>,
      rt_manager =
        \<lparr>m_app_id = ''app'', m_instances = fmupd ''bus'' 7 fmempty,
         m_components = fmupd ''middleware.pubsub.uppercase-up''
             \<lparr>cs_name = ''up'', cs_type = ''middleware.pubsub.uppercase'', cs_version = ''v1'',
              cs_metadata = None, cs_scopes = []\<rparr> fmempty,
         m_notifications = [], m_watch_closed = False, m_pubsubs = fmempty,
         m_middlewares = middleware_register registered_middlewares fmempty\<rparr>,
      rt_refreshes = 0\<rparr>"

definition sample_request :: publish_request where
  "sample_request =
     \<lparr>pr_pubsub_name = [], pr_topic = ''orders'', pr_data = VNull, pr_type = ''t'',
      pr_data_content_type = [], pr_metadata = Some fmempty\<rparr>"

definition sample_subscription :: "(nat, tele) subscribe_request" where
  "sample_subscription =
     \<lparr>sr_pubsub_name = ''bus'', sr_topic = ''orders'', sr_handler = failing_handler, sr_options = None\<rparr>"

lemma sample_bus: "get_publisher (rt_manager sample_runtime) ''bus'' = Some 7"
  "get_subscriber (rt_manager sample_runtime) ''bus'' = Some 7"
  by (simp_all add: get_publisher_def get_subscriber_def sample_runtime_def)

lemma sample_resolve: "resolve_pubsub_name sample_runtime [] = ''bus''"
  "resolve_pubsub_name sample_runtime ''bus'' = ''bus''"
  by (simp_all add: resolve_pubsub_name_def sample_runtime_def)

theorem publish_handler_success_witness:
  "\<exists>w1. publish_handler sample_api sample_broker sample_runtime ''id'' 5 sample_ctx sample_request sample_tele = (Ok, w1)
     \<and> MetricPublish ''orders'' True \<in> set (tele_log w1)"
proof -
  let ?m = "(publish_envelope ''id'' 5 sample_request)\<lparr>env_headers :=
      Some (foldl (\<lambda>f (k, v). fmupd k v f) fmempty
        (api_inject sample_api (publish_otel sample_api sample_ctx (Some fmempty) (tele_spans sample_tele))))\<rparr>"
  let ?w = "publish_started (pr_topic sample_request) sample_tele"
  have b: "br_publish sample_broker 7 (pr_topic sample_request) ?m ?w = (Ok, ?m, ?w)"
    by (simp add: sample_broker_def pubsub_ops.extend_def sample_request_def)
  have n: "resolve_pubsub_name sample_runtime (pr_pubsub_name sample_request) = ''bus''"
    by (simp add: sample_request_def sample_resolve)
  have h: "pr_metadata sample_request = Some fmempty" by (simp add: sample_request_def)
  have s: "env_subject ?m = ''orders''" by (simp add: publish_envelope_def sample_request_def)
  from publish_handler_success [OF n _ sample_bus(1) h b] s show ?thesis by simp
qed

theorem publish_handler_unresolved_witness:
  "\<exists>m. publish_handler sample_api sample_broker sample_runtime ''id'' 5 sample_ctx
     (sample_request\<lparr>pr_pubsub_name := ''other''\<rparr>) sample_tele = (Fail (ErrText m), sample_tele)"
  by (rule publish_handler_unresolved)
    (simp add: get_publisher_def resolve_pubsub_name_def sample_runtime_def)

theorem publish_handler_nil_metadata_witness:
  "fst (publish_handler sample_api sample_broker sample_runtime ''id'' 5 sample_ctx
     (sample_request\<lparr>pr_metadata := None\<rparr>) sample_tele) = Crash nil_map_write"
proof -
  have n: "resolve_pubsub_name sample_runtime (pr_pubsub_name (sample_request\<lparr>pr_metadata := None\<rparr>)) = ''bus''"
    by (simp add: sample_request_def sample_resolve)
  have i: "api_inject sample_api (publish_otel sample_api sample_ctx None (tele_spans sample_tele)) \<noteq> []"
    by (simp add: sample_api_def)
  show ?thesis using publish_handler_nil_metadata [OF n _ sample_bus(1) _ i] by simp
qed

lemma sample_factory:
  "get_middleware_factory (middleware_register registered_middlewares fmempty)
     ''middleware.pubsub.uppercase'' ''v1'' = Some uppercase_middleware"
  by (simp add: get_middleware_factory_def registered_middlewares_def middleware_full_name_def to_lower_def
      lower_char_def is_initial_version_def first_stable_version_def Let_def)

lemma sample_handlers:
  "list_all2 (\<lambda>h mw. get_middleware [''middleware.pubsub.uppercase-up''] (rt_manager sample_runtime) h = Inr mw)
     (slice (sp_subscriber_handlers (rt_config sample_runtime))) [uppercase_middleware None]"
  by (simp add: sample_runtime_def get_middleware_def get_component_def middleware_create_def sample_factory)

theorem subscribe_handler_pipeline_witness:
  "fst (subscribe_handler sample_api sample_broker [''middleware.pubsub.uppercase-up''] sample_runtime
     sample_subscription sample_tele) = Inr 7"
proof -
  have n: "resolve_pubsub_name sample_runtime (sr_pubsub_name sample_subscription) = ''bus''"
    by (simp add: sample_subscription_def sample_resolve)
  show ?thesis
    unfolding subscribe_handler_pipeline [OF n list.distinct(2) sample_bus(2) sample_handlers]
    by (simp add: sample_broker_def pubsub_ops.extend_def)
qed

theorem get_middleware_resolves_witness:
  "\<exists>mw. get_middleware [''middleware.pubsub.uppercase-up''] (rt_manager sample_runtime)
     \<lparr>hs_name = ''up'', hs_type = ''middleware.pubsub.uppercase'', hs_version = ''v1''\<rparr> = Inr mw"
proof -
  have k: "keys_ok (rt_manager sample_runtime)"
    by (auto simp: keys_ok_def sample_runtime_def get_component_key_def split: if_splits)
  have e: "enumerates [''middleware.pubsub.uppercase-up''] (m_components (rt_manager sample_runtime))"
    by (simp add: enumerates_def sample_runtime_def)
  show ?thesis
    using get_middleware_resolves [OF k e]
    by (simp add: sample_factory lookup_spec_def sample_runtime_def get_component_key_def)
qed

theorem version_compared_bytewise_witness:
  "hr_status (runtime_is_healthy ''1.10.0'' sample_runtime) = Unhealthy"
proof -
  have "sp_min_runtime_version (rt_config sample_runtime) = ''1.'' @ CHR ''9'' # ''.0''"
    by (simp add: sample_runtime_def)
  moreover have "CHR ''1'' < CHR ''9''" by simp
  ultimately show ?thesis using version_compared_bytewise [where x = "''0.0''"] by fastforce
qed

end
