(* ===== verification/Grpc_Server.thy ===== *)
theory Grpc_Server
  imports Proto Runtime
begin

text \<open>
  The gRPC front end (\<^verbatim>\<open>pkg/api/runtime/grpc/grpc_api.go\<close>): \<^verbatim>\<open>Publish\<close>, the translation of the
  subscription options, the table of refresh channels, and the life of one \<^verbatim>\<open>Subscribe\<close> stream as a
  sequence of rounds.  The acknowledgements of a stream are the theory \<open>Grpc_Ack\<close>, the interplay of
  refreshes and subscriptions the theory \<open>Grpc_Refresh\<close>.
\<close>

section \<open>Publish\<close>

definition err_topic_empty :: "string \<Rightarrow> string" where
  "err_topic_empty pubsub = ''topic is empty in pubsub '' @ pubsub"

definition grpc_publish :: "(string \<Rightarrow> error + json) \<Rightarrow> (publish_request \<Rightarrow> 'w \<Rightarrow> result \<times> 'w)
    \<Rightarrow> pb_publish_request \<Rightarrow> 'w \<Rightarrow> result \<times> 'w" where
  "grpc_publish unmarshal handler request w =
     (if pbp_topic request = []
      then (Fail (ErrStatus ''InvalidArgument'' (ErrText (err_topic_empty (pbp_pubsub_name request)))), w)
      else
        (let metadata = (case publish_get_metadata (Some request) of None \<Rightarrow> Some fmempty | Some f \<Rightarrow> Some f)
         in case unmarshal (publish_get_data (Some request)) of
              Inl e \<Rightarrow> (Fail e, w)
            | Inr data \<Rightarrow>
                (case handler
                        \<lparr>pr_pubsub_name = publish_get_pubsub_name (Some request),
                         pr_topic = publish_get_topic (Some request),
                         pr_data = data,
                         pr_type = publish_get_type (Some request),
                         pr_data_content_type = publish_get_data_content_type (Some request),
                         pr_metadata = metadata\<rparr> w of
                   (Fail e, w1) \<Rightarrow> (Fail (ErrStatus ''Unknown'' e), w1)
                 | (r, w1) \<Rightarrow> (r, w1))))"

section \<open>Subscription options\<close>

text \<open>\<open>as_duration\<close> is \<^verbatim>\<open>durationpb.Duration.AsDuration\<close>, of another module.\<close>

definition messaging_subscription_options :: "('d \<Rightarrow> int) \<Rightarrow> 'd pb_subscription_options option
    \<Rightarrow> subscription_options option" where
  "messaging_subscription_options as_duration options =
     (case options of
        None \<Rightarrow> None
      | Some o1 \<Rightarrow>
          (let so = no_subscription_options;
               so = (case pbo_durable o1 of None \<Rightarrow> so | Some v \<Rightarrow> so\<lparr>so_durable := Some v\<rparr>);
               so = (case pbo_qgroup o1 of None \<Rightarrow> so | Some v \<Rightarrow> so\<lparr>so_qgroup := Some v\<rparr>);
               so = (case pbo_max_concurrent o1 of None \<Rightarrow> so | Some v \<Rightarrow> so\<lparr>so_max_concurrent := Some v\<rparr>);
               so = (case pbo_deliver_new o1 of None \<Rightarrow> so | Some v \<Rightarrow> so\<lparr>so_deliver_new := Some v\<rparr>);
               so = (case pbo_ack_wait o1 of None \<Rightarrow> so | Some d \<Rightarrow> so\<lparr>so_ack_wait := Some (as_duration d)\<rparr>)
           in Some so))"

section \<open>The refresh channels\<close>

text \<open>A channel is a number; \<^verbatim>\<open>make\<close> takes the next one.\<close>

record server =
  srv_refresh_channels :: "(string, nat) fmap"
  srv_next_chan :: nat

definition new_rusi_server :: server where
  "new_rusi_server = \<lparr>srv_refresh_channels = fmempty, srv_next_chan = 0\<rparr>"

definition get_refresh_chan :: "string \<Rightarrow> server \<Rightarrow> nat \<times> server" where
  "get_refresh_chan sub_id srv =
     (case fmlookup (srv_refresh_channels srv) sub_id of
        Some c \<Rightarrow> (c, srv)
      | None \<Rightarrow>
          (let c = srv_next_chan srv
           in (c, srv\<lparr>srv_refresh_channels := fmupd sub_id c (srv_refresh_channels srv),
                      srv_next_chan := Suc c\<rparr>)))"

definition remove_refresh_chan :: "string \<Rightarrow> server \<Rightarrow> server" where
  "remove_refresh_chan sub_id srv =
     srv\<lparr>srv_refresh_channels := fmdrop sub_id (srv_refresh_channels srv)\<rparr>"

section \<open>One Subscribe stream\<close>

text \<open>
  A round of the loop: what \<^verbatim>\<open>subscribeHandler\<close> answered (an error or a close function), and which
  case of the \<^verbatim>\<open>select\<close> fired.  The log records the calls the server makes.
\<close>

datatype wake = MainDone error | StreamDone error | RefreshRequested

datatype sub_action =
    SubscribeCall nat
  | SubscribeFailed error
  | CancelContext
  | Unsubscribe nat

definition stream_error :: "error \<Rightarrow> error" where
  "stream_error e =
     (if errors_is ErrCanceled e then ErrStatus ''Aborted'' (ErrText ''Cancellation requested'') else e)"

text \<open>
  The result is \<^term>\<open>None\<close> while the stream waits for its next round.
\<close>

fun subscribe_loop :: "string \<Rightarrow> ((error + nat) \<times> wake) list \<Rightarrow> server
    \<Rightarrow> sub_action list \<times> error option \<times> server" where
  "subscribe_loop sub_id [] srv = ([], None, srv)"
| "subscribe_loop sub_id ((Inl e, wake) # rounds) srv =
     ([SubscribeFailed e, CancelContext], Some e, srv)"
| "subscribe_loop sub_id ((Inr unsub, wake) # rounds) srv =
     (let srv1 = snd (get_refresh_chan sub_id srv);
          acts = [SubscribeCall unsub, CancelContext, Unsubscribe unsub]
      in case wake of
           MainDone e \<Rightarrow> (acts, Some (stream_error e), srv1)
         | StreamDone e \<Rightarrow> (acts, Some (stream_error e), srv1)
         | RefreshRequested \<Rightarrow>
             (case subscribe_loop sub_id rounds srv1 of (l, r, srv2) \<Rightarrow> (acts @ l, r, srv2)))"

definition grpc_subscribe :: "string \<Rightarrow> error + 'd pb_subscribe_request
    \<Rightarrow> ((error + nat) \<times> wake) list \<Rightarrow> server \<Rightarrow> sub_action list \<times> error option \<times> server" where
  "grpc_subscribe sub_id received rounds srv =
     (case received of
        Inl e \<Rightarrow> ([], Some e, srv)
      | Inr r \<Rightarrow>
          (case get_subscription_request (Some r) of
             None \<Rightarrow> ([], Some (ErrText ''invalid subscription request''), srv)
           | Some request \<Rightarrow>
               (case subscribe_loop sub_id rounds srv of
                  (l, None, srv1) \<Rightarrow> (l, None, srv1)
                | (l, Some e, srv1) \<Rightarrow> (l, Some e, remove_refresh_chan sub_id srv1))))"

section \<open>Properties\<close>

text \<open>A Publish call through the gRPC API and the runtime never panics on the metadata map or on
  a missing topic: when the broker itself does not panic, the call ends with nil or an error status,
  whatever OpenTelemetry injects and whether or not the client sent metadata.\<close>

theorem grpc_publish_never_panics:
  assumes "\<forall>p t msg w m. fst (br_publish br p t msg w) \<noteq> Crash m"
  shows "fst (grpc_publish unmarshal (publish_handler api br rt uuid now c) request w) \<noteq> Crash m"
proof -
  have nopanic: "fst (publish_handler api br rt uuid now c q w) \<noteq> Crash m" if "pr_metadata q = Some f" for q f w m
  proof (cases "get_publisher (rt_manager rt) (resolve_pubsub_name rt (pr_pubsub_name q))")
    case None
    then show ?thesis by (simp add: publish_handler_def Let_def)
  next
    case (Some ps)
    with that assms show ?thesis
      by (auto simp: publish_handler_def go_simps publisher_tracing_def publisher_metrics_def
          inject_trace_def publish_envelope_def Let_def split: prod.splits result.splits)
        (metis fst_conv)+
  qed
  show ?thesis
  proof (cases "publish_get_metadata (Some request)")
    case None
    then show ?thesis
      using nopanic [of "_\<lparr>pr_metadata := Some fmempty\<rparr>" fmempty]
      by (auto simp: grpc_publish_def Let_def split: sum.splits prod.splits result.splits)
        (metis fst_conv nopanic publish_request.select_convs(6))
  next
    case (Some f)
    then show ?thesis
      by (auto simp: grpc_publish_def Let_def split: sum.splits prod.splits result.splits)
        (metis fst_conv nopanic publish_request.select_convs(6))
  qed
qed

text \<open>The subscription options reach the broker unchanged: nil stays nil, and each pointer is nil
  exactly when the client left the field out, else it points to the client's value.\<close>

theorem subscription_options_preserved:
  "messaging_subscription_options as_duration options =
     map_option (\<lambda>o1. \<lparr>so_durable = pbo_durable o1, so_qgroup = pbo_qgroup o1,
        so_max_concurrent = pbo_max_concurrent o1, so_deliver_new = pbo_deliver_new o1,
        so_ack_wait = map_option as_duration (pbo_ack_wait o1)\<rparr>) options"
  by (auto simp: messaging_subscription_options_def no_subscription_options_def Let_def split: option.split)

text \<open>The close functions that were obtained and not called yet, along a log.\<close>

fun live_subscriptions :: "nat list \<Rightarrow> sub_action list \<Rightarrow> nat list" where
  "live_subscriptions ls [] = ls"
| "live_subscriptions ls (SubscribeCall n # as) = live_subscriptions (ls @ [n]) as"
| "live_subscriptions ls (Unsubscribe n # as) = live_subscriptions (remove1 n ls) as"
| "live_subscriptions ls (a # as) = live_subscriptions ls as"

lemma live_subscriptions_append:
  "live_subscriptions ls (as @ bs) = live_subscriptions (live_subscriptions ls as) bs"
  by (induction ls as rule: live_subscriptions.induct) auto

lemma subscribe_loop_balanced:
  "subscribe_loop sub_id rounds srv = (l, r, srv1) \<Longrightarrow>
     live_subscriptions [] l = [] \<and> (\<forall>n. length (live_subscriptions [] (take n l)) \<le> 1)"
proof (induction sub_id rounds srv arbitrary: l r srv1 rule: subscribe_loop.induct)
  case (3 sub_id unsub wake rounds srv)
  let ?acts = "[SubscribeCall unsub, CancelContext, Unsubscribe unsub]"
  have acts: "length (live_subscriptions [] (take n ?acts)) \<le> 1" for n
    by (cases n; cases "n - 1"; cases "n - 2"; cases "n - 3") (auto simp: take_Cons' split: if_splits)
  have bal: "live_subscriptions [] ?acts = []" by simp
  show ?case
  proof (cases wake)
    case RefreshRequested
    with 3 obtain l' where l': "subscribe_loop sub_id rounds (snd (get_refresh_chan sub_id srv)) = (l', r, srv1)"
      and l: "l = ?acts @ l'"
      by (auto simp: Let_def split: prod.splits)
    from "3.IH" [OF refl refl RefreshRequested l'] have ih: "live_subscriptions [] l' = []"
      "\<forall>n. length (live_subscriptions [] (take n l')) \<le> 1" by auto
    have "length (live_subscriptions [] (take n l)) \<le> 1" for n
    proof (cases "n \<le> length ?acts")
      case True
      then have "take n l = take n ?acts" unfolding l by (simp only: take_append) simp
      with acts show ?thesis by metis
    next
      case False
      then have "take n l = ?acts @ take (n - length ?acts) l'" unfolding l by (simp only: take_append) simp
      then show ?thesis using ih(2) bal live_subscriptions_append by metis
    qed
    moreover have "live_subscriptions [] l = []" using l bal ih(1) live_subscriptions_append by metis
    ultimately show ?thesis by blast
  qed (use 3 acts bal in \<open>auto simp: Let_def\<close>)
next
  case (2 sub_id e wake rounds srv)
  then have l: "l = [SubscribeFailed e, CancelContext]" by simp
  have "live_subscriptions [] (take n l) = []" for n by (cases n; cases "n - 1") (auto simp: l take_Cons')
  with l show ?case by simp
qed simp

lemma subscribe_loop_result:
  "subscribe_loop sub_id rounds srv = (l, Some e, srv1) \<Longrightarrow>
     (\<exists>w. (Inl e, w) \<in> set rounds)
     \<or> (\<exists>u e'. e = stream_error e' \<and> ((Inr u, MainDone e') \<in> set rounds \<or> (Inr u, StreamDone e') \<in> set rounds))"
proof (induction sub_id rounds srv arbitrary: l srv1 rule: subscribe_loop.induct)
  case (3 sub_id unsub wake rounds srv)
  then show ?case
    by (cases wake) (fastforce simp: Let_def split: prod.splits)+
qed auto

text \<open>C11: along a Subscribe stream at most one subscription is live at any moment and every
  subscription obtained from the runtime is unsubscribed; when the stream ends its refresh channel is
  gone, and the error it ends with is the receive error, the invalid-request error, the error of a failed
  subscribe, or that of the finished context - with the status Aborted in place of
  \<^verbatim>\<open>context.Canceled\<close>.\<close>

theorem subscribe_stream_balanced:
  assumes "fmlookup (srv_refresh_channels srv) sub_id = None"
    and "grpc_subscribe sub_id received rounds srv = (l, r, srv1)"
  shows "live_subscriptions [] l = []
    \<and> (\<forall>n. length (live_subscriptions [] (take n l)) \<le> 1)
    \<and> (r \<noteq> None \<longrightarrow> fmlookup (srv_refresh_channels srv1) sub_id = None)
    \<and> (\<forall>e. r = Some e \<longrightarrow>
         received = Inl e \<or> e = ErrText ''invalid subscription request'' \<or> (\<exists>w. (Inl e, w) \<in> set rounds)
         \<or> (\<exists>u e'. e = stream_error e'
              \<and> ((Inr u, MainDone e') \<in> set rounds \<or> (Inr u, StreamDone e') \<in> set rounds)))
    \<and> stream_error ErrCanceled = ErrStatus ''Aborted'' (ErrText ''Cancellation requested'')"
proof -
  have aborted: "stream_error ErrCanceled = ErrStatus ''Aborted'' (ErrText ''Cancellation requested'')"
    by (simp add: stream_error_def)
  show ?thesis
  proof (cases "\<exists>q. received = Inr q \<and> get_subscription_request (Some q) \<noteq> None")
    case True
    obtain l' r' srv' where loop: "subscribe_loop sub_id rounds srv = (l', r', srv')" by (rule prod_cases3)
    with True assms(2) have "l = l'" "r = r'"
      and "srv1 = (if r' = None then srv' else remove_refresh_chan sub_id srv')"
      by (auto simp: grpc_subscribe_def split: option.splits)
    with subscribe_loop_balanced [OF loop] subscribe_loop_result [of sub_id rounds srv l' _ srv'] loop aborted
    show ?thesis by (auto simp: remove_refresh_chan_def)
  next
    case False
    with assms aborted show ?thesis
      by (auto simp: grpc_subscribe_def split: sum.splits option.splits)
  qed
qed

section \<open>Witnesses\<close>

definition sample_pb_publish :: pb_publish_request where
  "sample_pb_publish =
     \<lparr>pbp_pubsub_name = [], pbp_topic = ''orders'', pbp_data = ''null'', pbp_type = ''t'',
      pbp_data_content_type = [], pbp_metadata = None\<rparr>"

theorem grpc_publish_never_panics_witness:
  "\<forall>m. fst (grpc_publish (\<lambda>s. Inr VNull)
      (publish_handler sample_api sample_broker sample_runtime ''id'' 5 sample_ctx)
      sample_pb_publish sample_tele) \<noteq> Crash m"
  by (intro allI grpc_publish_never_panics) (simp add: sample_broker_def pubsub_ops.extend_def)

definition sample_subscribe :: "unit pb_subscribe_request" where
  "sample_subscribe =
     \<lparr>pbr_request_type = Some (SubscriptionRequestType
        (Some \<lparr>pbs_pubsub_name = ''bus'', pbs_topic = ''orders'', pbs_options = None\<rparr>))\<rparr>"

theorem subscribe_stream_balanced_witness:
  "case grpc_subscribe ''s1'' (Inr sample_subscribe)
       [(Inr 4, RefreshRequested), (Inr 5, StreamDone ErrCanceled)] new_rusi_server of
     (l, r, srv1) \<Rightarrow>
       live_subscriptions [] l = []
       \<and> l = [SubscribeCall 4, CancelContext, Unsubscribe 4, SubscribeCall 5, CancelContext, Unsubscribe 5]
       \<and> r = Some (ErrStatus ''Aborted'' (ErrText ''Cancellation requested''))
       \<and> fmlookup (srv_refresh_channels srv1) ''s1'' = None"
proof -
  let ?rounds = "[(Inr 4, RefreshRequested), (Inr 5, StreamDone ErrCanceled)]"
  let ?x = "grpc_subscribe ''s1'' (Inr sample_subscribe) ?rounds new_rusi_server"
  have fresh: "fmlookup (srv_refresh_channels new_rusi_server) ''s1'' = None"
    by (simp add: new_rusi_server_def)
  have eval: "fst ?x = [SubscribeCall 4, CancelContext, Unsubscribe 4, SubscribeCall 5, CancelContext, Unsubscribe 5]"
    "fst (snd ?x) = Some (ErrStatus ''Aborted'' (ErrText ''Cancellation requested''))"
    by (simp_all add: grpc_subscribe_def sample_subscribe_def getters stream_error_def)
  have "?x = (fst ?x, fst (snd ?x), snd (snd ?x))" by simp
  from subscribe_stream_balanced [OF fresh this] eval show ?thesis
    unfolding case_prod_unfold by blast
qed

end
