(* ===== verification/Grpc_Refresh.thy ===== *)
theory Grpc_Refresh
  imports Grpc_Server
begin

text \<open>
  Refreshing the streams of the gRPC server: \<^verbatim>\<open>Refresh\<close>, \<^verbatim>\<open>getRefreshChan\<close>, \<^verbatim>\<open>removeRefreshChan\<close>
  and the loop of \<^verbatim>\<open>Subscribe\<close> (\<^verbatim>\<open>pkg/api/runtime/grpc/grpc_api.go\<close>), running concurrently.

  A \<^verbatim>\<open>Refresh\<close> in progress is the list of the channels it has still to send on; it holds the read lock
  until the list is empty, so the writers \<^verbatim>\<open>getRefreshChan\<close> and \<^verbatim>\<open>removeRefreshChan\<close> run only while
  there is no refresh in progress.  The channels are unbuffered: a send is one step with its receiver.
\<close>

section \<open>State\<close>

datatype stream_pc =
    Subscribing
  | GetChan
  | Selecting nat
  | Unsubscribing bool
  | Removing
  | Finished

record refresh_state =
  rf_streams :: "(string, stream_pc) fmap"
  rf_server :: server
  rf_refreshes :: "nat list list"

definition refresh_init :: "refresh_state \<Rightarrow> bool" where
  "refresh_init s \<longleftrightarrow> rf_streams s = fmempty \<and> rf_server s = new_rusi_server \<and> rf_refreshes s = []"

definition set_stream :: "string \<Rightarrow> stream_pc \<Rightarrow> refresh_state \<Rightarrow> refresh_state" where
  "set_stream k pc s = s\<lparr>rf_streams := fmupd k pc (rf_streams s)\<rparr>"

text \<open>The channels of the map, in the order the range loop visits the keys.\<close>

definition channels_of :: "string list \<Rightarrow> server \<Rightarrow> nat list" where
  "channels_of ks srv = map (\<lambda>k. the (fmlookup (srv_refresh_channels srv) k)) ks"

section \<open>The steps\<close>

inductive refresh_step :: "refresh_state \<Rightarrow> refresh_state \<Rightarrow> bool" where
  start: "fmlookup (rf_streams s) k = None \<Longrightarrow> refresh_step s (set_stream k Subscribing s)"
| subscribed: "fmlookup (rf_streams s) k = Some Subscribing \<Longrightarrow> refresh_step s (set_stream k GetChan s)"
| subscribe_fails: "fmlookup (rf_streams s) k = Some Subscribing \<Longrightarrow> refresh_step s (set_stream k Removing s)"
| get_chan: "fmlookup (rf_streams s) k = Some GetChan \<Longrightarrow> rf_refreshes s = []
    \<Longrightarrow> get_refresh_chan k (rf_server s) = (c, srv)
    \<Longrightarrow> refresh_step s (set_stream k (Selecting c) (s\<lparr>rf_server := srv\<rparr>))"
| stream_ends: "fmlookup (rf_streams s) k = Some (Selecting c) \<Longrightarrow> refresh_step s (set_stream k (Unsubscribing True) s)"
| unsubscribed: "fmlookup (rf_streams s) k = Some (Unsubscribing exit)
    \<Longrightarrow> refresh_step s (set_stream k (if exit then Removing else Subscribing) s)"
| remove_chan: "fmlookup (rf_streams s) k = Some Removing \<Longrightarrow> rf_refreshes s = []
    \<Longrightarrow> refresh_step s (set_stream k Finished (s\<lparr>rf_server := remove_refresh_chan k (rf_server s)\<rparr>))"
| refresh_begins: "enumerates ks (srv_refresh_channels (rf_server s))
    \<Longrightarrow> refresh_step s (s\<lparr>rf_refreshes := rf_refreshes s @ [channels_of ks (rf_server s)]\<rparr>)"
| refresh_sends: "rf_refreshes s = as @ (c # cs) # bs \<Longrightarrow> fmlookup (rf_streams s) k = Some (Selecting c)
    \<Longrightarrow> refresh_step s (set_stream k (Unsubscribing False) (s\<lparr>rf_refreshes := as @ cs # bs\<rparr>))"
| refresh_ends: "rf_refreshes s = as @ [] # bs \<Longrightarrow> refresh_step s (s\<lparr>rf_refreshes := as @ bs\<rparr>)"

inductive_cases refresh_stepE: "refresh_step s t"

lemma set_stream_simps [simp]:
  "rf_streams (set_stream k pc s) = fmupd k pc (rf_streams s)"
  "rf_server (set_stream k pc s) = rf_server s"
  "rf_refreshes (set_stream k pc s) = rf_refreshes s"
  by (simp_all add: set_stream_def)

section \<open>The invariant of the channel table\<close>

text \<open>A stream selects on the channel of its own entry; no two entries share a channel.\<close>

definition chan_inv :: "refresh_state \<Rightarrow> bool" where
  "chan_inv s \<longleftrightarrow>
     (\<forall>k c. fmlookup (rf_streams s) k = Some (Selecting c) \<longrightarrow>
        fmlookup (srv_refresh_channels (rf_server s)) k = Some c)
     \<and> (\<forall>k c. fmlookup (srv_refresh_channels (rf_server s)) k = Some c \<longrightarrow> c < srv_next_chan (rf_server s))
     \<and> (\<forall>j k c. fmlookup (srv_refresh_channels (rf_server s)) j = Some c \<longrightarrow>
          fmlookup (srv_refresh_channels (rf_server s)) k = Some c \<longrightarrow> j = k)"

lemma chan_inv_step:
  assumes "chan_inv s" and "refresh_step s t"
  shows "chan_inv t"
  using assms(2)
proof cases
  case (get_chan k c srv)
  show ?thesis
  proof (cases "fmlookup (srv_refresh_channels (rf_server s)) k")
    case None
    with get_chan(4) have "c = srv_next_chan (rf_server s)"
      and "srv = (rf_server s)\<lparr>srv_refresh_channels := fmupd k c (srv_refresh_channels (rf_server s)),
        srv_next_chan := Suc c\<rparr>"
      by (auto simp: get_refresh_chan_def Let_def)
    with assms(1) None show ?thesis
      unfolding get_chan(1) chan_inv_def by (auto simp: less_Suc_eq)
  next
    case (Some c')
    with get_chan(4) assms(1) show ?thesis
      unfolding get_chan(1) chan_inv_def by (auto simp: get_refresh_chan_def)
  qed
qed (use assms(1) in \<open>auto simp: chan_inv_def remove_refresh_chan_def split: if_splits\<close>)

interpretation channels: invariant_system refresh_step chan_inv refresh_init
proof
  show "chan_inv t" if "chan_inv s" "refresh_step s t" for s t using that by (rule chan_inv_step)
  show "chan_inv s" if "refresh_init s" for s
    using that by (simp add: chan_inv_def refresh_init_def new_rusi_server_def)
qed

section \<open>Blocking\<close>

text \<open>
  A refresh has to send to a stream that waits for the write lock: at \<^verbatim>\<open>getRefreshChan\<close>, on its way to
  the next \<^verbatim>\<open>select\<close>, or at \<^verbatim>\<open>removeRefreshChan\<close>, after its last one.
\<close>

definition refresh_deadlock :: "string \<Rightarrow> nat \<Rightarrow> nat list \<Rightarrow> stream_pc \<Rightarrow> refresh_state \<Rightarrow> bool" where
  "refresh_deadlock k c cs pc s \<longleftrightarrow>
     (c # cs) \<in> set (rf_refreshes s)
     \<and> fmlookup (rf_streams s) k = Some pc \<and> (pc = GetChan \<or> pc = Removing)
     \<and> (\<forall>j. fmlookup (rf_streams s) j \<noteq> Some (Selecting c))"

lemma refresh_deadlock_step:
  assumes "refresh_deadlock k c cs pc s" and "refresh_step s t"
  shows "refresh_deadlock k c cs pc t"
  using assms(2)
proof cases
  case (refresh_sends as c' cs' bs j)
  with assms(1) have "c' \<noteq> c" by (auto simp: refresh_deadlock_def)
  with assms(1) refresh_sends show ?thesis by (auto simp: refresh_deadlock_def)
qed (use assms(1) in \<open>auto simp: refresh_deadlock_def split: if_splits\<close>)

interpretation refresh_deadlock: preserved refresh_step "refresh_deadlock k c cs pc"
  by unfold_locales (rule refresh_deadlock_step)

section \<open>One refresh serves every waiting stream\<close>

lemma refresh_sends_all:
  assumes "rf_refreshes s = [map (\<lambda>k. the (fmlookup ch k)) ks]" and "distinct ks"
    and "\<forall>k\<in>set ks. \<exists>c. fmlookup ch k = Some c \<and> fmlookup (rf_streams s) k = Some (Selecting c)"
  shows "\<exists>t. refresh_step\<^sup>*\<^sup>* s t \<and> rf_refreshes t = [] \<and> rf_server t = rf_server s
    \<and> (\<forall>k. fmlookup (rf_streams t) k =
          (if k \<in> set ks then Some (Unsubscribing False) else fmlookup (rf_streams s) k))"
  using assms
proof (induction ks arbitrary: s)
  case Nil
  then have "refresh_step s (s\<lparr>rf_refreshes := []\<rparr>)" using refresh_ends [of s "[]" "[]"] by simp
  then show ?case by (intro exI [of _ "s\<lparr>rf_refreshes := []\<rparr>"]) auto
next
  case (Cons k ks)
  obtain c where c: "fmlookup ch k = Some c" "fmlookup (rf_streams s) k = Some (Selecting c)"
    using Cons.prems(3) by auto
  let ?u = "set_stream k (Unsubscribing False) (s\<lparr>rf_refreshes := [map (\<lambda>k. the (fmlookup ch k)) ks]\<rparr>)"
  have step: "refresh_step s ?u"
    using refresh_sends [of s "[]" c "map (\<lambda>k. the (fmlookup ch k)) ks" "[]" k] Cons.prems(1) c by simp
  have "\<forall>j\<in>set ks. \<exists>c. fmlookup ch j = Some c \<and> fmlookup (rf_streams ?u) j = Some (Selecting c)"
    using Cons.prems(2,3) by auto
  with Cons.IH [of ?u] Cons.prems(2) obtain t where t: "refresh_step\<^sup>*\<^sup>* ?u t" "rf_refreshes t = []"
    "rf_server t = rf_server s"
    "\<forall>j. fmlookup (rf_streams t) j =
        (if j \<in> set ks then Some (Unsubscribing False) else fmlookup (rf_streams ?u) j)"
    by auto
  from step t(1) have "refresh_step\<^sup>*\<^sup>* s t" by (rule converse_rtranclp_into_rtranclp)
  with t(2-4) show ?case by (intro exI [of _ t]) auto
qed

section \<open>Properties\<close>

text \<open>C16: in every reachable state a stream selects on the channel the table holds for it, and no other
  stream selects on that channel: a refresh signal cannot be taken by another stream.\<close>

theorem refresh_channel_private:
  assumes "reachable refresh_init refresh_step s"
    and "fmlookup (rf_streams s) j = Some (Selecting c)"
  shows "fmlookup (srv_refresh_channels (rf_server s)) j = Some c
    \<and> (fmlookup (rf_streams s) k = Some (Selecting c) \<longrightarrow> k = j)"
  using channels.inv_reachable [OF assms(1)] assms(2) unfolding chan_inv_def by metis

text \<open>C17: when every stream of the table waits in its select, a refresh can run to its end, in any order
  of the table, and makes exactly those streams unsubscribe and subscribe again; the table is unchanged.\<close>

theorem refresh_restarts_all:
  assumes "rf_refreshes s = []" and "enumerates ks (srv_refresh_channels (rf_server s))"
    and "\<forall>k\<in>set ks. \<exists>c. fmlookup (srv_refresh_channels (rf_server s)) k = Some c
      \<and> fmlookup (rf_streams s) k = Some (Selecting c)"
  shows "\<exists>t. refresh_step\<^sup>*\<^sup>* s t \<and> rf_refreshes t = [] \<and> rf_server t = rf_server s
    \<and> (\<forall>k. fmlookup (rf_streams t) k =
          (if k \<in> set ks then Some (Unsubscribing False) else fmlookup (rf_streams s) k))"
proof -
  let ?u = "s\<lparr>rf_refreshes := [channels_of ks (rf_server s)]\<rparr>"
  have begin1: "refresh_step s ?u" using refresh_begins [OF assms(2)] assms(1) by simp
  have "distinct ks" using assms(2) by (rule enumerates_distinct)
  with refresh_sends_all [of ?u "srv_refresh_channels (rf_server s)" ks] assms(3)
  obtain t where "refresh_step\<^sup>*\<^sup>* ?u t" "rf_refreshes t = []" "rf_server t = rf_server s"
    "\<forall>k. fmlookup (rf_streams t) k =
        (if k \<in> set ks then Some (Unsubscribing False) else fmlookup (rf_streams s) k)"
    by (auto simp: channels_of_def)
  with begin1 show ?thesis by (meson converse_rtranclp_into_rtranclp)
qed

text \<open>C36: when a refresh has to send to a stream that itself waits for the write lock of the table,
  neither ever moves again: the refresh keeps the read lock, and no other stream gets or removes a
  channel.\<close>

theorem refresh_deadlock_permanent:
  assumes "refresh_deadlock k c cs pc s" and "refresh_step\<^sup>*\<^sup>* s t"
  shows "fmlookup (rf_streams t) k = Some pc \<and> (c # cs) \<in> set (rf_refreshes t)"
  using refresh_deadlock.inv_steps [OF assms(2,1)] by (simp add: refresh_deadlock_def)

section \<open>Witnesses\<close>

definition one_stream :: "stream_pc \<Rightarrow> nat list list \<Rightarrow> refresh_state" where
  "one_stream pc rs =
     \<lparr>rf_streams = fmupd ''a'' pc fmempty,
      rf_server = \<lparr>srv_refresh_channels = fmupd ''a'' 0 fmempty, srv_next_chan = 1\<rparr>,
      rf_refreshes = rs\<rparr>"

lemma fmupd_twice [simp]: "fmupd k x (fmupd k y m) = fmupd k x m"
  by (rule fmap_ext) simp

lemma set_one_stream [simp]: "set_stream ''a'' pc (one_stream pc' rs) = one_stream pc rs"
  by (simp add: set_stream_def one_stream_def)

lemma one_stream_fields [simp]:
  "rf_streams (one_stream pc rs) = fmupd ''a'' pc fmempty"
  "rf_server (one_stream pc rs) = \<lparr>srv_refresh_channels = fmupd ''a'' 0 fmempty, srv_next_chan = 1\<rparr>"
  "rf_refreshes (one_stream pc rs) = rs"
  "one_stream pc rs\<lparr>rf_refreshes := rs'\<rparr> = one_stream pc rs'"
  by (simp_all add: one_stream_def)

lemma one_stream_enumerates: "enumerates [''a''] (fmupd ''a'' (0::nat) fmempty)"
  by (simp add: enumerates_def)

abbreviation reachable_refresh :: "refresh_state \<Rightarrow> bool" where
  "reachable_refresh \<equiv> reachable refresh_init refresh_step"

lemma one_stream_selecting: "reachable_refresh (one_stream (Selecting 0) [])"
proof -
  let ?s0 = "\<lparr>rf_streams = fmempty, rf_server = new_rusi_server, rf_refreshes = []\<rparr>"
  let ?s2 = "set_stream ''a'' GetChan (set_stream ''a'' Subscribing ?s0)"
  have "reachable_refresh ?s0" by (rule reachable_init) (simp add: refresh_init_def)
  then have "reachable_refresh (set_stream ''a'' Subscribing ?s0)" by (rule reachable_step) (rule start, simp)
  then have "reachable_refresh ?s2" by (rule reachable_step) (rule subscribed, simp)
  moreover have "get_refresh_chan ''a'' (rf_server ?s2)
      = (0, \<lparr>srv_refresh_channels = fmupd ''a'' 0 fmempty, srv_next_chan = 1\<rparr>)"
    by (simp add: get_refresh_chan_def new_rusi_server_def)
  then have "refresh_step ?s2 (set_stream ''a'' (Selecting 0)
      (?s2\<lparr>rf_server := \<lparr>srv_refresh_channels = fmupd ''a'' 0 fmempty, srv_next_chan = 1\<rparr>\<rparr>))"
    by (intro get_chan) simp_all
  moreover have "set_stream ''a'' (Selecting 0)
      (?s2\<lparr>rf_server := \<lparr>srv_refresh_channels = fmupd ''a'' 0 fmempty, srv_next_chan = 1\<rparr>\<rparr>)
    = one_stream (Selecting 0) []"
    by (simp add: set_stream_def one_stream_def)
  ultimately show ?thesis by (metis reachable_step)
qed

theorem refresh_channel_private_witness:
  "fmlookup (srv_refresh_channels (rf_server (one_stream (Selecting 0) []))) ''a'' = Some 0"
  using refresh_channel_private [OF one_stream_selecting, of "''a''" 0] by simp

theorem refresh_restarts_all_witness:
  "\<exists>t. refresh_step\<^sup>*\<^sup>* (one_stream (Selecting 0) []) t \<and> rf_refreshes t = []
     \<and> fmlookup (rf_streams t) ''a'' = Some (Unsubscribing False)"
  using refresh_restarts_all [of "one_stream (Selecting 0) []" "[''a'']"] one_stream_enumerates by auto

lemma refresh_begin_one: "refresh_step (one_stream pc []) (one_stream pc [[0]])"
  using refresh_begins [of "[''a'']" "one_stream pc []"] one_stream_enumerates
  by (simp add: channels_of_def)

lemma second_refresh_deadlocks: "reachable_refresh (one_stream GetChan [[0]])"
proof -
  note one_stream_selecting
  then have "reachable_refresh (one_stream (Selecting 0) [[0]])"
    by (rule reachable_step) (rule refresh_begin_one)
  then have "reachable_refresh (one_stream (Unsubscribing False) [[]])"
    by (rule reachable_step)
      (use refresh_sends [of "one_stream (Selecting 0) [[0]]" "[]" 0 "[]" "[]" "''a''"] in simp)
  then have "reachable_refresh (one_stream (Unsubscribing False) [])"
    by (rule reachable_step)
      (use refresh_ends [of "one_stream (Unsubscribing False) [[]]" "[]" "[]"] in simp)
  then have "reachable_refresh (one_stream (Unsubscribing False) [[0]])"
    by (rule reachable_step) (rule refresh_begin_one)
  then have "reachable_refresh (one_stream Subscribing [[0]])"
    by (rule reachable_step)
      (use unsubscribed [of "one_stream (Unsubscribing False) [[0]]" "''a''" False] in simp)
  then show ?thesis
    by (rule reachable_step) (use subscribed [of "one_stream Subscribing [[0]]" "''a''"] in simp)
qed

text \<open>Two refreshes in a row reach the deadlock: the second begins while the stream the first restarted
  is still on its way to its next select.\<close>

theorem refresh_deadlock_permanent_witness:
  "\<exists>s. reachable_refresh s \<and> refresh_deadlock ''a'' 0 [] GetChan s
     \<and> (\<forall>t. refresh_step\<^sup>*\<^sup>* s t \<longrightarrow> fmlookup (rf_streams t) ''a'' = Some GetChan)"
proof -
  have dead: "refresh_deadlock ''a'' 0 [] GetChan (one_stream GetChan [[0]])"
    by (auto simp: refresh_deadlock_def)
  then have "\<forall>t. refresh_step\<^sup>*\<^sup>* (one_stream GetChan [[0]]) t \<longrightarrow> fmlookup (rf_streams t) ''a'' = Some GetChan"
    using refresh_deadlock_permanent [OF dead] by blast
  with second_refresh_deadlocks dead show ?thesis by blast
qed

end
