(* ===== verification/Serdes.thy ===== *)
theory Serdes
  imports Messaging
begin

text \<open>
  \<^verbatim>\<open>pkg/messaging/serdes/serdes.go\<close>.  The JSON library is another module: \<open>decode\<close> is its
  \<^verbatim>\<open>Unmarshal\<close> into \<^verbatim>\<open>internalMessageEnvelope\<close>, from the struct it gets to the struct it leaves.  The
  outer \<^verbatim>\<open>Headers\<close> field hides the one of the embedded envelope, which decoding therefore leaves alone.
  \<open>sprint\<close> is \<^verbatim>\<open>fmt.Sprintf\<close> with \<^verbatim>\<open>%v\<close>.
\<close>

record internal_message_envelope =
  ime_message_envelope :: envelope
  ime_headers :: "(string, json) fmap"

definition header_text :: "(json \<Rightarrow> string) \<Rightarrow> json \<Rightarrow> string" where
  "header_text sprint v = (if v \<noteq> VNull then sprint v else [])"

definition unmarshal_message_envelope ::
    "('d \<Rightarrow> internal_message_envelope \<Rightarrow> error option \<times> internal_message_envelope)
     \<Rightarrow> (json \<Rightarrow> string) \<Rightarrow> 'd \<Rightarrow> envelope \<times> error option" where
  "unmarshal_message_envelope decode sprint data =
     (case decode data
         \<lparr>ime_message_envelope = empty_envelope\<lparr>env_headers := Some fmempty\<rparr>, ime_headers = fmempty\<rparr> of
        (Some e, env) \<Rightarrow> (ime_message_envelope env, Some e)
      | (None, env) \<Rightarrow>
          ((ime_message_envelope env)\<lparr>env_headers := Some (fmmap (header_text sprint) (ime_headers env))\<rparr>, None))"

text \<open>A decoded envelope has a header map, with a text for every header, a null one included.\<close>

lemma unmarshal_headers:
  assumes "unmarshal_message_envelope decode sprint data = (env, None)"
  shows "\<exists>hs. env_headers env = Some (fmmap (header_text sprint) hs)"
  using assms by (auto simp: unmarshal_message_envelope_def split: prod.splits option.splits)

section \<open>Round trip\<close>

text \<open>
  What the JSON library promises for an envelope it can represent: \<^verbatim>\<open>MarshalMessageEnvelope\<close> is its
  \<^verbatim>\<open>Marshal\<close>, and decoding the bytes gives every field back, the headers into the outer map.  \<open>sprint\<close>
  prints a text as it is.
\<close>

definition header_map :: "envelope \<Rightarrow> smap" where
  "header_map env = (case env_headers env of None \<Rightarrow> fmempty | Some f \<Rightarrow> f)"

definition json_keeps :: "(envelope \<Rightarrow> error + 'd)
    \<Rightarrow> ('d \<Rightarrow> internal_message_envelope \<Rightarrow> error option \<times> internal_message_envelope) \<Rightarrow> envelope \<Rightarrow> bool" where
  "json_keeps marshal decode env \<longleftrightarrow>
     (\<forall>d start. marshal env = Inr d \<longrightarrow>
        decode d start =
          (None, \<lparr>ime_message_envelope = env\<lparr>env_headers := env_headers (ime_message_envelope start)\<rparr>,
                  ime_headers = fmmap VStr (header_map env)\<rparr>))"

text \<open>An envelope survives the wire; only a nil header map becomes an empty one.\<close>

lemma envelope_roundtrip:
  assumes "json_keeps marshal decode env" and "\<forall>s. sprint (VStr s) = s" and "marshal env = Inr d"
  shows "unmarshal_message_envelope decode sprint d = (env\<lparr>env_headers := Some (header_map env)\<rparr>, None)"
proof -
  have "header_text sprint \<circ> VStr = (\<lambda>s. s)" using assms(2) by (auto simp: header_text_def)
  then have "fmmap (header_text sprint) (fmmap VStr m) = m" for m :: smap
    by (intro fmap_ext) (simp add: option.map_comp option.map_ident)
  with assms(1,3) show ?thesis by (simp add: json_keeps_def unmarshal_message_envelope_def)
qed

end
