(* ===== verification/Nats.thy ===== *)
theory Nats
  imports Serdes Healthcheck
begin

text \<open>
  The NATS Streaming broker (\<^verbatim>\<open>pkg/messaging/nats/nats.go\<close>, \<^verbatim>\<open>options.go\<close>): its metadata, the options of
  a subscription, the message handler, and the health of the connection.  The client library is another
  module: its connection is the record \<open>stan_conn\<close> of operations.  \<open>parse_duration\<close> and \<open>parse_time\<close>
  are \<^verbatim>\<open>time.ParseDuration\<close> and \<^verbatim>\<open>time.Parse\<close>; a duration counts nanoseconds.
\<close>

section \<open>Constants\<close>

text \<open>The keys of the metadata of the component.\<close>

abbreviation (input) nats_url_key :: string where "nats_url_key \<equiv> ''natsURL''"
abbreviation (input) nats_cluster_id_key :: string where "nats_cluster_id_key \<equiv> ''natsStreamingClusterID''"
abbreviation (input) nats_durable_subscription_name_key :: string where
  "nats_durable_subscription_name_key \<equiv> ''durableSubscriptionName''"
abbreviation (input) nats_start_at_sequence_key :: string where
  "nats_start_at_sequence_key \<equiv> ''startAtSequence''"
abbreviation (input) nats_start_with_last_received_key :: string where
  "nats_start_with_last_received_key \<equiv> ''startWithLastReceived''"
abbreviation (input) nats_deliver_all_key :: string where "nats_deliver_all_key \<equiv> ''deliverAll''"
abbreviation (input) nats_deliver_new_key :: string where "nats_deliver_new_key \<equiv> ''deliverNew''"
abbreviation (input) nats_start_at_time_delta_key :: string where
  "nats_start_at_time_delta_key \<equiv> ''startAtTimeDelta''"
abbreviation (input) nats_start_at_time_key :: string where "nats_start_at_time_key \<equiv> ''startAtTime''"
abbreviation (input) nats_start_at_time_format_key :: string where
  "nats_start_at_time_format_key \<equiv> ''startAtTimeFormat''"
abbreviation (input) nats_ack_wait_time_key :: string where "nats_ack_wait_time_key \<equiv> ''ackWaitTime''"
abbreviation (input) nats_max_in_flight_key :: string where "nats_max_in_flight_key \<equiv> ''maxInFlight''"
abbreviation (input) nats_connect_wait_key :: string where "nats_connect_wait_key \<equiv> ''connectWait''"
abbreviation (input) nats_consumer_id_key :: string where "nats_consumer_id_key \<equiv> ''consumerID''"
abbreviation (input) nats_subscription_type_key :: string where
  "nats_subscription_type_key \<equiv> ''subscriptionType''"

section \<open>Options\<close>

record nats_options =
  no_nats_url :: string
  no_cluster_id :: string
  no_subscription_type :: string
  no_queue_group_name :: string
  no_durable_name :: string
  no_start_at_sequence :: "64 word"
  no_start_with_last_received :: string
  no_deliver_new :: string
  no_deliver_all :: string
  no_start_at_time_delta :: int
  no_connect_wait :: int
  no_start_at_time :: string
  no_start_at_time_format :: string
  no_ack_wait_time :: int
  no_max_in_flight :: "64 word"

definition no_nats_options :: nats_options where
  "no_nats_options =
     \<lparr>no_nats_url = [], no_cluster_id = [], no_subscription_type = [], no_queue_group_name = [],
      no_durable_name = [], no_start_at_sequence = 0, no_start_with_last_received = [],
      no_deliver_new = [], no_deliver_all = [], no_start_at_time_delta = 0, no_connect_wait = 0,
      no_start_at_time = [], no_start_at_time_format = [], no_ack_wait_time = 0, no_max_in_flight = 0\<rparr>"

definition subscription_type_queue :: string where "subscription_type_queue = ''queue''"
definition subscription_type_topic :: string where "subscription_type_topic = ''topic''"

definition nats_error :: "string \<Rightarrow> error" where
  "nats_error text = ErrText (''nats-streaming error: '' @ text)"

text \<open>The compulsory properties and those that may be combined.\<close>

definition parse_nats_connection :: "gomap \<Rightarrow> nats_options \<Rightarrow> error + nats_options" where
  "parse_nats_connection properties m =
     (case gomap_nonempty properties nats_url_key of
        None \<Rightarrow> Inl (nats_error ''missing nats URL'')
      | Some url \<Rightarrow>
          (case gomap_nonempty properties nats_cluster_id_key of
             None \<Rightarrow> Inl (nats_error ''missing nats streaming cluster ID'')
           | Some cluster \<Rightarrow> Inr (m\<lparr>no_nats_url := url, no_cluster_id := cluster\<rparr>)))"

definition parse_nats_subscription_type :: "gomap \<Rightarrow> nats_options \<Rightarrow> error + nats_options" where
  "parse_nats_subscription_type properties m =
     (case gomap_get properties nats_subscription_type_key of
        None \<Rightarrow> Inr m
      | Some v \<Rightarrow>
          (if v = subscription_type_topic \<or> v = subscription_type_queue
           then Inr (m\<lparr>no_subscription_type := v\<rparr>)
           else Inl (nats_error ''valid value for subscriptionType is topic or queue'')))"

definition parse_nats_consumer :: "gomap \<Rightarrow> nats_options \<Rightarrow> error + nats_options" where
  "parse_nats_consumer properties m =
     (case gomap_nonempty properties nats_consumer_id_key of
        None \<Rightarrow> Inl (nats_error ''missing queue group name'')
      | Some v \<Rightarrow>
          (let m = m\<lparr>no_queue_group_name := v\<rparr> in
           case gomap_nonempty properties nats_durable_subscription_name_key of
             None \<Rightarrow> Inr m
           | Some d \<Rightarrow> Inr (m\<lparr>no_durable_name := d\<rparr>)))"

definition parse_nats_ack_wait :: "(string \<Rightarrow> error + int) \<Rightarrow> gomap \<Rightarrow> nats_options \<Rightarrow> error + nats_options" where
  "parse_nats_ack_wait parse_duration properties m =
     (case gomap_nonempty properties nats_ack_wait_time_key of
        None \<Rightarrow> Inr m
      | Some v \<Rightarrow>
          (case parse_duration v of
             Inl e \<Rightarrow> Inl (ErrFmt ''nats-streaming error '' e)
           | Inr dur \<Rightarrow> Inr (m\<lparr>no_ack_wait_time := dur\<rparr>)))"

definition parse_nats_max_in_flight :: "gomap \<Rightarrow> nats_options \<Rightarrow> error + nats_options" where
  "parse_nats_max_in_flight properties m =
     (case gomap_nonempty properties nats_max_in_flight_key of
        None \<Rightarrow> Inr m
      | Some v \<Rightarrow>
          (case parse_uint 64 v of
             Inl e \<Rightarrow> Inl (ErrFmt ''nats-streaming error in parsemetadata for maxInFlight: '' e)
           | Inr n \<Rightarrow>
               (if n < 1 then Inl (nats_error ''maxInFlight should be equal to or more than 1'')
                else Inr (m\<lparr>no_max_in_flight := of_nat n\<rparr>))))"

text \<open>The chain of which only the first present property counts; \<^verbatim>\<open>connectWait\<close> is part of it.\<close>

definition parse_nats_start :: "(string \<Rightarrow> error + int) \<Rightarrow> gomap \<Rightarrow> nats_options \<Rightarrow> error + nats_options" where
  "parse_nats_start parse_duration properties m =
     (case gomap_nonempty properties nats_start_at_sequence_key of
        Some v \<Rightarrow>
          (case parse_uint 64 v of
             Inl e \<Rightarrow> Inl (ErrFmt ''nats-streaming error '' e)
           | Inr n \<Rightarrow>
               (if n < 1 then Inl (nats_error ''startAtSequence should be equal to or more than 1'')
                else Inr (m\<lparr>no_start_at_sequence := of_nat n\<rparr>)))
      | None \<Rightarrow>
     (case gomap_get properties nats_start_with_last_received_key of
        Some v \<Rightarrow>
          (if v = ''true'' then Inr (m\<lparr>no_start_with_last_received := v\<rparr>)
           else Inl (nats_error ''valid value for startWithLastReceived is true''))
      | None \<Rightarrow>
     (case gomap_get properties nats_deliver_all_key of
        Some v \<Rightarrow>
          (if v = ''true'' then Inr (m\<lparr>no_deliver_all := v\<rparr>)
           else Inl (nats_error ''valid value for deliverAll is true''))
      | None \<Rightarrow>
     (case gomap_get properties nats_deliver_new_key of
        Some v \<Rightarrow>
          (if v = ''true'' then Inr (m\<lparr>no_deliver_new := v\<rparr>)
           else Inl (nats_error ''valid value for deliverNew is true''))
      | None \<Rightarrow>
     (case gomap_nonempty properties nats_start_at_time_delta_key of
        Some v \<Rightarrow>
          (case parse_duration v of
             Inl e \<Rightarrow> Inl (ErrFmt ''nats-streaming error '' e)
           | Inr dur \<Rightarrow> Inr (m\<lparr>no_start_at_time_delta := dur\<rparr>))
      | None \<Rightarrow>
     (case gomap_nonempty properties nats_connect_wait_key of
        Some v \<Rightarrow>
          (case parse_duration v of
             Inl e \<Rightarrow> Inl (ErrFmt ''nats-streaming error '' e)
           | Inr dur \<Rightarrow> Inr (m\<lparr>no_connect_wait := dur\<rparr>))
      | None \<Rightarrow>
     (case gomap_nonempty properties nats_start_at_time_key of
        Some v \<Rightarrow>
          (case gomap_nonempty properties nats_start_at_time_format_key of
             Some f \<Rightarrow> Inr (m\<lparr>no_start_at_time := v, no_start_at_time_format := f\<rparr>)
           | None \<Rightarrow> Inl (nats_error ''missing value for startAtTimeFormat''))
      | None \<Rightarrow> Inr m)))))))"

text \<open>\<open>default_wait\<close> is \<^verbatim>\<open>stan.DefaultConnectWait\<close>.  The options returned beside an error are not used.\<close>

definition parse_nats_streaming_metadata :: "int \<Rightarrow> (string \<Rightarrow> error + int) \<Rightarrow> gomap \<Rightarrow> error + nats_options" where
  "parse_nats_streaming_metadata default_wait parse_duration properties =
     try_then (parse_nats_connection properties (no_nats_options\<lparr>no_connect_wait := default_wait\<rparr>))
       (\<lambda>m. try_then (parse_nats_subscription_type properties m)
         (\<lambda>m. try_then (parse_nats_consumer properties m)
           (\<lambda>m. try_then (parse_nats_ack_wait parse_duration properties m)
             (\<lambda>m. try_then (parse_nats_max_in_flight properties m)
               (\<lambda>m. parse_nats_start parse_duration properties m)))))"

definition merge_durable :: "bool option \<Rightarrow> nats_options \<Rightarrow> nats_options" where
  "merge_durable durable m =
     (case durable of
        None \<Rightarrow> m
      | Some d \<Rightarrow>
          (if d then (if no_durable_name m = [] then m\<lparr>no_durable_name := ''durable''\<rparr> else m)
           else m\<lparr>no_durable_name := []\<rparr>))"

definition merge_qgroup :: "bool option \<Rightarrow> nats_options \<Rightarrow> error + nats_options" where
  "merge_qgroup qgroup m =
     (case qgroup of
        None \<Rightarrow> Inr m
      | Some q \<Rightarrow>
          (if q then
             (if no_queue_group_name m = [] then Inl (nats_error ''missing queue group name'')
              else Inr (m\<lparr>no_subscription_type := subscription_type_queue\<rparr>))
           else Inr (m\<lparr>no_queue_group_name := [], no_subscription_type := subscription_type_topic\<rparr>)))"

definition merge_deliver :: "bool option \<Rightarrow> nats_options \<Rightarrow> nats_options" where
  "merge_deliver deliver m =
     (case deliver of
        None \<Rightarrow> m
      | Some b \<Rightarrow> (if b then m\<lparr>no_deliver_new := ''true''\<rparr> else m\<lparr>no_deliver_all := ''true''\<rparr>))"

text \<open>The conversion \<^verbatim>\<open>uint64(int32)\<close> extends the sign.\<close>

definition nats_merge_options :: "nats_options \<Rightarrow> subscription_options option \<Rightarrow> error + nats_options" where
  "nats_merge_options global subscription =
     (case subscription of
        None \<Rightarrow> Inr global
      | Some so \<Rightarrow>
          try_then (merge_qgroup (so_qgroup so) (merge_durable (so_durable so) global))
            (\<lambda>m. let m = (case so_max_concurrent so of None \<Rightarrow> m | Some n \<Rightarrow> m\<lparr>no_max_in_flight := scast n\<rparr>);
                     m = merge_deliver (so_deliver_new so) m
                 in Inr (case so_ack_wait so of None \<Rightarrow> m | Some d \<Rightarrow> m\<lparr>no_ack_wait_time := d\<rparr>)))"

section \<open>The options of the client library\<close>

datatype stan_option =
    DurableName string
  | StartAtNewOnly
  | StartAtSequence "64 word"
  | StartWithLastReceived
  | DeliverAllAvailable
  | StartAtTimeDelta int
  | StartAtTime int
  | SetManualAckMode
  | AckWait int
  | MaxInflight int

definition stan_start :: "(string \<Rightarrow> string \<Rightarrow> error + int) \<Rightarrow> nats_options \<Rightarrow> error + stan_option list" where
  "stan_start parse_time opts =
     (if no_deliver_new opts = ''true'' then Inr [StartAtNewOnly]
      else if no_start_at_sequence opts \<ge> 1 then Inr [StartAtSequence (no_start_at_sequence opts)]
      else if no_start_with_last_received opts = ''true'' then Inr [StartWithLastReceived]
      else if no_deliver_all opts = ''true'' then Inr [DeliverAllAvailable]
      else if no_start_at_time_delta opts > 1 then Inr [StartAtTimeDelta (no_start_at_time_delta opts)]
      else if no_start_at_time opts \<noteq> [] then
        (if no_start_at_time_format opts \<noteq> []
         then try_then (parse_time (no_start_at_time_format opts) (no_start_at_time opts)) (\<lambda>t. Inr [StartAtTime t])
         else Inr [])
      else Inr [])"

definition stan_subscription_options :: "(string \<Rightarrow> string \<Rightarrow> error + int) \<Rightarrow> nats_options
    \<Rightarrow> error + stan_option list" where
  "stan_subscription_options parse_time opts =
     try_then (stan_start parse_time opts)
       (\<lambda>start.
          Inr ((if no_durable_name opts \<noteq> [] then [DurableName (no_durable_name opts)] else [])
               @ start @ [SetManualAckMode]
               @ (if no_ack_wait_time opts > 1 then [AckWait (no_ack_wait_time opts)] else [])
               @ (if no_max_in_flight opts \<ge> 1 then [MaxInflight (sint (no_max_in_flight opts))] else [])))"

section \<open>The connection\<close>

record stan_msg =
  sm_subject :: string
  sm_data :: string
  sm_sequence :: "64 word"

text \<open>
  \<open>sc_connected\<close> answers \<^term>\<open>None\<close> when there is no underlying connection object.  A subscription is a
  number; the client library may answer neither an error nor a subscription.
\<close>

record ('c, 'w) stan_client =
  sc_connect :: "string \<Rightarrow> string \<Rightarrow> string \<Rightarrow> int \<Rightarrow> 'w \<Rightarrow> (error + 'c) \<times> 'w"
  sc_publish :: "'c \<Rightarrow> string \<Rightarrow> string \<Rightarrow> 'w \<Rightarrow> error option \<times> 'w"
  sc_subscribe :: "'c \<Rightarrow> string \<Rightarrow> (stan_msg \<Rightarrow> 'w \<Rightarrow> bool \<times> 'w) \<Rightarrow> stan_option list \<Rightarrow> 'w
     \<Rightarrow> (error option \<times> nat option) \<times> 'w"
  sc_queue_subscribe :: "'c \<Rightarrow> string \<Rightarrow> string \<Rightarrow> (stan_msg \<Rightarrow> 'w \<Rightarrow> bool \<times> 'w) \<Rightarrow> stan_option list \<Rightarrow> 'w
     \<Rightarrow> (error option \<times> nat option) \<times> 'w"
  sc_close :: "'c \<Rightarrow> 'w \<Rightarrow> error option \<times> 'w"
  sc_connected :: "'c \<Rightarrow> bool option"

record 'c nats_pubsub =
  np_options :: nats_options
  np_conn :: "'c option"
  np_closed :: bool
  np_ctx_cancelled :: bool

definition new_nats_streaming_pubsub :: "'c nats_pubsub" where
  "new_nats_streaming_pubsub =
     \<lparr>np_options = no_nats_options, np_conn = None, np_closed = False, np_ctx_cancelled = False\<rparr>"

definition client_id_inputs :: string where
  "client_id_inputs = ''ABCDEFGHIJKLMNOPQRSTUVWXYZ1234567890''"

text \<open>\<open>draws\<close> are the values of the random source.\<close>

definition gen_random_string :: "(nat \<Rightarrow> nat) \<Rightarrow> nat \<Rightarrow> string" where
  "gen_random_string draws n = map (\<lambda>i. client_id_inputs ! (draws i mod length client_id_inputs)) [0..<n]"

definition nats_init :: "('c, 'w) stan_client \<Rightarrow> int \<Rightarrow> (string \<Rightarrow> error + int) \<Rightarrow> (nat \<Rightarrow> nat) \<Rightarrow> gomap
    \<Rightarrow> 'c nats_pubsub \<Rightarrow> 'w \<Rightarrow> error option \<times> 'c nats_pubsub \<times> 'w" where
  "nats_init sc default_wait parse_duration draws properties n w =
     (case parse_nats_streaming_metadata default_wait parse_duration properties of
        Inl e \<Rightarrow> (Some e, n, w)
      | Inr m \<Rightarrow>
          (let n1 = n\<lparr>np_options := m\<rparr> in
           case sc_connect sc (no_cluster_id m) (gen_random_string draws 20) (no_nats_url m) (no_connect_wait m) w of
             (Inl e, w1) \<Rightarrow>
               (Some (ErrFmt (''nats-streaming: error connecting to nats streaming server '' @ no_cluster_id m @ '': '') e),
                n1, w1)
           | (Inr conn, w1) \<Rightarrow> (None, n1\<lparr>np_conn := Some conn, np_ctx_cancelled := False\<rparr>, w1)))"

text \<open>The connection-lost handler and the closed handler do the same.\<close>

definition nats_connection_closed :: "'c nats_pubsub \<Rightarrow> 'c nats_pubsub" where
  "nats_connection_closed n = n\<lparr>np_closed := True\<rparr>"

definition nats_is_healthy :: "('c, 'w) stan_client \<Rightarrow> 'c nats_pubsub \<Rightarrow> health_result" where
  "nats_is_healthy sc n =
     (let bad = \<lparr>hr_status = Unhealthy, hr_description = ''nats pubsub connection is closed''\<rparr> in
      if np_closed n then bad
      else case np_conn n of
          None \<Rightarrow> bad
        | Some c \<Rightarrow> (if sc_connected sc c \<noteq> Some True then bad else healthy_result))"

text \<open>\<^verbatim>\<open>Close\<close> cancels the context that \<^verbatim>\<open>Init\<close> made; without one it calls a nil function.\<close>

definition nats_close :: "('c, 'w) stan_client \<Rightarrow> 'c nats_pubsub \<Rightarrow> 'w \<Rightarrow> result \<times> 'c nats_pubsub \<times> 'w" where
  "nats_close sc n w =
     (case np_conn n of
        None \<Rightarrow> (Crash ''invalid memory address or nil pointer dereference'', n, w)
      | Some conn \<Rightarrow>
          (case sc_close sc conn w of
             (err, w1) \<Rightarrow>
               (case err of Some e \<Rightarrow> Fail e | None \<Rightarrow> Ok, n\<lparr>np_ctx_cancelled := True\<rparr>, w1)))"

section \<open>Messages\<close>

definition nats_publish :: "('c, 'w) stan_client \<Rightarrow> (envelope \<Rightarrow> error + string) \<Rightarrow> 'c \<Rightarrow> string \<Rightarrow> envelope
    \<Rightarrow> 'w \<Rightarrow> result \<times> 'w" where
  "nats_publish sc marshal conn topic msg w =
     (case marshal msg of
        Inl e \<Rightarrow> (Fail e, w)
      | Inr bytes \<Rightarrow>
          (case sc_publish sc conn topic bytes w of
             (Some e, w1) \<Rightarrow> (Fail (ErrFmt ''nats-streaming: error from publish: '' e), w1)
           | (None, w1) \<Rightarrow> (Ok, w1)))"

text \<open>
  The first result tells whether the message was acknowledged.  A message that cannot be decoded is
  handled all the same, with what decoding left in the envelope.
\<close>

definition nats_msg_handler :: "(string \<Rightarrow> internal_message_envelope \<Rightarrow> error option \<times> internal_message_envelope)
    \<Rightarrow> (json \<Rightarrow> string) \<Rightarrow> ('o, 'w) handler \<Rightarrow> 'o ctx \<Rightarrow> stan_msg \<Rightarrow> 'w \<Rightarrow> bool \<times> 'w" where
  "nats_msg_handler decode sprint handler c natsMsg w =
     (let msg = fst (unmarshal_message_envelope decode sprint (sm_data natsMsg));
          msg = (if env_id msg = [] then msg\<lparr>env_id := utoa (unat (sm_sequence natsMsg))\<rparr> else msg)
      in case handler c msg w of (r, msg1, w1) \<Rightarrow> (r = Ok, w1))"

definition nats_subscribe :: "('c, 'w) stan_client \<Rightarrow> (string \<Rightarrow> string \<Rightarrow> error + int)
    \<Rightarrow> (stan_msg \<Rightarrow> 'w \<Rightarrow> bool \<times> 'w) \<Rightarrow> 'c nats_pubsub \<Rightarrow> 'c \<Rightarrow> string \<Rightarrow> subscription_options option
    \<Rightarrow> 'w \<Rightarrow> (error + nat) \<times> 'w" where
  "nats_subscribe sc parse_time natsMsgHandler n conn topic options w =
     (case nats_merge_options (np_options n) options of
        Inl e \<Rightarrow> (Inl (ErrFmt ''nats-streaming: error getting subscription options '' e), w)
      | Inr mergedOptions \<Rightarrow>
          (case stan_subscription_options parse_time mergedOptions of
             Inl e \<Rightarrow> (Inl (ErrFmt ''nats-streaming: error getting stan subscription options '' e), w)
           | Inr stanOptions \<Rightarrow>
               (case (if no_subscription_type mergedOptions = subscription_type_topic
                      then sc_subscribe sc conn topic natsMsgHandler stanOptions w
                      else if no_subscription_type mergedOptions = subscription_type_queue
                      then sc_queue_subscribe sc conn topic (no_queue_group_name (np_options n)) natsMsgHandler stanOptions w
                      else ((None, None), w)) of
                  ((Some e, subs), w1) \<Rightarrow> (Inl (ErrFmt ''nats-streaming: subscribe error '' e), w1)
                | ((None, None), w1) \<Rightarrow> (Inl (ErrText ''nats-streaming: subscribe error %!s(<nil>)''), w1)
                | ((None, Some sub), w1) \<Rightarrow> (Inr sub, w1))))"

section \<open>Properties\<close>

text \<open>What \<^verbatim>\<open>subscriptionType\<close> and the start options can be after parsing.\<close>

definition start_options :: "nats_options \<Rightarrow> bool list" where
  "start_options m =
     [no_start_at_sequence m \<noteq> 0, no_start_with_last_received m \<noteq> [], no_deliver_all m \<noteq> [],
      no_deliver_new m \<noteq> [], no_start_at_time_delta m \<noteq> 0, no_start_at_time m \<noteq> []]"

fun is_start :: "stan_option \<Rightarrow> bool" where
  "is_start StartAtNewOnly \<longleftrightarrow> True"
| "is_start (StartAtSequence n) \<longleftrightarrow> True"
| "is_start StartWithLastReceived \<longleftrightarrow> True"
| "is_start DeliverAllAvailable \<longleftrightarrow> True"
| "is_start (StartAtTimeDelta d) \<longleftrightarrow> True"
| "is_start (StartAtTime t) \<longleftrightarrow> True"
| "is_start _ \<longleftrightarrow> False"

text \<open>How far each stage of the parser changes the options.\<close>

lemma parse_nats_connection_Inr:
  "parse_nats_connection properties m = Inr m' \<Longrightarrow>
     no_nats_url m' \<noteq> [] \<and> no_cluster_id m' \<noteq> [] \<and> no_subscription_type m' = no_subscription_type m
     \<and> start_options m' = start_options m"
  by (auto simp: parse_nats_connection_def gomap_nonempty_def start_options_def split: option.splits if_splits)

lemma parse_nats_subscription_type_Inr:
  "parse_nats_subscription_type properties m = Inr m' \<Longrightarrow>
     no_nats_url m' = no_nats_url m \<and> no_cluster_id m' = no_cluster_id m
     \<and> no_subscription_type m' \<in> {no_subscription_type m, subscription_type_topic, subscription_type_queue}
     \<and> start_options m' = start_options m"
  by (auto simp: parse_nats_subscription_type_def start_options_def split: option.splits if_splits)

lemma parse_nats_consumer_Inr:
  "parse_nats_consumer properties m = Inr m' \<Longrightarrow>
     no_nats_url m' = no_nats_url m \<and> no_cluster_id m' = no_cluster_id m
     \<and> no_subscription_type m' = no_subscription_type m \<and> no_queue_group_name m' \<noteq> []
     \<and> start_options m' = start_options m"
  by (auto simp: parse_nats_consumer_def gomap_nonempty_def start_options_def Let_def split: option.splits if_splits)

lemma parse_nats_ack_wait_Inr:
  "parse_nats_ack_wait parse_duration properties m = Inr m' \<Longrightarrow>
     no_nats_url m' = no_nats_url m \<and> no_cluster_id m' = no_cluster_id m
     \<and> no_subscription_type m' = no_subscription_type m \<and> no_queue_group_name m' = no_queue_group_name m
     \<and> start_options m' = start_options m"
  by (auto simp: parse_nats_ack_wait_def start_options_def split: option.splits sum.splits)

lemma parse_nats_max_in_flight_Inr:
  "parse_nats_max_in_flight properties m = Inr m' \<Longrightarrow>
     no_nats_url m' = no_nats_url m \<and> no_cluster_id m' = no_cluster_id m
     \<and> no_subscription_type m' = no_subscription_type m \<and> no_queue_group_name m' = no_queue_group_name m
     \<and> start_options m' = start_options m"
  by (auto simp: parse_nats_max_in_flight_def start_options_def split: option.split_asm sum.split_asm if_split_asm)

lemma parse_nats_start_Inr:
  assumes "parse_nats_start parse_duration properties m = Inr m'" and "\<not> (\<exists>b\<in>set (start_options m). b)"
  shows "no_nats_url m' = no_nats_url m \<and> no_cluster_id m' = no_cluster_id m
     \<and> no_subscription_type m' = no_subscription_type m \<and> no_queue_group_name m' = no_queue_group_name m
     \<and> length (filter (\<lambda>b. b) (start_options m')) \<le> 1"
proof -
  have z: "no_start_at_sequence m = 0" "no_start_with_last_received m = []" "no_deliver_all m = []"
    "no_deliver_new m = []" "no_start_at_time_delta m = 0" "no_start_at_time m = []"
    using assms(2) by (simp_all add: start_options_def)
  show ?thesis
    using assms(1) unfolding parse_nats_start_def
    by (simp split: option.split_asm sum.split_asm if_split_asm)
      (insert z, (hypsubst, simp add: start_options_def)+)
qed

text \<open>C31: metadata that parses names the server, the cluster and the queue group, has a subscription type
  that is absent, "topic" or "queue", and sets at most one of the six ways to choose the start of the
  subscription.\<close>

theorem nats_metadata_parsed:
  assumes "parse_nats_streaming_metadata default_wait parse_duration properties = Inr m"
  shows "no_nats_url m \<noteq> [] \<and> no_cluster_id m \<noteq> [] \<and> no_queue_group_name m \<noteq> []
    \<and> no_subscription_type m \<in> {[], subscription_type_topic, subscription_type_queue}
    \<and> length (filter (\<lambda>b. b) (start_options m)) \<le> 1"
proof -
  let ?m0 = "no_nats_options\<lparr>no_connect_wait := default_wait\<rparr>"
  obtain m1 m2 m3 m4 m5 where
    "parse_nats_connection properties ?m0 = Inr m1" "parse_nats_subscription_type properties m1 = Inr m2"
    "parse_nats_consumer properties m2 = Inr m3" "parse_nats_ack_wait parse_duration properties m3 = Inr m4"
    "parse_nats_max_in_flight properties m4 = Inr m5" and start: "parse_nats_start parse_duration properties m5 = Inr m"
    using assms unfolding parse_nats_streaming_metadata_def try_then_Inr by blast
  note stages = parse_nats_connection_Inr [OF this(1)] parse_nats_subscription_type_Inr [OF this(2)]
    parse_nats_consumer_Inr [OF this(3)] parse_nats_ack_wait_Inr [OF this(4)] parse_nats_max_in_flight_Inr [OF this(5)]
  then have "start_options m5 = start_options ?m0" by simp
  then have "\<not> (\<exists>b\<in>set (start_options m5). b)" by (simp add: start_options_def no_nats_options_def)
  from parse_nats_start_Inr [OF start this] stages show ?thesis by (auto simp: no_nats_options_def)
qed

lemma sint_scast_64: "sint (scast (n :: 32 word) :: 64 word) = sint n"
  by (rule sint_up_scast) (simp add: is_up)

lemma scast_64_eq_0: "(scast (n :: 32 word) :: 64 word) = 0 \<longleftrightarrow> n = 0"
proof
  assume "(scast n :: 64 word) = 0"
  then have "sint n = 0" using sint_scast_64 [of n] by simp
  then show "n = 0" by (metis signed_0 signed_word_eqI)
qed simp

lemma stan_start_Inr:
  "stan_start parse_time opts = Inr os \<Longrightarrow> os = [] \<or> (\<exists>x. os = [x] \<and> is_start x)"
  by (auto simp: stan_start_def try_then_Inr split: if_split_asm)

lemma nats_merge_max_in_flight:
  "nats_merge_options global (Some so) = Inr m \<Longrightarrow> so_max_concurrent so = Some n \<Longrightarrow> no_max_in_flight m = scast n"
  by (auto simp: nats_merge_options_def try_then_Inr merge_deliver_def Let_def split: option.split_asm if_split_asm)

text \<open>The options of a subscription put the client library into manual acknowledgement mode exactly
  once and carry at most one start position; the limit of messages in flight is the client's own
  32-bit number, a negative one included, and is left out only for zero.\<close>

theorem nats_subscription_limits:
  assumes "nats_merge_options global (Some so) = Inr m" and "so_max_concurrent so = Some n"
    and "stan_subscription_options parse_time m = Inr os"
  shows "count_list os SetManualAckMode = 1 \<and> length (filter is_start os) \<le> 1
    \<and> (\<forall>k. MaxInflight k \<in> set os \<longleftrightarrow> n \<noteq> 0 \<and> k = sint n)"
proof -
  obtain start where start: "stan_start parse_time m = Inr start"
    and os: "os = (if no_durable_name m \<noteq> [] then [DurableName (no_durable_name m)] else [])
      @ start @ [SetManualAckMode]
      @ (if no_ack_wait_time m > 1 then [AckWait (no_ack_wait_time m)] else [])
      @ (if no_max_in_flight m \<ge> 1 then [MaxInflight (sint (no_max_in_flight m))] else [])"
    using assms(3) by (auto simp: stan_subscription_options_def try_then_Inr)
  have n: "no_max_in_flight m = scast n" by (rule nats_merge_max_in_flight [OF assms(1,2)])
  have pos: "no_max_in_flight m \<ge> 1 \<longleftrightarrow> n \<noteq> 0"
    unfolding n scast_64_eq_0 [symmetric] by (simp add: word_le_nat_alt unat_gt_0 Suc_le_eq)
  show ?thesis
    using stan_start_Inr [OF start] unfolding os pos unfolding n sint_scast_64 by (auto simp: count_list_append)
qed

text \<open>
  Two consequences of how the options meet.  A subscription that asks for all messages still gets the new
  ones only when the component's metadata says so; and without a subscription type, in the metadata or
  through the subscription's options, every subscription fails.
\<close>

theorem nats_deliver_all_overruled:
  assumes "no_deliver_new global = ''true''" and "so_deliver_new so = Some False"
    and "nats_merge_options global (Some so) = Inr m"
    and "stan_subscription_options parse_time m = Inr os"
  shows "StartAtNewOnly \<in> set os \<and> DeliverAllAvailable \<notin> set os"
proof -
  have "no_deliver_new m = ''true''"
    using assms(1-3)
    by (auto simp: nats_merge_options_def try_then_Inr merge_deliver_def merge_qgroup_def merge_durable_def Let_def
        split: option.split_asm if_split_asm)
  with assms(4) show ?thesis by (auto simp: stan_subscription_options_def stan_start_def try_then_Inr)
qed

theorem nats_subscribe_without_type:
  assumes "no_subscription_type (np_options n) = []" and "case options of None \<Rightarrow> True | Some so \<Rightarrow> so_qgroup so = None"
  shows "\<exists>e. nats_subscribe sc parse_time h n conn topic options w = (Inl e, w)"
proof -
  have "no_subscription_type m = []" if "nats_merge_options (np_options n) options = Inr m" for m
    using assms that
    by (auto simp: nats_merge_options_def try_then_Inr merge_deliver_def merge_qgroup_def merge_durable_def Let_def
        split: option.split_asm if_split_asm)
  then show ?thesis
    by (auto simp: nats_subscribe_def subscription_type_topic_def subscription_type_queue_def split: sum.split)
qed

text \<open>A message is acknowledged exactly when its handler ends with nil.\<close>

lemma nats_acks_iff_ok:
  "fst (nats_msg_handler decode sprint handler c natsMsg w) \<longleftrightarrow>
     fst (handler c
       (let msg = fst (unmarshal_message_envelope decode sprint (sm_data natsMsg))
        in if env_id msg = [] then msg\<lparr>env_id := utoa (unat (sm_sequence natsMsg))\<rparr> else msg) w) = Ok"
  by (simp add: nats_msg_handler_def Let_def split: prod.split)

text \<open>No handler of this broker sees a message without an id.\<close>

lemma nats_handler_id:
  "env_id (let msg = fst (unmarshal_message_envelope decode sprint (sm_data natsMsg))
     in if env_id msg = [] then msg\<lparr>env_id := utoa (unat (sm_sequence natsMsg))\<rparr> else msg) \<noteq> []"
  by (simp add: Let_def)

lemma gen_random_string_chars: "set (gen_random_string draws n) \<subseteq> set client_id_inputs \<and> length (gen_random_string draws n) = n"
proof -
  have "0 < length client_id_inputs" by (simp add: client_id_inputs_def)
  then have "client_id_inputs ! (draws i mod length client_id_inputs) \<in> set client_id_inputs" for i
    by (intro nth_mem mod_less_divisor)
  then show ?thesis by (auto simp: gen_random_string_def)
qed

section \<open>Witnesses\<close>

definition sample_nats_properties :: gomap where
  "sample_nats_properties =
     Some (fmupd ''natsURL'' ''nats://n'' (fmupd ''natsStreamingClusterID'' ''c''
       (fmupd ''consumerID'' ''app'' (fmupd ''deliverNew'' ''true'' (fmupd ''subscriptionType'' ''queue'' fmempty)))))"

theorem nats_metadata_parsed_witness:
  "\<exists>m. parse_nats_streaming_metadata 2 (\<lambda>s. Inr 0) sample_nats_properties = Inr m
     \<and> no_deliver_new m = ''true'' \<and> no_queue_group_name m \<noteq> []"
proof -
  obtain m where m: "parse_nats_streaming_metadata 2 (\<lambda>s. Inr 0) sample_nats_properties = Inr m"
    and d: "no_deliver_new m = ''true''"
    by (simp add: parse_nats_streaming_metadata_def sample_nats_properties_def parse_nats_connection_def
        gomap_nonempty_def parse_nats_subscription_type_def subscription_type_topic_def subscription_type_queue_def
        parse_nats_consumer_def parse_nats_ack_wait_def parse_nats_max_in_flight_def parse_nats_start_def Let_def)
  from nats_metadata_parsed [OF m] m d show ?thesis by blast
qed

theorem nats_subscription_limits_witness:
  "\<exists>m os. nats_merge_options (no_nats_options\<lparr>no_deliver_new := ''true''\<rparr>)
       (Some (no_subscription_options\<lparr>so_max_concurrent := Some (-1)\<rparr>)) = Inr m
     \<and> stan_subscription_options (\<lambda>f s. Inr 0) m = Inr os \<and> MaxInflight (-1) \<in> set os"
proof -
  obtain m where m: "nats_merge_options (no_nats_options\<lparr>no_deliver_new := ''true''\<rparr>)
       (Some (no_subscription_options\<lparr>so_max_concurrent := Some (-1)\<rparr>)) = Inr m"
    by (simp add: nats_merge_options_def merge_qgroup_def merge_durable_def no_subscription_options_def)
  obtain os where os: "stan_subscription_options (\<lambda>f s. Inr 0) m = Inr os"
    by (cases "stan_start (\<lambda>f s. Inr 0) m") (auto simp: stan_subscription_options_def stan_start_def split: if_split_asm)
  from nats_subscription_limits [OF m _ os, of "-1"] m os show ?thesis by simp
qed

end
