(* ===== verification/Jetstream.thy ===== *)
theory Jetstream
  imports Serdes Healthcheck
begin

text \<open>
  The JetStream broker (\<^verbatim>\<open>pkg/messaging/jetstream/jetstream.go\<close>, \<^verbatim>\<open>options.go\<close>): its metadata, the
  consumer a subscription creates, the message handler, the health of the connection, and the loop
  that pulls messages with a bounded number of concurrent handlers.  The client library is another
  module, the record \<open>js_client\<close>; \<open>parse_duration\<close> is \<^verbatim>\<open>time.ParseDuration\<close>.
\<close>

section \<open>Constants\<close>

text \<open>The keys of the metadata of the component.\<close>

abbreviation (input) js_url_key :: string where "js_url_key \<equiv> ''natsURL''"
abbreviation (input) js_deliver_all_key :: string where "js_deliver_all_key \<equiv> ''deliverAll''"
abbreviation (input) js_deliver_new_key :: string where "js_deliver_new_key \<equiv> ''deliverNew''"
abbreviation (input) js_ack_wait_time_key :: string where "js_ack_wait_time_key \<equiv> ''ackWaitTime''"
abbreviation (input) js_max_in_flight_key :: string where "js_max_in_flight_key \<equiv> ''maxInFlight''"
abbreviation (input) js_connect_wait_key :: string where "js_connect_wait_key \<equiv> ''connectWait''"
abbreviation (input) js_consumer_id_key :: string where "js_consumer_id_key \<equiv> ''consumerID''"

section \<open>Options\<close>

record js_options =
  jo_nats_url :: string
  jo_consumer_id :: string
  jo_durable_name :: string
  jo_queue_group :: bool
  jo_deliver_new :: string
  jo_deliver_all :: string
  jo_connect_wait :: int
  jo_ack_wait_time :: int
  jo_max_in_flight :: int

definition no_js_options :: js_options where
  "no_js_options =
     \<lparr>jo_nats_url = [], jo_consumer_id = [], jo_durable_name = [], jo_queue_group = False,
      jo_deliver_new = [], jo_deliver_all = [], jo_connect_wait = 0, jo_ack_wait_time = 0, jo_max_in_flight = 0\<rparr>"

definition js_error :: "string \<Rightarrow> error" where
  "js_error text = ErrText (''jetStream error: '' @ text)"

definition parse_js_connection :: "gomap \<Rightarrow> js_options \<Rightarrow> error + js_options" where
  "parse_js_connection properties m =
     (case gomap_nonempty properties js_url_key of
        None \<Rightarrow> Inl (js_error ''missing nats URL'')
      | Some url \<Rightarrow>
          (case gomap_nonempty properties js_consumer_id_key of
             None \<Rightarrow> Inl (js_error ''missing consumer ID'')
           | Some c \<Rightarrow>
               Inr (m\<lparr>jo_nats_url := url, jo_consumer_id := c, jo_durable_name := c, jo_queue_group := True\<rparr>)))"

definition parse_js_ack_wait :: "(string \<Rightarrow> error + int) \<Rightarrow> gomap \<Rightarrow> js_options \<Rightarrow> error + js_options" where
  "parse_js_ack_wait parse_duration properties m =
     (case gomap_nonempty properties js_ack_wait_time_key of
        None \<Rightarrow> Inr m
      | Some v \<Rightarrow>
          (case parse_duration v of
             Inl e \<Rightarrow> Inl (ErrWrap ''jetStream error '' e)
           | Inr dur \<Rightarrow> Inr (m\<lparr>jo_ack_wait_time := dur\<rparr>)))"

definition parse_js_max_in_flight :: "gomap \<Rightarrow> js_options \<Rightarrow> error + js_options" where
  "parse_js_max_in_flight properties m =
     (case gomap_nonempty properties js_max_in_flight_key of
        None \<Rightarrow> Inr m
      | Some v \<Rightarrow>
          (case parse_int 32 v of
             Inl e \<Rightarrow> Inl (ErrWrap ''jetStream error in parsemetadata for maxInFlight: '' e)
           | Inr n \<Rightarrow>
               (if n < 1 then Inl (js_error ''maxInFlight should be equal to or more than 1'')
                else Inr (m\<lparr>jo_max_in_flight := n\<rparr>))))"

definition parse_js_connect_wait :: "(string \<Rightarrow> error + int) \<Rightarrow> gomap \<Rightarrow> js_options \<Rightarrow> error + js_options" where
  "parse_js_connect_wait parse_duration properties m =
     (case gomap_nonempty properties js_connect_wait_key of
        None \<Rightarrow> Inr m
      | Some v \<Rightarrow>
          (case parse_duration v of
             Inl e \<Rightarrow> Inl (ErrWrap ''jetStream error '' e)
           | Inr wait \<Rightarrow> Inr (m\<lparr>jo_connect_wait := wait\<rparr>)))"

definition parse_js_deliver :: "gomap \<Rightarrow> js_options \<Rightarrow> error + js_options" where
  "parse_js_deliver properties m =
     (case gomap_get properties js_deliver_all_key of
        Some v \<Rightarrow>
          (if v = ''true'' then Inr (m\<lparr>jo_deliver_all := v\<rparr>)
           else Inl (js_error ''valid value for deliverAll is true''))
      | None \<Rightarrow>
          (case gomap_get properties js_deliver_new_key of
             Some v \<Rightarrow>
               (if v = ''true'' then Inr (m\<lparr>jo_deliver_new := v\<rparr>)
                else Inl (js_error ''valid value for deliverNew is true''))
           | None \<Rightarrow> Inr m))"

text \<open>\<open>default_wait\<close> is \<^verbatim>\<open>nats.DefaultTimeout\<close>.\<close>

definition js_parse_metadata :: "int \<Rightarrow> (string \<Rightarrow> error + int) \<Rightarrow> gomap \<Rightarrow> error + js_options" where
  "js_parse_metadata default_wait parse_duration properties =
     try_then (parse_js_connection properties (no_js_options\<lparr>jo_connect_wait := default_wait\<rparr>))
       (\<lambda>m. try_then (parse_js_ack_wait parse_duration properties m)
         (\<lambda>m. try_then (parse_js_max_in_flight properties m)
           (\<lambda>m. try_then (parse_js_connect_wait parse_duration properties m)
             (\<lambda>m. parse_js_deliver properties m))))"

text \<open>An absent durable option counts as false, once there are options at all.\<close>

definition js_merge_durable :: "bool option \<Rightarrow> js_options \<Rightarrow> error + js_options" where
  "js_merge_durable durable m =
     (if durable = Some True
      then (if jo_durable_name m = [] then Inl (js_error ''missing durable subscription name'') else Inr m)
      else Inr (m\<lparr>jo_durable_name := []\<rparr>))"

definition js_override :: "subscription_options \<Rightarrow> js_options \<Rightarrow> js_options" where
  "js_override so m =
     (let m = (case so_qgroup so of None \<Rightarrow> m | Some q \<Rightarrow> m\<lparr>jo_queue_group := q\<rparr>);
          m = (case so_max_concurrent so of None \<Rightarrow> m | Some n \<Rightarrow> m\<lparr>jo_max_in_flight := sint n\<rparr>);
          m = (case so_deliver_new so of None \<Rightarrow> m
               | Some b \<Rightarrow> (if b then m\<lparr>jo_deliver_new := ''true''\<rparr> else m\<lparr>jo_deliver_all := ''true''\<rparr>))
      in (case so_ack_wait so of None \<Rightarrow> m | Some d \<Rightarrow> m\<lparr>jo_ack_wait_time := d\<rparr>))"

definition js_merge_options :: "js_options \<Rightarrow> subscription_options option \<Rightarrow> error + js_options" where
  "js_merge_options global subscription =
     (case subscription of
        None \<Rightarrow> Inr global
      | Some so \<Rightarrow> try_then (js_merge_durable (so_durable so) global) (\<lambda>m. Inr (js_override so m)))"

section \<open>The consumer\<close>

text \<open>
  The fields of \<^verbatim>\<open>jetstream.ConsumerConfig\<close> the code sets; durations count nanoseconds.
\<close>

record consumer_config =
  cc_explicit_ack :: bool
  cc_inactive_threshold :: int
  cc_durable :: string
  cc_consumer_name :: string
  cc_ack_wait :: int
  cc_filter_subject :: string

definition js_safe_name :: "string \<Rightarrow> string" where
  "js_safe_name s = replace_char (CHR ''.'') (CHR ''_'') s"

definition js_consumer_config :: "string \<Rightarrow> js_options \<Rightarrow> string \<Rightarrow> consumer_config" where
  "js_consumer_config nuid m topic =
     (let cc = \<lparr>cc_explicit_ack = True, cc_inactive_threshold = 3600000000000, cc_durable = [],
                cc_consumer_name = [], cc_ack_wait = 0, cc_filter_subject = []\<rparr>;
          consumerName = js_safe_name (jo_consumer_id m @ ''__'' @ topic);
          durable = (jo_durable_name m \<noteq> []);
          cc = (if jo_queue_group m then
                  (if durable then cc\<lparr>cc_durable := js_safe_name (jo_durable_name m @ ''__'' @ topic)\<rparr>
                   else cc\<lparr>cc_consumer_name := consumerName\<rparr>)
                else cc\<lparr>cc_consumer_name := consumerName @ ''__'' @ nuid\<rparr>);
          cc = (if jo_ack_wait_time m > 1 then cc\<lparr>cc_ack_wait := jo_ack_wait_time m\<rparr> else cc)
      in cc\<lparr>cc_filter_subject := topic\<rparr>)"

definition js_limit :: "js_options \<Rightarrow> nat" where
  "js_limit m = (if jo_max_in_flight m \<ge> 1 then nat (jo_max_in_flight m) else 1)"

section \<open>The connection\<close>

record js_msg =
  jm_data :: string
  jm_sequence :: "64 word"

record ('c, 'w) js_client =
  jc_connect :: "string \<Rightarrow> int \<Rightarrow> 'w \<Rightarrow> (error + 'c) \<times> 'w"
  jc_publish :: "'c \<Rightarrow> string \<Rightarrow> string \<Rightarrow> 'w \<Rightarrow> error option \<times> 'w"
  jc_stream_by_subject :: "'c \<Rightarrow> string \<Rightarrow> 'w \<Rightarrow> (error + string) \<times> 'w"
  jc_create_consumer :: "'c \<Rightarrow> string \<Rightarrow> consumer_config \<Rightarrow> 'w \<Rightarrow> (error + nat) \<times> 'w"
  jc_messages :: "'c \<Rightarrow> nat \<Rightarrow> 'w \<Rightarrow> (error option \<times> nat option) \<times> 'w"
  jc_close :: "'c \<Rightarrow> 'w \<Rightarrow> 'w"
  jc_connected :: "'c \<Rightarrow> bool"

record 'c js_pubsub =
  jp_options :: js_options
  jp_conn :: "'c option"
  jp_closed :: bool

definition new_jet_stream_pubsub :: "'c js_pubsub" where
  "new_jet_stream_pubsub = \<lparr>jp_options = no_js_options, jp_conn = None, jp_closed = False\<rparr>"

text \<open>\<^verbatim>\<open>n.natsConn, err = nats.Connect(...)\<close> assigns nil beside an error.\<close>

definition js_init :: "('c, 'w) js_client \<Rightarrow> int \<Rightarrow> (string \<Rightarrow> error + int) \<Rightarrow> gomap \<Rightarrow> 'c js_pubsub \<Rightarrow> 'w
    \<Rightarrow> error option \<times> 'c js_pubsub \<times> 'w" where
  "js_init jc default_wait parse_duration properties n w =
     (case js_parse_metadata default_wait parse_duration properties of
        Inl e \<Rightarrow> (Some e, n, w)
      | Inr m \<Rightarrow>
          (case jc_connect jc (jo_nats_url m) (jo_connect_wait m) w of
             (Inl e, w1) \<Rightarrow>
               (Some (ErrWrap (''jetStream: error connecting to nats server '' @ jo_nats_url m @ '': '') e),
                n\<lparr>jp_options := m, jp_conn := None\<rparr>, w1)
           | (Inr conn, w1) \<Rightarrow> (None, n\<lparr>jp_options := m, jp_conn := Some conn\<rparr>, w1)))"

definition js_connection_closed :: "'c js_pubsub \<Rightarrow> 'c js_pubsub" where
  "js_connection_closed n = n\<lparr>jp_closed := True\<rparr>"

definition js_is_healthy :: "('c, 'w) js_client \<Rightarrow> 'c js_pubsub \<Rightarrow> health_result" where
  "js_is_healthy jc n =
     (let bad = \<lparr>hr_status = Unhealthy, hr_description = ''jetStream pubsub connection is closed''\<rparr> in
      if jp_closed n then bad
      else case jp_conn n of
          None \<Rightarrow> bad
        | Some c \<Rightarrow> (if \<not> jc_connected jc c then bad else healthy_result))"

definition js_publish :: "('c, 'w) js_client \<Rightarrow> (envelope \<Rightarrow> error + string) \<Rightarrow> 'c \<Rightarrow> string \<Rightarrow> envelope
    \<Rightarrow> 'w \<Rightarrow> result \<times> 'w" where
  "js_publish jc marshal conn topic msg w =
     (case marshal msg of
        Inl e \<Rightarrow> (Fail e, w)
      | Inr bytes \<Rightarrow>
          (case jc_publish jc conn topic bytes w of
             (Some e, w1) \<Rightarrow> (Fail (ErrWrap ''jetStream: error from publish: '' e), w1)
           | (None, w1) \<Rightarrow> (Ok, w1)))"

text \<open>The first result tells whether the message was acknowledged.\<close>

definition js_msg_handler :: "(string \<Rightarrow> internal_message_envelope \<Rightarrow> error option \<times> internal_message_envelope)
    \<Rightarrow> (json \<Rightarrow> string) \<Rightarrow> ('o, 'w) handler \<Rightarrow> 'o ctx \<Rightarrow> js_msg \<Rightarrow> 'w \<Rightarrow> bool \<times> 'w" where
  "js_msg_handler decode sprint handler c natsMsg w =
     (let msg = fst (unmarshal_message_envelope decode sprint (jm_data natsMsg));
          msg = (if env_id msg = [] then msg\<lparr>env_id := utoa (unat (jm_sequence natsMsg))\<rparr> else msg)
      in case handler c msg w of (r, msg1, w1) \<Rightarrow> (r = Ok, w1))"

text \<open>\<^verbatim>\<open>Subscribe\<close> up to the start of the pull loop: the iterator and the size of the semaphore.\<close>

definition js_subscribe :: "('c, 'w) js_client \<Rightarrow> string \<Rightarrow> 'c js_pubsub \<Rightarrow> 'c \<Rightarrow> string
    \<Rightarrow> subscription_options option \<Rightarrow> 'w \<Rightarrow> (error + nat \<times> nat) \<times> 'w" where
  "js_subscribe jc nuid n conn topic options w =
     (case js_merge_options (jp_options n) options of
        Inl e \<Rightarrow> (Inl (ErrWrap ''jetStream: error getting subscription options '' e), w)
      | Inr m \<Rightarrow>
          (case jc_stream_by_subject jc conn topic w of
             (Inl e, w1) \<Rightarrow>
               (Inl (ErrWrap (''jetStream: cannot find stream for topic '' @ topic @ '': '') e), w1)
           | (Inr stream, w1) \<Rightarrow>
               (case jc_create_consumer jc conn stream (js_consumer_config nuid m topic) w1 of
                  (Inl e, w2) \<Rightarrow> (Inl e, w2)
                | (Inr consumer, w2) \<Rightarrow>
                    (case jc_messages jc conn consumer w2 of
                       ((Some e, it), w3) \<Rightarrow> (Inl (ErrWrap ''jetStream: subscribe error '' e), w3)
                     | ((None, None), w3) \<Rightarrow> (Inl (ErrText ''jetStream: subscribe error %!w(<nil>)''), w3)
                     | ((None, Some iterator), w3) \<Rightarrow> (Inr (iterator, js_limit m), w3)))))"

definition js_close :: "('c, 'w) js_client \<Rightarrow> 'c \<Rightarrow> 'w \<Rightarrow> error option \<times> 'w" where
  "js_close jc conn w = (None, jc_close jc conn w)"

section \<open>The pull loop\<close>

text \<open>
  The goroutine of \<^verbatim>\<open>Subscribe\<close> starts a worker whenever the semaphore has room; a worker fetches one
  message and handles it, or - when fetching fails - closes the channel \<^verbatim>\<open>done\<close> unless it finds it
  closed.  A worker gives its place in the semaphore back when it ends, so the semaphore holds as many
  tokens as there are workers that have not ended.  The test and the close are two steps.
  \<open>pl_handled\<close> and \<open>pl_acked\<close> record the handler's results and the acknowledged messages.
\<close>

datatype worker =
    Fetching
  | Handling nat
  | Testing
  | Closing
  | Ended

text \<open>A panic of any goroutine ends the process.\<close>

datatype pull_panic = DoubleClose | HandlerPanic string

record pull_loop =
  pl_limit :: nat
  pl_looping :: bool
  pl_done :: bool
  pl_workers :: "worker list"
  pl_handled :: "(nat \<times> result) list"
  pl_acked :: "nat list"
  pl_conn_closed :: bool
  pl_panicked :: "pull_panic option"

definition pull_init :: "nat \<Rightarrow> pull_loop \<Rightarrow> bool" where
  "pull_init limit s \<longleftrightarrow>
     s = \<lparr>pl_limit = limit, pl_looping = True, pl_done = False, pl_workers = [], pl_handled = [],
          pl_acked = [], pl_conn_closed = False, pl_panicked = None\<rparr>"

definition live_workers :: "pull_loop \<Rightarrow> nat" where
  "live_workers s = length (filter (\<lambda>w. w \<noteq> Ended) (pl_workers s))"

definition set_worker :: "nat \<Rightarrow> worker \<Rightarrow> pull_loop \<Rightarrow> pull_loop" where
  "set_worker k w s = s\<lparr>pl_workers := (pl_workers s)[k := w]\<rparr>"

definition worker_is :: "pull_loop \<Rightarrow> nat \<Rightarrow> worker \<Rightarrow> bool" where
  "worker_is s k w \<longleftrightarrow> k < length (pl_workers s) \<and> pl_workers s ! k = w"

text \<open>
  \<open>closed_iterator\<close> tells whether the error of \<^verbatim>\<open>Next\<close> is \<^verbatim>\<open>ErrMsgIteratorClosed\<close>; any other one closes the
  connection.
\<close>

inductive pull_step :: "pull_loop \<Rightarrow> pull_loop \<Rightarrow> bool" where
  spawn: "pl_panicked s = None \<Longrightarrow> pl_looping s \<Longrightarrow> live_workers s < pl_limit s
    \<Longrightarrow> pull_step s (s\<lparr>pl_workers := pl_workers s @ [Fetching]\<rparr>)"
| loop_exit: "pl_panicked s = None \<Longrightarrow> pl_looping s \<Longrightarrow> pl_done s \<Longrightarrow> pull_step s (s\<lparr>pl_looping := False\<rparr>)"
| next_ok: "pl_panicked s = None \<Longrightarrow> worker_is s k Fetching \<Longrightarrow> pull_step s (set_worker k (Handling m) s)"
| next_err: "pl_panicked s = None \<Longrightarrow> worker_is s k Fetching
    \<Longrightarrow> pull_step s (set_worker k Testing (s\<lparr>pl_conn_closed := (pl_conn_closed s \<or> \<not> closed_iterator)\<rparr>))"
| handled: "pl_panicked s = None \<Longrightarrow> worker_is s k (Handling m) \<Longrightarrow> \<forall>x. r \<noteq> Crash x
    \<Longrightarrow> pull_step s (set_worker k Ended
          (s\<lparr>pl_handled := (m, r) # pl_handled s,
             pl_acked := (if r = Ok then m # pl_acked s else pl_acked s)\<rparr>))"
| handler_panics: "pl_panicked s = None \<Longrightarrow> worker_is s k (Handling m)
    \<Longrightarrow> pull_step s (s\<lparr>pl_panicked := Some (HandlerPanic x)\<rparr>)"
| test_closed: "pl_panicked s = None \<Longrightarrow> worker_is s k Testing \<Longrightarrow> pl_done s \<Longrightarrow> pull_step s (set_worker k Ended s)"
| test_open: "pl_panicked s = None \<Longrightarrow> worker_is s k Testing \<Longrightarrow> \<not> pl_done s \<Longrightarrow> pull_step s (set_worker k Closing s)"
| close_done: "pl_panicked s = None \<Longrightarrow> worker_is s k Closing \<Longrightarrow> \<not> pl_done s
    \<Longrightarrow> pull_step s (set_worker k Ended (s\<lparr>pl_done := True\<rparr>))"
| close_closed: "pl_panicked s = None \<Longrightarrow> worker_is s k Closing \<Longrightarrow> pl_done s
    \<Longrightarrow> pull_step s (s\<lparr>pl_panicked := Some DoubleClose\<rparr>)"

inductive_cases pull_stepE: "pull_step s t"

text \<open>A closed channel is found closed: with one worker at a time, nobody is about to close it again.\<close>

definition pull_inv :: "nat \<Rightarrow> pull_loop \<Rightarrow> bool" where
  "pull_inv limit s \<longleftrightarrow>
     pl_limit s = limit \<and> live_workers s \<le> limit
     \<and> (\<forall>m\<in>set (pl_acked s). (m, Ok) \<in> set (pl_handled s))
     \<and> (limit = 1 \<longrightarrow> pl_done s \<longrightarrow> Closing \<notin> set (pl_workers s))
     \<and> (limit = 1 \<longrightarrow> pl_panicked s \<noteq> Some DoubleClose)"

lemma set_worker_fields [simp]:
  "pl_limit (set_worker k w s) = pl_limit s" "pl_looping (set_worker k w s) = pl_looping s"
  "pl_done (set_worker k w s) = pl_done s" "pl_handled (set_worker k w s) = pl_handled s"
  "pl_acked (set_worker k w s) = pl_acked s" "pl_panicked (set_worker k w s) = pl_panicked s"
  "pl_workers (set_worker k w s) = (pl_workers s)[k := w]"
  by (simp_all add: set_worker_def)

text \<open>Moving a worker keeps the number of the live ones, or lowers it when the worker ends.\<close>

lemma filter_live_update:
  assumes "k < length ws" and "ws ! k \<noteq> Ended"
  shows "length (filter (\<lambda>w. w \<noteq> Ended) (ws[k := w])) + (if w = Ended then 1 else 0)
    = length (filter (\<lambda>w. w \<noteq> Ended) ws)"
proof -
  have old: "ws = take k ws @ ws ! k # drop (Suc k) ws" using assms(1) by (rule id_take_nth_drop)
  have new: "ws[k := w] = take k ws @ w # drop (Suc k) ws" using assms(1) by (rule upd_conv_take_nth_drop)
  show ?thesis unfolding new by (subst (3) old) (use assms(2) in simp)
qed

lemma live_set_worker:
  assumes "worker_is s k v" and "v \<noteq> Ended"
  shows "length (filter (\<lambda>w. w \<noteq> Ended) ((pl_workers s)[k := w])) \<le> live_workers s"
  using filter_live_update [of k "pl_workers s" w] assms by (auto simp: worker_is_def live_workers_def split: if_splits)

text \<open>With at most one live worker, a live one is the only one.\<close>

lemma only_worker:
  assumes "worker_is s k v" and "v \<noteq> Ended" and "live_workers s \<le> 1" and "j < length (pl_workers s)" and "j \<noteq> k"
  shows "pl_workers s ! j = Ended"
proof (rule ccontr)
  assume live: "pl_workers s ! j \<noteq> Ended"
  let ?ws = "pl_workers s"
  have "length (filter (\<lambda>w. w \<noteq> Ended) (?ws[k := Ended])) + 1 = live_workers s"
    using filter_live_update [of k ?ws Ended] assms(1,2) by (simp add: worker_is_def live_workers_def)
  then have "length (filter (\<lambda>w. w \<noteq> Ended) (?ws[k := Ended])) = 0" using assms(3) by linarith
  then have "filter (\<lambda>w. w \<noteq> Ended) (?ws[k := Ended]) = []" by simp
  then have "\<forall>x\<in>set (?ws[k := Ended]). x = Ended" by (simp add: filter_empty_conv)
  moreover have "?ws[k := Ended] ! j = ?ws ! j" using assms(5) by simp
  ultimately show False using live assms(4) by (metis length_list_update nth_mem)
qed

lemma pull_inv_step:
  assumes "pull_inv limit s" and "pull_step s t"
  shows "pull_inv limit t"
  using assms(2)
proof cases
  case (close_done k)
  have "pl_workers s ! j = Ended" if "limit = 1" "j < length (pl_workers s)" "j \<noteq> k" for j
    using only_worker [OF close_done(3), of j] that assms(1) by (auto simp: pull_inv_def)
  then have "Closing \<notin> set ((pl_workers s)[k := Ended])" if "limit = 1"
    using that close_done(3) by (auto simp: in_set_conv_nth nth_list_update worker_is_def)
  moreover have "length (filter (\<lambda>w. w \<noteq> Ended) ((pl_workers s)[k := Ended])) \<le> live_workers s"
    using live_set_worker [OF close_done(3)] by simp
  ultimately show ?thesis using assms(1) close_done by (auto simp: pull_inv_def live_workers_def)
next
  case (test_open k)
  then show ?thesis
    using live_set_worker [OF test_open(3), of Closing] assms(1) by (auto simp: pull_inv_def live_workers_def)
next
  case (test_closed k)
  then show ?thesis
    using live_set_worker [OF test_closed(3), of Ended] assms(1) set_update_subset_insert [of "pl_workers s" k Ended]
    by (auto simp: pull_inv_def live_workers_def)
next
  case (next_ok k m)
  then show ?thesis
    using live_set_worker [OF next_ok(3), of "Handling m"] assms(1) set_update_subset_insert [of "pl_workers s" k "Handling m"]
    by (auto simp: pull_inv_def live_workers_def)
next
  case (next_err k c)
  then show ?thesis
    using live_set_worker [OF next_err(3), of Testing] assms(1) set_update_subset_insert [of "pl_workers s" k Testing]
    by (auto simp: pull_inv_def live_workers_def)
next
  case (handled k m r)
  then show ?thesis
    using live_set_worker [OF handled(3), of Ended] assms(1) set_update_subset_insert [of "pl_workers s" k Ended]
    by (auto simp: pull_inv_def live_workers_def)
next
  case (close_closed k)
  then have "Closing \<in> set (pl_workers s)" by (metis nth_mem worker_is_def)
  with close_closed assms(1) show ?thesis by (auto simp: pull_inv_def live_workers_def)
qed (use assms(1) in \<open>auto simp: pull_inv_def live_workers_def\<close>)

interpretation pull: invariant_system pull_step "pull_inv limit" "pull_init limit"
proof
  show "pull_inv limit t" if "pull_inv limit s" "pull_step s t" for s t using that by (rule pull_inv_step)
  show "pull_inv limit s" if "pull_init limit s" for s
    using that by (simp add: pull_init_def pull_inv_def live_workers_def)
qed

section \<open>Properties\<close>

text \<open>C19: in every reachable state of the pull loop at most the configured number of messages is fetched or
  handled at once, a message is acknowledged only after its handler ended with nil, and with a limit of
  one the channel \<^verbatim>\<open>done\<close> is never closed twice.\<close>

theorem pull_loop_safe:
  assumes "reachable (pull_init limit) pull_step s"
  shows "live_workers s \<le> limit \<and> (\<forall>m\<in>set (pl_acked s). (m, Ok) \<in> set (pl_handled s))
    \<and> (limit = 1 \<longrightarrow> pl_panicked s \<noteq> Some DoubleClose)"
  using pull.inv_reachable [OF assms] by (simp add: pull_inv_def)

definition two_workers :: "nat \<Rightarrow> worker \<Rightarrow> worker \<Rightarrow> bool \<Rightarrow> pull_panic option \<Rightarrow> pull_loop" where
  "two_workers limit v w closed panicked =
     \<lparr>pl_limit = limit, pl_looping = True, pl_done = closed, pl_workers = [v, w], pl_handled = [],
      pl_acked = [], pl_conn_closed = False, pl_panicked = panicked\<rparr>"

lemma two_workers_simps [simp]:
  "pl_panicked (two_workers limit v w closed panicked) = panicked"
  "pl_done (two_workers limit v w closed panicked) = closed"
  "worker_is (two_workers limit v w closed panicked) 0 x \<longleftrightarrow> v = x"
  "worker_is (two_workers limit v w closed panicked) (Suc 0) x \<longleftrightarrow> w = x"
  "set_worker 0 x (two_workers limit v w closed panicked) = two_workers limit x w closed panicked"
  "set_worker (Suc 0) x (two_workers limit v w closed panicked) = two_workers limit v x closed panicked"
  "(two_workers limit v w closed panicked)\<lparr>pl_done := True\<rparr> = two_workers limit v w True panicked"
  "(two_workers limit v w closed panicked)\<lparr>pl_panicked := p\<rparr> = two_workers limit v w closed p"
  "(two_workers limit v w closed panicked)\<lparr>pl_conn_closed := False\<rparr> = two_workers limit v w closed panicked"
  "pl_conn_closed (two_workers limit v w closed panicked) = False"
  by (auto simp: two_workers_def worker_is_def set_worker_def)

lemma two_workers_fetching:
  assumes "2 \<le> limit"
  shows "reachable (pull_init limit) pull_step (two_workers limit Fetching Fetching False None)"
proof -
  let ?s0 = "\<lparr>pl_limit = limit, pl_looping = True, pl_done = False, pl_workers = [], pl_handled = [],
    pl_acked = [], pl_conn_closed = False, pl_panicked = None\<rparr>"
  let ?s1 = "?s0\<lparr>pl_workers := [Fetching]\<rparr>"
  have "reachable (pull_init limit) pull_step ?s0" by (rule reachable_init) (simp add: pull_init_def)
  moreover have "pull_step ?s0 ?s1" using spawn [of ?s0] assms by (simp add: live_workers_def)
  ultimately have "reachable (pull_init limit) pull_step ?s1" by (rule reachable_step)
  moreover have "pull_step ?s1 (two_workers limit Fetching Fetching False None)"
    using spawn [of ?s1] assms by (simp add: live_workers_def two_workers_def)
  ultimately show ?thesis by (rule reachable_step)
qed

text \<open>C38: with a limit of two or more the process can panic: when the iterator is stopped, two workers that
  were fetching both find the channel \<^verbatim>\<open>done\<close> open, and the second one closes a closed channel.\<close>

theorem double_close_reachable:
  assumes "2 \<le> limit"
  shows "\<exists>s. reachable (pull_init limit) pull_step s \<and> pl_panicked s = Some DoubleClose"
proof -
  have "reachable (pull_init limit) pull_step (two_workers limit Fetching Fetching False None)"
    using assms by (rule two_workers_fetching)
  then have "reachable (pull_init limit) pull_step (two_workers limit Testing Fetching False None)"
    by (rule reachable_step) (use next_err [of "two_workers limit Fetching Fetching False None" 0 True] in simp)
  then have "reachable (pull_init limit) pull_step (two_workers limit Testing Testing False None)"
    by (rule reachable_step) (use next_err [of "two_workers limit Testing Fetching False None" 1 True] in simp)
  then have "reachable (pull_init limit) pull_step (two_workers limit Closing Testing False None)"
    by (rule reachable_step) (use test_open [of "two_workers limit Testing Testing False None" 0] in simp)
  then have "reachable (pull_init limit) pull_step (two_workers limit Closing Closing False None)"
    by (rule reachable_step) (use test_open [of "two_workers limit Closing Testing False None" 1] in simp)
  then have "reachable (pull_init limit) pull_step (two_workers limit Ended Closing True None)"
    by (rule reachable_step) (use close_done [of "two_workers limit Closing Closing False None" 0] in simp)
  then have "reachable (pull_init limit) pull_step (two_workers limit Ended Closing True (Some DoubleClose))"
    by (rule reachable_step) (use close_closed [of "two_workers limit Ended Closing True None" 1] in simp)
  then show ?thesis using two_workers_simps(1) by blast
qed

text \<open>The name by which the server knows the consumer.\<close>

definition consumer_identity :: "consumer_config \<Rightarrow> string" where
  "consumer_identity cc = (if cc_durable cc \<noteq> [] then cc_durable cc else cc_consumer_name cc)"

lemma js_safe_name_append: "js_safe_name (a @ b) = js_safe_name a @ js_safe_name b"
  by (simp add: js_safe_name_def replace_char_def)

lemma js_safe_name_nonempty: "s \<noteq> [] \<Longrightarrow> js_safe_name s \<noteq> []"
  by (simp add: js_safe_name_def replace_char_def)

lemma js_safe_name_no_dot: "CHR ''.'' \<notin> set (js_safe_name s)"
  by (simp add: js_safe_name_def replace_char_absent)

text \<open>Where each field of the merged options that the consumer uses comes from.\<close>

lemma js_merge_fields:
  assumes "js_merge_options global (Some so) = Inr m"
  shows "jo_consumer_id m = jo_consumer_id global
    \<and> jo_durable_name m = (if so_durable so = Some True then jo_durable_name global else [])
    \<and> jo_queue_group m = (case so_qgroup so of None \<Rightarrow> jo_queue_group global | Some q \<Rightarrow> q)
    \<and> jo_max_in_flight m = (case so_max_concurrent so of None \<Rightarrow> jo_max_in_flight global | Some n \<Rightarrow> sint n)
    \<and> jo_ack_wait_time m = (case so_ack_wait so of None \<Rightarrow> jo_ack_wait_time global | Some d \<Rightarrow> d)"
proof -
  obtain m0 where m0: "js_merge_durable (so_durable so) global = Inr m0" and m: "m = js_override so m0"
    using assms by (auto simp: js_merge_options_def try_then_Inr)
  have "jo_consumer_id m0 = jo_consumer_id global" "jo_queue_group m0 = jo_queue_group global"
    "jo_durable_name m0 = (if so_durable so = Some True then jo_durable_name global else [])"
    "jo_max_in_flight m0 = jo_max_in_flight global" "jo_ack_wait_time m0 = jo_ack_wait_time global"
    using m0 by (auto simp: js_merge_durable_def split: if_split_asm)
  then show ?thesis unfolding m by (simp add: js_override_def Let_def split: option.split)
qed

text \<open>What parsed metadata fixes: a component has a name for its consumers, also as durable name, and a queue group.\<close>

definition names_consumers :: "js_options \<Rightarrow> bool" where
  "names_consumers m \<longleftrightarrow> jo_consumer_id m \<noteq> [] \<and> jo_durable_name m = jo_consumer_id m \<and> jo_queue_group m"

lemma parse_stages_keep_names:
  "parse_js_ack_wait parse_duration properties m = Inr m1 \<Longrightarrow> names_consumers m1 = names_consumers m"
  "parse_js_max_in_flight properties m = Inr m1 \<Longrightarrow> names_consumers m1 = names_consumers m"
  "parse_js_connect_wait parse_duration properties m = Inr m1 \<Longrightarrow> names_consumers m1 = names_consumers m"
  "parse_js_deliver properties m = Inr m1 \<Longrightarrow> names_consumers m1 = names_consumers m"
  by (auto simp: names_consumers_def parse_js_ack_wait_def parse_js_max_in_flight_def parse_js_connect_wait_def
      parse_js_deliver_def split: option.split_asm sum.split_asm if_split_asm)

lemma parse_connection_names: "parse_js_connection properties m = Inr m1 \<Longrightarrow> names_consumers m1"
  by (auto simp: names_consumers_def parse_js_connection_def gomap_nonempty_def split: option.split_asm if_split_asm)

lemma js_parse_fields:
  assumes "js_parse_metadata default_wait parse_duration properties = Inr g"
  shows "jo_consumer_id g \<noteq> [] \<and> jo_durable_name g = jo_consumer_id g \<and> jo_queue_group g"
proof -
  have "names_consumers g"
    using assms parse_stages_keep_names parse_connection_names unfolding js_parse_metadata_def try_then_Inr by metis
  then show ?thesis by (simp add: names_consumers_def)
qed

text \<open>What options ask for, once the component has its metadata: no options at all ask for a durable queue group.\<close>

definition asks_group :: "subscription_options option \<Rightarrow> bool" where
  "asks_group so = (case so of None \<Rightarrow> True | Some o1 \<Rightarrow> so_qgroup o1 \<noteq> Some False)"

definition asks_durable :: "subscription_options option \<Rightarrow> bool" where
  "asks_durable so = (case so of None \<Rightarrow> True | Some o1 \<Rightarrow> so_durable o1 = Some True)"

lemma js_merge_asked:
  assumes "js_parse_metadata default_wait parse_duration properties = Inr g" and "js_merge_options g so = Inr m"
  shows "jo_consumer_id m = jo_consumer_id g \<and> jo_durable_name m = (if asks_durable so then jo_consumer_id g else [])
    \<and> jo_queue_group m = asks_group so"
proof (cases so)
  case None
  with assms(2) js_parse_fields [OF assms(1)] show ?thesis
    by (simp add: js_merge_options_def asks_durable_def asks_group_def)
next
  case (Some o1)
  with js_merge_fields [of g o1 m] assms(2) js_parse_fields [OF assms(1)] show ?thesis
    by (auto simp: asks_durable_def asks_group_def split: option.splits)
qed

text \<open>The name of the consumer of a subscription, whether durable or not.\<close>

lemma consumer_identity_asked:
  assumes "js_parse_metadata default_wait parse_duration properties = Inr g" and "js_merge_options g so = Inr m"
  shows "consumer_identity (js_consumer_config nuid m topic)
      = js_safe_name (jo_consumer_id g @ ''__'' @ topic) @ (if asks_group so then [] else ''__'' @ nuid)
    \<and> (cc_durable (js_consumer_config nuid m topic) \<noteq> [] \<longleftrightarrow> asks_group so \<and> asks_durable so)"
  using js_merge_asked [OF assms] js_parse_fields [OF assms(1)]
  by (auto simp: js_consumer_config_def consumer_identity_def Let_def js_safe_name_append js_safe_name_nonempty)

text \<open>C40: two subscriptions of one component to one topic, each with its own options, share a consumer, and so
  compete for its messages, exactly when both ask for a queue group, which they do unless their options say
  otherwise; one that does not gets a consumer of its own.  The consumer is durable exactly when the
  options ask for both a queue group and durability, so the durable option alone has no effect.  No name has
  a dot in it.\<close>

theorem consumer_shared_iff_queue_group:
  assumes "js_parse_metadata default_wait parse_duration properties = Inr g"
    and "js_merge_options g so1 = Inr m1" and "js_merge_options g so2 = Inr m2"
    and "nuid1 \<noteq> nuid2" and "CHR ''.'' \<notin> set nuid1"
  shows "(consumer_identity (js_consumer_config nuid1 m1 topic) = consumer_identity (js_consumer_config nuid2 m2 topic)
      \<longleftrightarrow> asks_group so1 \<and> asks_group so2)
    \<and> (cc_durable (js_consumer_config nuid1 m1 topic) \<noteq> [] \<longleftrightarrow> asks_group so1 \<and> asks_durable so1)
    \<and> CHR ''.'' \<notin> set (consumer_identity (js_consumer_config nuid1 m1 topic))
    \<and> cc_filter_subject (js_consumer_config nuid1 m1 topic) = topic
    \<and> cc_explicit_ack (js_consumer_config nuid1 m1 topic)"
proof -
  have "cc_filter_subject (js_consumer_config nuid1 m1 topic) = topic \<and> cc_explicit_ack (js_consumer_config nuid1 m1 topic)"
    by (simp add: js_consumer_config_def Let_def)
  with consumer_identity_asked [OF assms(1,2), of nuid1 topic] consumer_identity_asked [OF assms(1,3), of nuid2 topic]
    assms(4,5) js_safe_name_no_dot
  show ?thesis by auto
qed

text \<open>
  What the names lose: topics that differ in a dot against an underscore share one durable consumer, of
  which the later subscription changes the subject.  And the options about which messages to deliver
  have no effect on the consumer.
\<close>

theorem consumer_collision:
  "consumer_identity (js_consumer_config nuid m (a @ ''.'' @ b)) = consumer_identity (js_consumer_config nuid m (a @ ''_'' @ b))"
  by (simp add: js_consumer_config_def consumer_identity_def js_safe_name_append Let_def)
    (simp add: js_safe_name_def replace_char_def)

theorem deliver_options_ignored:
  assumes "js_merge_options global (Some so) = Inr m"
    and "js_merge_options global (Some (so\<lparr>so_deliver_new := b\<rparr>)) = Inr m'"
  shows "js_consumer_config nuid m topic = js_consumer_config nuid m' topic \<and> js_limit m = js_limit m'"
proof -
  have "jo_consumer_id m = jo_consumer_id m'" "jo_durable_name m = jo_durable_name m'"
    "jo_queue_group m = jo_queue_group m'" "jo_max_in_flight m = jo_max_in_flight m'"
    "jo_ack_wait_time m = jo_ack_wait_time m'"
    using js_merge_fields [OF assms(1)] js_merge_fields [OF assms(2)] by simp_all
  then show ?thesis by (simp only: js_consumer_config_def js_limit_def simp_thms)
qed

text \<open>The limit of the semaphore is at least one, and the metadata's number when it parses.\<close>

lemma js_limit_pos: "0 < js_limit m"
  by (simp add: js_limit_def)

lemma js_max_in_flight_bounds:
  assumes "parse_js_max_in_flight properties m = Inr m'" and "gomap_nonempty properties ''maxInFlight'' \<noteq> None"
  shows "1 \<le> jo_max_in_flight m' \<and> jo_max_in_flight m' < 2 ^ 31"
  using assms parse_int_bounds [of 32]
  by (auto simp: parse_js_max_in_flight_def split: option.split_asm sum.split_asm if_split_asm)

section \<open>Witnesses\<close>

theorem pull_loop_safe_witness:
  "live_workers (two_workers 2 Fetching Fetching False None) \<le> 2"
  using pull_loop_safe [OF two_workers_fetching [of 2]] by blast

theorem double_close_reachable_witness:
  "\<exists>s. reachable (pull_init 2) pull_step s \<and> pl_panicked s = Some DoubleClose"
  by (rule double_close_reachable) simp

definition sample_js_options :: js_options where
  "sample_js_options =
     no_js_options\<lparr>jo_connect_wait := 2, jo_nats_url := ''nats://x'', jo_consumer_id := ''app'', jo_durable_name := ''app'',
       jo_queue_group := True\<rparr>"

lemma sample_js_parsed:
  "js_parse_metadata 2 (\<lambda>s. Inl ErrEOF) (Some (fmupd ''consumerID'' ''app'' (fmupd ''natsURL'' ''nats://x'' fmempty)))
     = Inr sample_js_options"
  by code_simp

text \<open>One subscription without options and one that wants every message and says durable.\<close>

definition fan_out_options :: subscription_options where
  "fan_out_options =
     \<lparr>so_durable = Some True, so_qgroup = Some False, so_max_concurrent = None, so_deliver_new = None, so_ack_wait = None\<rparr>"

theorem consumer_shared_iff_queue_group_witness:
  "consumer_identity (js_consumer_config ''N1'' sample_js_options ''a.b'')
     \<noteq> consumer_identity (js_consumer_config ''N2'' (sample_js_options\<lparr>jo_queue_group := False\<rparr>) ''a.b'')
   \<and> consumer_identity (js_consumer_config ''N1'' sample_js_options ''a.b'')
     = consumer_identity (js_consumer_config ''N2'' sample_js_options ''a.b'')
   \<and> cc_durable (js_consumer_config ''N2'' (sample_js_options\<lparr>jo_queue_group := False\<rparr>) ''a.b'') = []"
proof -
  have merged: "js_merge_options sample_js_options None = Inr sample_js_options"
    "js_merge_options sample_js_options (Some fan_out_options) = Inr (sample_js_options\<lparr>jo_queue_group := False\<rparr>)"
    by code_simp+
  have d: "''N1'' \<noteq> ''N2''" "''N2'' \<noteq> ''N1''" "CHR ''.'' \<notin> set ''N1''" "CHR ''.'' \<notin> set ''N2''" by simp_all
  have asks: "asks_group None" "\<not> asks_group (Some fan_out_options)"
    by (simp_all add: asks_group_def fan_out_options_def)
  show ?thesis
    using consumer_shared_iff_queue_group [OF sample_js_parsed merged(1,2) d(1,3), of "''a.b''"]
      consumer_shared_iff_queue_group [OF sample_js_parsed merged(1,1) d(1,3), of "''a.b''"]
      consumer_shared_iff_queue_group [OF sample_js_parsed merged(2,1) d(2,4), of "''a.b''"] asks
    by blast
qed

end
