(* ===== verification/Delivery.thy ===== *)
theory Delivery
  imports Grpc_Server Nats Jetstream
begin

text \<open>
  A message from one sidecar to another over NATS Streaming or JetStream: the publishing runtime, its
  pipeline, the pub/sub component, the bytes on the wire, the pub/sub component of the receiving
  sidecar, its pipeline and its handler.  The pub/sub component is plugged into the runtime as its
  broker; what the way of a message needs of it is the locale \<open>message_bus\<close>, of which both are instances.
\<close>

section \<open>NATS Streaming as the broker of a runtime\<close>

text \<open>
  \<open>root\<close> is the context \<^verbatim>\<open>n.ctx\<close> of the component.  A component without a connection dereferences nil.
\<close>

definition nats_broker_publish where
  "nats_broker_publish sc marshal ps topic env w =
     (case np_conn ps of
        None \<Rightarrow> (Crash ''invalid memory address or nil pointer dereference'', env, w)
      | Some conn \<Rightarrow> (case nats_publish sc marshal conn topic env w of (r, w1) \<Rightarrow> (r, env, w1)))"

definition nats_broker_subscribe where
  "nats_broker_subscribe sc parse_time decode sprint root ps topic h options w =
     (case np_conn ps of
        None \<Rightarrow> (Inl (ErrText ''invalid memory address or nil pointer dereference''), w)
      | Some conn \<Rightarrow> nats_subscribe sc parse_time (nats_msg_handler decode sprint h root) ps conn topic options w)"

definition nats_broker where
  "nats_broker sc parse_time marshal decode sprint root ops =
     pubsub_ops.extend ops
       \<lparr>br_publish = nats_broker_publish sc marshal,
        br_subscribe = nats_broker_subscribe sc parse_time decode sprint root\<rparr>"

lemma nats_broker_simps [simp]:
  "br_publish (nats_broker sc parse_time marshal decode sprint root ops) = nats_broker_publish sc marshal"
  "br_subscribe (nats_broker sc parse_time marshal decode sprint root ops)
     = nats_broker_subscribe sc parse_time decode sprint root"
  by (simp_all add: nats_broker_def pubsub_ops.extend_def)

section \<open>The way out\<close>

text \<open>The envelope the broker gets: the request's metadata with the trace headers written over it.\<close>

definition put_headers :: "smap \<Rightarrow> (string \<times> string) list \<Rightarrow> smap" where
  "put_headers f kvs = foldl (\<lambda>f (k, v). fmupd k v f) f kvs"

lemma put_headers_other: "k \<notin> fst ` set kvs \<Longrightarrow> fmlookup (put_headers f kvs) k = fmlookup f k"
  unfolding put_headers_def by (induction kvs arbitrary: f) auto

definition wire_envelope :: "('o, 'b, 's) otel_api \<Rightarrow> 'o ctx \<Rightarrow> string \<Rightarrow> int \<Rightarrow> publish_request \<Rightarrow> smap
    \<Rightarrow> nat \<Rightarrow> envelope" where
  "wire_envelope api c uuid now request f n =
     (publish_envelope uuid now request)
       \<lparr>env_headers := Some (put_headers f (api_inject api (publish_otel api c (Some f) n)))\<rparr>"

text \<open>
  A broker whose publish succeeds only after the client library took the marshalled envelope: \<open>sent\<close> says
  that it took the bytes for a topic.  A publish that succeeds has then put that envelope on the wire.
\<close>

locale wire_broker =
  fixes publish :: "'p \<Rightarrow> string \<Rightarrow> envelope \<Rightarrow> 'a tele_scheme \<Rightarrow> result \<times> envelope \<times> 'a tele_scheme"
    and marshal :: "envelope \<Rightarrow> error + string"
    and sent :: "'p \<Rightarrow> string \<Rightarrow> string \<Rightarrow> bool"
  assumes publish_ok: "publish ps topic env w = (Ok, env1, w1) \<Longrightarrow> \<exists>d. marshal env = Inr d \<and> sent ps topic d"
begin

lemma publish_reaches_wire:
  assumes "br_publish br = publish"
    and "get_publisher (rt_manager rt) (resolve_pubsub_name rt (pr_pubsub_name request)) = Some ps"
    and "pr_metadata request = Some f"
    and "publish_handler api br rt uuid now c request w = (Ok, w1)"
  shows "\<exists>d. marshal (wire_envelope api c uuid now request f (tele_spans w)) = Inr d \<and> sent ps (pr_topic request) d"
proof -
  let ?env = "wire_envelope api c uuid now request f (tele_spans w)"
  let ?w0 = "publish_started (pr_topic request) w"
  have env: "(publish_envelope uuid now request)\<lparr>env_headers := Some (foldl (\<lambda>f (k, v). fmupd k v f) f
      (api_inject api (publish_otel api c (Some f) (tele_spans w))))\<rparr> = ?env"
    by (simp add: wire_envelope_def put_headers_def)
  obtain r msg1 w2 where b: "publish ps (pr_topic request) ?env ?w0 = (r, msg1, w2)"
    by (rule prod_cases3)
  have "r = Ok"
    using assms b env
    by (cases r)
      (auto simp: publish_handler_def go_simps publisher_tracing_def publisher_metrics_def
        extract_trace_def inject_trace_def publish_otel_def publish_started_def publish_envelope_def
        record_publish_message_def emit_def Let_def split: if_split_asm)
  with b show ?thesis using publish_ok by blast
qed

end

section \<open>The way in\<close>

text \<open>What a subscription without configured middlewares registers.\<close>

definition receive_pipeline :: "('o, 'b, 's) otel_api \<Rightarrow> string \<Rightarrow> ('o, 'a tele_scheme) handler
    \<Rightarrow> ('o, 'a tele_scheme) handler" where
  "receive_pipeline api topic h =
     (\<lambda>c env w. subscriber_metrics (subscriber_tracing api h) (c\<lparr>ctx_topic := Some topic\<rparr>) env w)"

lemma subscribe_registers:
  assumes "get_subscriber (rt_manager rt) (resolve_pubsub_name rt (sr_pubsub_name request)) = Some ps"
    and "resolve_pubsub_name rt (sr_pubsub_name request) \<noteq> []"
    and "np_conn ps = Some conn" and "slice (sp_subscriber_handlers (rt_config rt)) = []"
  shows "subscribe_handler api (nats_broker sc parse_time marshal decode sprint root ops) ks rt request w =
    nats_subscribe sc parse_time
      (nats_msg_handler decode sprint (receive_pipeline api (sr_topic request) (sr_handler request)) root)
      ps conn (sr_topic request) (sr_options request) w"
  using assms
  by (simp add: subscribe_handler_def start_subscribing_def nats_broker_subscribe_def go_simps
      receive_pipeline_def Let_def)

text \<open>The pipeline calls the handler once, and its result is the handler's.\<close>

lemma subscriber_tracing_calls:
  assumes "ctx_topic c = Some topic" and "env_headers env = Some f"
  shows "\<exists>c1 w1. subscriber_tracing api h c env w =
    (case h c1 (env\<lparr>env_headers := Some (put_headers f (api_inject api (ctx_otel c1)))\<rparr>) w1 of
       (r, msg1, w2) \<Rightarrow> (r, msg1, emit (span_status (tele_spans w) r @ [SpanEnd (tele_spans w)]) w2))"
proof -
  let ?x = "extract_trace api c (Some f)"
  let ?c1 = "c\<lparr>ctx_otel := api_start api (api_with_remote api (api_with_baggage api (ctx_otel c) (fst ?x)) (snd ?x))
      (tele_spans w)\<rparr>"
  show ?thesis
    by (rule exI [of _ ?c1], rule exI)
      (simp add: assms subscriber_tracing_def inject_trace_def put_headers_def Let_def case_prod_unfold)
qed

lemma receive_pipeline_result:
  assumes "env_headers env = Some f"
  shows "\<exists>c1 w1. fst (receive_pipeline api topic h c env w)
    = fst (h c1 (env\<lparr>env_headers := Some (put_headers f (api_inject api (ctx_otel c1)))\<rparr>) w1)"
proof -
  let ?c = "c\<lparr>ctx_topic := Some topic\<rparr>"
  have topic: "ctx_topic ?c = Some topic" by simp
  from subscriber_tracing_calls [OF topic assms]
  obtain c1 w1 where t: "subscriber_tracing api h ?c env w =
    (case h c1 (env\<lparr>env_headers := Some (put_headers f (api_inject api (ctx_otel c1)))\<rparr>) w1 of
       (r, msg1, w2) \<Rightarrow> (r, msg1, emit (span_status (tele_spans w) r @ [SpanEnd (tele_spans w)]) w2))"
    by blast
  show ?thesis
    by (rule exI [of _ c1], rule exI [of _ w1])
      (simp add: receive_pipeline_def subscriber_metrics_def t split: prod.split result.split)
qed

section \<open>From a publisher to a handler\<close>

text \<open>
  What the message handler of a subscription promises: a message that decodes, with an id, goes to the
  handler of the subscription, and is acknowledged when that returns nil.
\<close>

locale wire_subscriber =
  fixes decode :: "string \<Rightarrow> internal_message_envelope \<Rightarrow> error option \<times> internal_message_envelope"
    and sprint :: "json \<Rightarrow> string"
    and handle :: "('o, 'd tele_scheme) handler \<Rightarrow> 'o ctx \<Rightarrow> 'm \<Rightarrow> 'd tele_scheme \<Rightarrow> bool \<times> 'd tele_scheme"
    and data :: "'m \<Rightarrow> string"
  assumes handle_decoded: "unmarshal_message_envelope decode sprint (data m) = (env, None) \<Longrightarrow> env_id env \<noteq> []
    \<Longrightarrow> fst (handle h c m w) \<longleftrightarrow> fst (h c env w) = Ok"

text \<open>
  A handler is given the publisher's id, type, subject and payload, and every header of the request that
  no trace propagator uses; and the message is acknowledged exactly when it returns nil.
\<close>

definition delivered_to :: "('o, 'b, 's) otel_api \<Rightarrow> smap \<Rightarrow> publish_request \<Rightarrow> string \<Rightarrow> ('o, 'a tele_scheme) handler
    \<Rightarrow> bool \<Rightarrow> bool" where
  "delivered_to api f request uuid h acked \<longleftrightarrow>
     (\<exists>c1 env w3. env_id env = uuid \<and> env_type env = pr_type request \<and> env_subject env = pr_topic request
        \<and> env_payload env = pr_data request
        \<and> (\<forall>k v. fmlookup f k = Some v \<and> (\<forall>otel. k \<notin> fst ` set (api_inject api otel)) \<longrightarrow>
             gomap_get (env_headers env) k = Some v)
        \<and> acked = (fst (h c1 env w3) = Ok))"

locale message_bus = wire_broker publish marshal sent + wire_subscriber decode sprint handle data
  for publish :: "'p \<Rightarrow> string \<Rightarrow> envelope \<Rightarrow> 'a tele_scheme \<Rightarrow> result \<times> envelope \<times> 'a tele_scheme"
    and marshal :: "envelope \<Rightarrow> error + string"
    and sent :: "'p \<Rightarrow> string \<Rightarrow> string \<Rightarrow> bool"
    and decode :: "string \<Rightarrow> internal_message_envelope \<Rightarrow> error option \<times> internal_message_envelope"
    and sprint :: "json \<Rightarrow> string"
    and handle :: "('o, 'd tele_scheme) handler \<Rightarrow> 'o ctx \<Rightarrow> 'm \<Rightarrow> 'd tele_scheme \<Rightarrow> bool \<times> 'd tele_scheme"
    and data :: "'m \<Rightarrow> string"
begin

lemma handled_as_published:
  assumes "json_keeps marshal decode (wire_envelope api c uuid now request f n)" and "\<forall>s. sprint (VStr s) = s"
    and "uuid \<noteq> []" and "marshal (wire_envelope api c uuid now request f n) = Inr (data msg)"
  shows "delivered_to api f request uuid h (fst (handle (receive_pipeline api topic h) root msg w))"
proof -
  let ?env = "wire_envelope api c uuid now request f n"
  let ?f = "put_headers f (api_inject api (publish_otel api c (Some f) n))"
  have headers: "env_headers ?env = Some ?f" by (simp add: wire_envelope_def)
  from envelope_roundtrip [OF assms(1,2,4)] have decoded: "unmarshal_message_envelope decode sprint (data msg) = (?env, None)"
    by (simp add: header_map_def wire_envelope_def)
  have id: "env_id ?env \<noteq> []" using assms(3) by (simp add: wire_envelope_def publish_envelope_def)
  from receive_pipeline_result [OF headers] obtain c1 w3
    where "fst (receive_pipeline api topic h root ?env w)
      = fst (h c1 (?env\<lparr>env_headers := Some (put_headers ?f (api_inject api (ctx_otel c1)))\<rparr>) w3)"
    by blast
  then show ?thesis
    unfolding delivered_to_def handle_decoded [OF decoded id]
    by (intro exI [of _ c1] exI [of _ "?env\<lparr>env_headers := Some (put_headers ?f (api_inject api (ctx_otel c1)))\<rparr>"]
        exI [of _ w3])
      (auto simp: gomap_get_def wire_envelope_def publish_envelope_def put_headers_other)
qed

lemma delivered:
  assumes "br_publish br = publish"
    and "get_publisher (rt_manager rt) (resolve_pubsub_name rt (pr_pubsub_name request)) = Some ps"
    and "pr_metadata request = Some f"
    and "publish_handler api br rt uuid now c request w = (Ok, w1)"
    and "json_keeps marshal decode (wire_envelope api c uuid now request f (tele_spans w))"
    and "\<forall>s. sprint (VStr s) = s" and "uuid \<noteq> []"
  shows "\<exists>d. sent ps (pr_topic request) d
    \<and> (\<forall>msg h topic root w2. data msg = d \<longrightarrow>
         delivered_to api f request uuid h (fst (handle (receive_pipeline api topic h) root msg w2)))"
proof -
  from publish_reaches_wire [OF assms(1-4)] obtain d
    where d: "marshal (wire_envelope api c uuid now request f (tele_spans w)) = Inr d" and "sent ps (pr_topic request) d"
    by blast
  moreover have "delivered_to api f request uuid h (fst (handle (receive_pipeline api topic h) root msg w2))"
    if "data msg = d" for msg h topic root w2
    by (rule handled_as_published [OF assms(5-7)]) (simp add: d that)
  ultimately show ?thesis by blast
qed

end

definition nats_sent where
  "nats_sent sc ps topic d \<longleftrightarrow> (\<exists>conn w0. np_conn ps = Some conn \<and> fst (sc_publish sc conn topic d w0) = None)"

interpretation nats_bus: message_bus "nats_broker_publish sc marshal" marshal "nats_sent sc" decode sprint
  "nats_msg_handler decode sprint" sm_data for sc marshal decode sprint
proof
  fix ps topic env w env1 w1
  assume "nats_broker_publish sc marshal ps topic env w = (Ok, env1, w1)"
  then show "\<exists>d. marshal env = Inr d \<and> nats_sent sc ps topic d"
    by (auto simp: nats_broker_publish_def nats_publish_def nats_sent_def
        split: option.split_asm sum.split_asm prod.split_asm intro: exI [of _ w])
next
  fix m :: stan_msg and env h c w
  assume "unmarshal_message_envelope decode sprint (sm_data m) = (env, None)" and "env_id env \<noteq> []"
  then show "fst (nats_msg_handler decode sprint h c m w) \<longleftrightarrow> fst (h c env w) = Ok"
    by (simp add: nats_msg_handler_def Let_def case_prod_unfold)
qed

text \<open>\<open>no_conn\<close> is the error the NATS library answers for a nil connection.\<close>

definition js_broker_publish where
  "js_broker_publish jc no_conn marshal ps topic env w =
     (case jp_conn ps of
        None \<Rightarrow> (case marshal env of
            Inl e \<Rightarrow> (Fail e, env, w)
          | Inr d \<Rightarrow> (Fail (ErrWrap ''jetStream: error from publish: '' no_conn), env, w))
      | Some conn \<Rightarrow> (case js_publish jc marshal conn topic env w of (r, w1) \<Rightarrow> (r, env, w1)))"

definition js_sent where
  "js_sent jc ps topic d \<longleftrightarrow> (\<exists>conn w0. jp_conn ps = Some conn \<and> fst (jc_publish jc conn topic d w0) = None)"

interpretation js_bus: message_bus "js_broker_publish jc no_conn marshal" marshal "js_sent jc" decode sprint
  "js_msg_handler decode sprint" jm_data for jc no_conn marshal decode sprint
proof
  fix ps topic env w env1 w1
  assume "js_broker_publish jc no_conn marshal ps topic env w = (Ok, env1, w1)"
  then show "\<exists>d. marshal env = Inr d \<and> js_sent jc ps topic d"
    by (auto simp: js_broker_publish_def js_publish_def js_sent_def
        split: option.split_asm sum.split_asm prod.split_asm intro: exI [of _ w])
next
  fix m :: js_msg and env h c w
  assume "unmarshal_message_envelope decode sprint (jm_data m) = (env, None)" and "env_id env \<noteq> []"
  then show "fst (js_msg_handler decode sprint h c m w) \<longleftrightarrow> fst (h c env w) = Ok"
    by (simp add: js_msg_handler_def Let_def case_prod_unfold)
qed

lemma exists_sent: "\<exists>d. S d \<and> Q d \<Longrightarrow> (\<And>d. S d \<Longrightarrow> \<exists>w. T d w) \<Longrightarrow> \<exists>d w. T d w \<and> Q d"
  by blast

section \<open>Properties\<close>

text \<open>C1: a message whose publish succeeded is on the wire as bytes that, handed to any subscription of a
  sidecar over NATS Streaming without further middlewares, reach that subscription's handler with the
  publisher's id, type, subject and payload and with every header of the request that no trace
  propagator uses; and the message is acknowledged to the server exactly when the handler returns
  nil.  The JSON library must be able to represent the envelope.\<close>

theorem published_message_delivered:
  assumes "get_publisher (rt_manager rt) (resolve_pubsub_name rt (pr_pubsub_name request)) = Some ps"
    and "np_conn ps = Some conn" and "pr_metadata request = Some f"
    and "publish_handler api (nats_broker sc parse_time marshal decode sprint root ops) rt uuid now c request w = (Ok, w1)"
    and "json_keeps marshal decode (wire_envelope api c uuid now request f (tele_spans w))"
    and "\<forall>s. sprint (VStr s) = s" and "uuid \<noteq> []"
  shows "\<exists>d w0. fst (sc_publish sc conn (pr_topic request) d w0) = None
    \<and> (\<forall>msg h topic root1 w2. sm_data msg = d \<longrightarrow>
         delivered_to api f request uuid h
           (fst (nats_msg_handler decode sprint (receive_pipeline api topic h) root1 msg w2)))"
  by (rule exists_sent [OF nats_bus.delivered [OF nats_broker_simps(1) assms(1,3-7)]])
    (use assms(2) in \<open>auto simp: nats_sent_def\<close>)

text \<open>C22: the same over JetStream: a message whose publish succeeded reaches the handler of any
  subscription that its bytes are handed to, with the publisher's fields and headers, and is
  acknowledged exactly when the handler returns nil.\<close>

theorem jetstream_message_delivered:
  assumes "br_publish br = js_broker_publish jc no_conn marshal"
    and "get_publisher (rt_manager rt) (resolve_pubsub_name rt (pr_pubsub_name request)) = Some ps"
    and "jp_conn ps = Some conn" and "pr_metadata request = Some f"
    and "publish_handler api br rt uuid now c request w = (Ok, w1)"
    and "json_keeps marshal decode (wire_envelope api c uuid now request f (tele_spans w))"
    and "\<forall>s. sprint (VStr s) = s" and "uuid \<noteq> []"
  shows "\<exists>d w0. fst (jc_publish jc conn (pr_topic request) d w0) = None
    \<and> (\<forall>msg h topic root w2. jm_data msg = d \<longrightarrow>
         delivered_to api f request uuid h
           (fst (js_msg_handler decode sprint (receive_pipeline api topic h) root msg w2)))"
  by (rule exists_sent [OF js_bus.delivered [OF assms(1,2,4-8)]]) (use assms(3) in \<open>auto simp: js_sent_def\<close>)

section \<open>Witness\<close>

text \<open>A connection that takes every message; a codec for the one envelope that is sent.\<close>

definition sample_stan :: "(nat, tele) stan_client" where
  "sample_stan =
     \<lparr>sc_connect = (\<lambda>cluster client url wait w. (Inr 1, w)), sc_publish = (\<lambda>conn topic d w. (None, w)),
      sc_subscribe = (\<lambda>conn topic h os w. ((None, Some 1), w)),
      sc_queue_subscribe = (\<lambda>conn topic q h os w. ((None, Some 1), w)),
      sc_close = (\<lambda>conn w. (None, w)), sc_connected = (\<lambda>conn. Some True)\<rparr>"

definition sample_nats :: "nat nats_pubsub" where
  "sample_nats = new_nats_streaming_pubsub\<lparr>np_conn := Some 1\<rparr>"

definition sample_nats_ops :: "nat nats_pubsub pubsub_ops" where
  "sample_nats_ops = \<lparr>ops_init = (\<lambda>p m. (None, p)), ops_close = (\<lambda>p. (None, p)), ops_health = (\<lambda>p. None)\<rparr>"

definition nats_runtime :: "(nat nats_pubsub, nat, tele) runtime" where
  "nats_runtime =
     \<lparr>rt_app_id = ''app'', rt_config = zero_config,
      rt_manager =
        \<lparr>m_app_id = ''app'', m_instances = fmupd ''bus'' sample_nats fmempty, m_components = fmempty,
         m_notifications = [], m_watch_closed = False, m_pubsubs = fmempty, m_middlewares = fmempty\<rparr>,
      rt_refreshes = 0\<rparr>"

definition hello :: publish_request where
  "hello =
     \<lparr>pr_pubsub_name = ''bus'', pr_topic = ''orders'', pr_data = VStr ''hi'', pr_type = ''t'',
      pr_data_content_type = [], pr_metadata = Some fmempty\<rparr>"

definition hello_wire :: envelope where
  "hello_wire = wire_envelope sample_api sample_ctx ''id'' 5 hello fmempty (tele_spans sample_tele)"

definition hello_decode :: "string \<Rightarrow> internal_message_envelope \<Rightarrow> error option \<times> internal_message_envelope" where
  "hello_decode d start =
     (None, \<lparr>ime_message_envelope = hello_wire\<lparr>env_headers := env_headers (ime_message_envelope start)\<rparr>,
             ime_headers = fmmap VStr (header_map hello_wire)\<rparr>)"

definition text_of :: "json \<Rightarrow> string" where
  "text_of v = (case v of VStr s \<Rightarrow> s | _ \<Rightarrow> [])"

definition hello_handler :: "(nat, tele) handler" where
  "hello_handler c env w = (if env_payload env = VStr ''hi'' then Ok else Fail ErrEOF, env, w)"

theorem published_message_delivered_witness:
  "\<exists>d. fst (nats_msg_handler hello_decode text_of (receive_pipeline sample_api ''orders'' hello_handler) sample_ctx
      \<lparr>sm_subject = ''orders'', sm_data = d, sm_sequence = 1\<rparr> sample_tele) \<and> hello_wire \<noteq> empty_envelope"
proof -
  let ?marshal = "\<lambda>env. Inr ''bytes'' :: error + string"
  let ?broker = "nats_broker sample_stan (\<lambda>f s. Inr 0) ?marshal hello_decode text_of sample_ctx sample_nats_ops"
  have ps: "get_publisher (rt_manager nats_runtime) (resolve_pubsub_name nats_runtime (pr_pubsub_name hello)) = Some sample_nats"
    by (simp add: get_publisher_def resolve_pubsub_name_def nats_runtime_def hello_def)
  have conn: "np_conn sample_nats = Some 1" by (simp add: sample_nats_def)
  have metadata: "pr_metadata hello = Some fmempty" by (simp add: hello_def)
  have "fst (publish_handler sample_api ?broker nats_runtime ''id'' 5 sample_ctx hello sample_tele) = Ok"
    using ps conn
    by (simp add: publish_handler_def resolve_pubsub_name_def hello_def go_simps publisher_tracing_def
        publisher_metrics_def extract_trace_def inject_trace_def publish_envelope_def nats_broker_publish_def
        nats_publish_def sample_stan_def Let_def)
  then obtain w1 where pub: "publish_handler sample_api ?broker nats_runtime ''id'' 5 sample_ctx hello sample_tele = (Ok, w1)"
    by (metis prod.collapse)
  have json: "json_keeps ?marshal hello_decode
      (wire_envelope sample_api sample_ctx ''id'' 5 hello fmempty (tele_spans sample_tele))"
    by (simp add: json_keeps_def hello_decode_def hello_wire_def)
  have prints: "\<forall>s. text_of (VStr s) = s" by (simp add: text_of_def)
  have id: "''id'' \<noteq> []" by simp
  have "\<exists>d w0. fst (sc_publish sample_stan 1 (pr_topic hello) d w0) = None
    \<and> (\<forall>msg (h :: (nat, tele) handler) topic root1 w2. sm_data msg = d \<longrightarrow>
         delivered_to sample_api fmempty hello ''id'' h
           (fst (nats_msg_handler hello_decode text_of (receive_pipeline sample_api topic h) root1 msg w2)))"
    by (rule published_message_delivered [OF ps conn metadata pub json prints id])
  then obtain d where d: "\<forall>msg (h :: (nat, tele) handler) topic root1 w2. sm_data msg = d \<longrightarrow>
      delivered_to sample_api fmempty hello ''id'' h
        (fst (nats_msg_handler hello_decode text_of (receive_pipeline sample_api topic h) root1 msg w2))"
    by blast
  let ?msg = "\<lparr>sm_subject = ''orders'', sm_data = d, sm_sequence = 1\<rparr>"
  have "sm_data ?msg = d" by simp
  with d have "delivered_to sample_api fmempty hello ''id'' hello_handler
      (fst (nats_msg_handler hello_decode text_of (receive_pipeline sample_api ''orders'' hello_handler) sample_ctx ?msg sample_tele))"
    by blast
  then obtain c1 env w3 where "env_payload env = pr_data hello"
    and "fst (nats_msg_handler hello_decode text_of (receive_pipeline sample_api ''orders'' hello_handler) sample_ctx ?msg sample_tele)
      = (fst (hello_handler c1 env w3) = Ok)" unfolding delivered_to_def by blast
  then have "fst (nats_msg_handler hello_decode text_of (receive_pipeline sample_api ''orders'' hello_handler) sample_ctx ?msg sample_tele)"
    by (simp add: hello_handler_def hello_def)
  moreover have "hello_wire \<noteq> empty_envelope"
    by (simp add: hello_wire_def wire_envelope_def publish_envelope_def empty_envelope_def hello_def)
  ultimately show ?thesis by blast
qed

text \<open>The same with a JetStream connection that takes every message.\<close>

definition sample_js :: "(nat, tele) js_client" where
  "sample_js =
     \<lparr>jc_connect = (\<lambda>url wait w. (Inr 1, w)), jc_publish = (\<lambda>conn topic d w. (None, w)),
      jc_stream_by_subject = (\<lambda>conn topic w. (Inr ''s'', w)), jc_create_consumer = (\<lambda>conn s cc w. (Inr 1, w)),
      jc_messages = (\<lambda>conn cons w. ((None, Some 1), w)), jc_close = (\<lambda>conn w. w), jc_connected = (\<lambda>conn. True)\<rparr>"

definition sample_js_pubsub :: "nat js_pubsub" where
  "sample_js_pubsub = new_jet_stream_pubsub\<lparr>jp_conn := Some 1\<rparr>"

definition js_runtime :: "(nat js_pubsub, nat, tele) runtime" where
  "js_runtime =
     \<lparr>rt_app_id = ''app'', rt_config = zero_config,
      rt_manager =
        \<lparr>m_app_id = ''app'', m_instances = fmupd ''bus'' sample_js_pubsub fmempty, m_components = fmempty,
         m_notifications = [], m_watch_closed = False, m_pubsubs = fmempty, m_middlewares = fmempty\<rparr>,
      rt_refreshes = 0\<rparr>"

definition js_sample_broker :: "(nat js_pubsub, nat, tele) broker" where
  "js_sample_broker =
     \<lparr>ops_init = (\<lambda>p m. (None, p)), ops_close = (\<lambda>p. (None, p)), ops_health = (\<lambda>p. None),
      br_publish = js_broker_publish sample_js ErrEOF (\<lambda>env. Inr ''bytes''),
      br_subscribe = (\<lambda>p topic h os w. (Inr 0, w))\<rparr>"

theorem jetstream_message_delivered_witness:
  "\<exists>d. delivered_to sample_api fmempty hello ''id'' hello_handler
     (fst (js_msg_handler hello_decode text_of (receive_pipeline sample_api ''orders'' hello_handler) sample_ctx
        \<lparr>jm_data = d, jm_sequence = 1\<rparr> sample_tele))"
proof -
  have br: "br_publish js_sample_broker = js_broker_publish sample_js ErrEOF (\<lambda>env. Inr ''bytes'')"
    by (simp add: js_sample_broker_def)
  have ps: "get_publisher (rt_manager js_runtime) (resolve_pubsub_name js_runtime (pr_pubsub_name hello)) = Some sample_js_pubsub"
    by (simp add: get_publisher_def resolve_pubsub_name_def js_runtime_def hello_def)
  have conn: "jp_conn sample_js_pubsub = Some 1" by (simp add: sample_js_pubsub_def)
  have metadata: "pr_metadata hello = Some fmempty" by (simp add: hello_def)
  have "fst (publish_handler sample_api js_sample_broker js_runtime ''id'' 5 sample_ctx hello sample_tele) = Ok"
    using ps conn
    by (simp add: publish_handler_def resolve_pubsub_name_def hello_def go_simps publisher_tracing_def
        publisher_metrics_def extract_trace_def inject_trace_def publish_envelope_def js_broker_publish_def
        js_sample_broker_def js_publish_def sample_js_def Let_def)
  then obtain w1 where pub: "publish_handler sample_api js_sample_broker js_runtime ''id'' 5 sample_ctx hello sample_tele = (Ok, w1)"
    by (metis prod.collapse)
  have json: "json_keeps (\<lambda>env. Inr ''bytes'') hello_decode
      (wire_envelope sample_api sample_ctx ''id'' 5 hello fmempty (tele_spans sample_tele))"
    by (simp add: json_keeps_def hello_decode_def hello_wire_def)
  have prints: "\<forall>s. text_of (VStr s) = s" by (simp add: text_of_def)
  have id: "''id'' \<noteq> []" by simp
  have "\<exists>d w0. fst (jc_publish sample_js 1 (pr_topic hello) d w0) = None
    \<and> (\<forall>msg (h :: (nat, tele) handler) topic root w2. jm_data msg = d \<longrightarrow>
         delivered_to sample_api fmempty hello ''id'' h
           (fst (js_msg_handler hello_decode text_of (receive_pipeline sample_api topic h) root msg w2)))"
    by (rule jetstream_message_delivered [OF br ps conn metadata pub json prints id])
  then obtain d where d: "\<forall>msg (h :: (nat, tele) handler) topic root w2. jm_data msg = d \<longrightarrow>
      delivered_to sample_api fmempty hello ''id'' h
        (fst (js_msg_handler hello_decode text_of (receive_pipeline sample_api topic h) root msg w2))"
    by blast
  have "jm_data \<lparr>jm_data = d, jm_sequence = 1\<rparr> = d" by simp
  with d show ?thesis by blast
qed

end
