(* ===== verification/Utils.thy ===== *)
theory Utils
  imports Prelude
begin

text \<open>
  \<^verbatim>\<open>pkg/utils/strings.go\<close>, the current namespace of \<^verbatim>\<open>internal/kube/client.go\<close>, and \<^verbatim>\<open>path.Join\<close> of Go's
  library, which the injector uses.
\<close>

section \<open>Environment strings\<close>

record env_var =
  ev_name :: string
  ev_value :: string

fun parse_env_pairs :: "string list \<Rightarrow> env_var list" where
  "parse_env_pairs [] = []"
| "parse_env_pairs (value1 # rest) =
     (case split_char (CHR ''='') (trim_space value1) of
        [k, v] \<Rightarrow> \<lparr>ev_name = k, ev_value = v\<rparr> # parse_env_pairs rest
      | _ \<Rightarrow> parse_env_pairs rest)"

definition parse_env_string :: "string \<Rightarrow> env_var list" where
  "parse_env_string envStr = parse_env_pairs (split_char (CHR '','') envStr)"

fun string_slice_contains :: "string \<Rightarrow> string list \<Rightarrow> bool" where
  "string_slice_contains needle [] = False"
| "string_slice_contains needle (item # rest) = (if item = needle then True else string_slice_contains needle rest)"

lemma string_slice_contains_iff: "string_slice_contains needle haystack \<longleftrightarrow> needle \<in> set haystack"
  by (induction haystack) auto

lemma split_char_pair: "split_char d s = [k, v] \<Longrightarrow> s = k @ d # v"
  using join_split_char [of d s] by simp

text \<open>Every variable comes from one comma-separated piece with exactly one equals sign.\<close>

lemma parse_env_pairs_sound:
  "e \<in> set (parse_env_pairs ws) \<Longrightarrow>
     \<exists>w\<in>set ws. trim_space w = ev_name e @ CHR ''='' # ev_value e
       \<and> CHR ''='' \<notin> set (ev_name e) \<and> CHR ''='' \<notin> set (ev_value e)"
proof (induction ws)
  case (Cons w rest)
  show ?case
  proof (cases "\<exists>k v. split_char (CHR ''='') (trim_space w) = [k, v]")
    case True
    then obtain k v where kv: "split_char (CHR ''='') (trim_space w) = [k, v]" by auto
    have "CHR ''='' \<notin> set k" "CHR ''='' \<notin> set v"
      by (rule split_char_no_sep [where s = "trim_space w"], simp add: kv)+
    with Cons kv split_char_pair [OF kv] show ?thesis by auto
  next
    case False
    with Cons show ?thesis by (auto split: list.splits)
  qed
qed simp

definition is_env_char :: "char \<Rightarrow> bool" where
  "is_env_char c \<longleftrightarrow> c \<noteq> CHR '','' \<and> c \<noteq> CHR ''='' \<and> \<not> is_space c"

definition env_ok :: "env_var \<Rightarrow> bool" where
  "env_ok e \<longleftrightarrow> list_all is_env_char (ev_name e) \<and> list_all is_env_char (ev_value e)"

definition show_env :: "env_var \<Rightarrow> string" where
  "show_env e = ev_name e @ ''='' @ ev_value e"

lemma trim_space_no_space: "list_all (\<lambda>c. \<not> is_space c) s \<Longrightarrow> trim_space s = s"
proof -
  assume a: "list_all (\<lambda>c. \<not> is_space c) s"
  have dw: "list_all (\<lambda>c. \<not> is_space c) t \<Longrightarrow> dropWhile is_space t = t" for t by (cases t) auto
  from a have "list_all (\<lambda>c. \<not> is_space c) (rev s)" by (simp add: list_all_iff)
  with a show ?thesis by (simp add: trim_space_def dw)
qed

lemma parse_env_pairs_show:
  "list_all env_ok es \<Longrightarrow> parse_env_pairs (map show_env es) = es"
proof (induction es)
  case (Cons e es)
  then have e: "env_ok e" by simp
  have "list_all (\<lambda>c. \<not> is_space c) (show_env e)"
    using e by (auto simp: env_ok_def show_env_def list_all_iff is_env_char_def is_space_def less_eq_char_def)
  then have "trim_space (show_env e) = show_env e" by (rule trim_space_no_space)
  moreover have "split_char (CHR ''='') (show_env e) = [ev_name e, ev_value e]"
  proof -
    have "CHR ''='' \<notin> set (ev_name e)" "CHR ''='' \<notin> set (ev_value e)"
      using e by (auto simp: env_ok_def list_all_iff is_env_char_def)
    then show ?thesis by (simp add: show_env_def split_char_sep split_char_absent)
  qed
  ultimately show ?case using Cons by simp
qed simp

lemma split_join: "ws \<noteq> [] \<Longrightarrow> \<forall>w\<in>set ws. d \<notin> set w \<Longrightarrow> split_char d (join_with [d] ws) = ws"
proof (induction "[d]" ws rule: join_with.induct)
  case (3 w v ws)
  then show ?case by (simp add: split_char_sep)
qed (auto simp: split_char_absent)

text \<open>Variables whose names and values have no comma, equals sign or space survive printing and parsing.\<close>

lemma parse_env_string_roundtrip:
  assumes "es \<noteq> []" and "list_all env_ok es"
  shows "parse_env_string (join_with '','' (map show_env es)) = es"
proof -
  have "\<forall>w\<in>set (map show_env es). CHR '','' \<notin> set w"
    using assms(2) by (auto simp: list_all_iff env_ok_def show_env_def is_env_char_def)
  with assms(1) have "split_char (CHR '','') (join_with '','' (map show_env es)) = map show_env es"
    by (intro split_join) auto
  then show ?thesis using assms(2) by (simp add: parse_env_string_def parse_env_pairs_show)
qed

section \<open>The namespace\<close>

text \<open>\<open>getenv\<close> answers the empty string for an unset variable; \<open>token_file\<close> is what reading the file gave.\<close>

definition get_current_namespace :: "(string \<Rightarrow> string) \<Rightarrow> error + string \<Rightarrow> string" where
  "get_current_namespace getenv token_file =
     (if getenv ''POD_NAMESPACE'' \<noteq> [] then getenv ''POD_NAMESPACE''
      else if getenv ''NAMESPACE'' \<noteq> [] then getenv ''NAMESPACE''
      else case token_file of
          Inl e \<Rightarrow> ''default''
        | Inr data \<Rightarrow> (if trim_space data \<noteq> [] then trim_space data else ''default''))"

lemma get_current_namespace_nonempty: "get_current_namespace getenv token_file \<noteq> []"
  by (auto simp: get_current_namespace_def split: sum.split)

section \<open>\<^verbatim>\<open>path.Join\<close>\<close>

text \<open>The elements of a path after \<^verbatim>\<open>path.Clean\<close>; the stack holds them backwards.\<close>

fun clean_elements :: "bool \<Rightarrow> string list \<Rightarrow> string list \<Rightarrow> string list" where
  "clean_elements rooted stack [] = rev stack"
| "clean_elements rooted stack (e # es) =
     (if e = [] \<or> e = ''.'' then clean_elements rooted stack es
      else if e = ''..'' then
        (if stack \<noteq> [] \<and> hd stack \<noteq> ''..'' then clean_elements rooted (tl stack) es
         else if rooted then clean_elements rooted stack es
         else clean_elements rooted (e # stack) es)
      else clean_elements rooted (e # stack) es)"

definition path_clean :: "string \<Rightarrow> string" where
  "path_clean p =
     (let rooted = has_prefix ''/'' p;
          body = join_with ''/'' (clean_elements rooted [] (split_char (CHR ''/'') p))
      in if rooted then ''/'' @ body else if body = [] then ''.'' else body)"

definition path_join :: "string list \<Rightarrow> string" where
  "path_join elements =
     (let es = filter (\<lambda>e. e \<noteq> []) elements in
      if es = [] then [] else path_clean (join_with ''/'' es))"

end
