(* ===== verification/Injector_Patch.thy ===== *)
theory Injector_Patch
  imports Utils
begin

text \<open>
  What the sidecar injector adds to a pod: \<^verbatim>\<open>pkg/injector/pod_patch.go\<close> and
  \<^verbatim>\<open>pkg/injector/validation.go\<close>.  Of the Kubernetes types the records hold the fields the code reads or
  writes; a list is a Go slice, empty for nil.  \<^verbatim>\<open>resource.ParseQuantity\<close> is the argument
  \<open>parse_quantity\<close>, with the two quantities \<^verbatim>\<open>MustParse\<close> gives as \<open>mem_limit\<close> and \<open>mem_request\<close>.
\<close>

section \<open>The data\<close>

record volume_mount =
  vm_name :: string
  vm_mount_path :: string
  vm_read_only :: bool

record container_port =
  cp_name :: string
  cp_container_port :: int

record probe =
  pb_path :: string
  pb_port :: int
  pb_initial_delay :: int
  pb_timeout :: int
  pb_period :: int
  pb_failure_threshold :: int

datatype pull_policy = PullAlways | PullNever | PullIfNotPresent

record 'q resources =
  rs_limits :: "(string, 'q) fmap"
  rs_requests :: "(string, 'q) fmap"

record 'q container =
  co_name :: string
  co_image :: string
  co_pull_policy :: "pull_policy option"
  co_allow_privilege_escalation :: "bool option"
  co_ports :: "container_port list"
  co_command :: "string list"
  co_args :: "string list"
  co_env :: "env_var list"
  co_volume_mounts :: "volume_mount list"
  co_readiness :: "probe option"
  co_liveness :: "probe option"
  co_resources :: "'q resources"
  co_restart_always :: bool

record 'q pod =
  po_name :: string
  po_annotations :: gomap
  po_labels :: gomap
  po_containers :: "'q container list"
  po_init_containers :: "'q container list"

text \<open>The value of a patch: containers, one container, environment variables, one of them, a text.\<close>

datatype 'q patch_value =
    PContainers "'q container list"
  | PContainer "'q container"
  | PEnvs "env_var list"
  | PEnv env_var
  | PText string

record 'q patch_operation =
  pt_op :: string
  pt_path :: string
  pt_value :: "'q patch_value"

section \<open>Constants\<close>

text \<open>The names of the annotations, paths and ports of \<^verbatim>\<open>pod_patch.go\<close>.\<close>

abbreviation (input) sidecar_container_name :: string where "sidecar_container_name \<equiv> ''rusid''"
abbreviation (input) rusi_enabled_key :: string where "rusi_enabled_key \<equiv> ''rusi.io/enabled''"
abbreviation (input) rusi_config_key :: string where "rusi_config_key \<equiv> ''rusi.io/config''"
abbreviation (input) app_id_key :: string where "app_id_key \<equiv> ''rusi.io/app-id''"
abbreviation (input) rusi_log_level :: string where "rusi_log_level \<equiv> ''rusi.io/log-level''"
abbreviation (input) rusi_enable_metrics_key :: string where
  "rusi_enable_metrics_key \<equiv> ''rusi.io/enable-metrics''"
abbreviation (input) rusi_metrics_port_key :: string where "rusi_metrics_port_key \<equiv> ''rusi.io/metrics-port''"
abbreviation (input) rusi_enable_debug_key :: string where "rusi_enable_debug_key \<equiv> ''rusi.io/enable-debug''"
abbreviation (input) rusi_debug_port_key :: string where "rusi_debug_port_key \<equiv> ''rusi.io/debug-port''"
abbreviation (input) rusi_env_key :: string where "rusi_env_key \<equiv> ''rusi.io/env''"
abbreviation (input) rusi_cpu_limit_key :: string where "rusi_cpu_limit_key \<equiv> ''rusi.io/sidecar-cpu-limit''"
abbreviation (input) rusi_memory_limit_key :: string where
  "rusi_memory_limit_key \<equiv> ''rusi.io/sidecar-memory-limit''"
abbreviation (input) rusi_cpu_request_key :: string where
  "rusi_cpu_request_key \<equiv> ''rusi.io/sidecar-cpu-request''"
abbreviation (input) rusi_memory_request_key :: string where
  "rusi_memory_request_key \<equiv> ''rusi.io/sidecar-memory-request''"
abbreviation (input) containers_path :: string where "containers_path \<equiv> ''/spec/containers''"
abbreviation (input) init_containers_path :: string where "init_containers_path \<equiv> ''/spec/initContainers''"
abbreviation (input) sidecar_api_grpc_port :: int where "sidecar_api_grpc_port \<equiv> 50003"
abbreviation (input) user_container_grpc_port_name :: string where
  "user_container_grpc_port_name \<equiv> ''RUSI_GRPC_PORT''"
abbreviation (input) sidecar_grpc_port_name :: string where "sidecar_grpc_port_name \<equiv> ''rusi-grpc''"
abbreviation (input) sidecar_diagnostics_port_name :: string where
  "sidecar_diagnostics_port_name \<equiv> ''rusi-diag''"
abbreviation (input) sidecar_debug_port_name :: string where "sidecar_debug_port_name \<equiv> ''rusi-debug''"
abbreviation (input) default_log_level :: string where "default_log_level \<equiv> ''2''"
abbreviation (input) api_address :: string where "api_address \<equiv> ''rusi-api''"
abbreviation (input) api_port :: int where "api_port \<equiv> 80"
abbreviation (input) kubernetes_mount_path :: string where
  "kubernetes_mount_path \<equiv> ''/var/run/secrets/kubernetes.io/serviceaccount''"
abbreviation (input) default_config_name :: string where "default_config_name \<equiv> ''default''"
abbreviation (input) default_enabled_metric :: bool where "default_enabled_metric \<equiv> True"
abbreviation (input) default_metrics_port :: int where "default_metrics_port \<equiv> 9090"
abbreviation (input) default_sidecar_debug :: bool where "default_sidecar_debug \<equiv> False"
abbreviation (input) default_sidecar_debug_port :: int where "default_sidecar_debug_port \<equiv> 40000"
abbreviation (input) sidecar_diagnostics_port :: int where "sidecar_diagnostics_port \<equiv> 8080"
abbreviation (input) sidecar_healthz_path :: string where "sidecar_healthz_path \<equiv> ''healthz''"
abbreviation (input) default_probe_delay_seconds :: int where "default_probe_delay_seconds \<equiv> 3"
abbreviation (input) default_probe_timeout_seconds :: int where "default_probe_timeout_seconds \<equiv> 3"
abbreviation (input) default_probe_period_seconds :: int where "default_probe_period_seconds \<equiv> 15"
abbreviation (input) default_probe_threshold :: int where "default_probe_threshold \<equiv> 3"

section \<open>Annotations\<close>

definition get_bool_annotation_or_default :: "gomap \<Rightarrow> string \<Rightarrow> bool \<Rightarrow> bool" where
  "get_bool_annotation_or_default annotations key default_value =
     (case gomap_get annotations key of
        None \<Rightarrow> default_value
      | Some enabled \<Rightarrow>
          (let s = to_lower enabled in
           s = ''y'' \<or> s = ''yes'' \<or> s = ''true'' \<or> s = ''on'' \<or> s = ''1''))"

definition get_string_annotation_or_default :: "gomap \<Rightarrow> string \<Rightarrow> string \<Rightarrow> string" where
  "get_string_annotation_or_default annotations key default_value =
     (case gomap_nonempty annotations key of Some v \<Rightarrow> v | None \<Rightarrow> default_value)"

definition get_int32_annotation_or_default :: "gomap \<Rightarrow> string \<Rightarrow> int \<Rightarrow> int" where
  "get_int32_annotation_or_default annotations key default_value =
     (case gomap_get annotations key of
        None \<Rightarrow> default_value
      | Some s \<Rightarrow> (case parse_int 32 s of Inl e \<Rightarrow> default_value | Inr v \<Rightarrow> v))"

definition get_config :: "gomap \<Rightarrow> string" where
  "get_config annotations = get_string_annotation_or_default annotations rusi_config_key default_config_name"

definition get_enable_debug :: "gomap \<Rightarrow> bool" where
  "get_enable_debug annotations = get_bool_annotation_or_default annotations rusi_enable_debug_key default_sidecar_debug"

definition get_debug_port :: "gomap \<Rightarrow> int" where
  "get_debug_port annotations = get_int32_annotation_or_default annotations rusi_debug_port_key default_sidecar_debug_port"

definition get_app_id :: "'q pod \<Rightarrow> string" where
  "get_app_id p = get_string_annotation_or_default (po_annotations p) app_id_key (po_name p)"

definition get_log_level :: "gomap \<Rightarrow> string" where
  "get_log_level annotations = get_string_annotation_or_default annotations rusi_log_level default_log_level"

definition get_enable_metrics :: "gomap \<Rightarrow> bool" where
  "get_enable_metrics annotations = get_bool_annotation_or_default annotations rusi_enable_metrics_key default_enabled_metric"

definition get_metrics_port :: "gomap \<Rightarrow> int" where
  "get_metrics_port annotations = get_int32_annotation_or_default annotations rusi_metrics_port_key default_metrics_port"

definition is_resource_rusi_enabled :: "gomap \<Rightarrow> bool" where
  "is_resource_rusi_enabled annotations = get_bool_annotation_or_default annotations rusi_enabled_key False"

section \<open>Validation\<close>

definition validate_kubernetes_app_id :: "string \<Rightarrow> error option" where
  "validate_kubernetes_app_id app_id =
     (if app_id = [] then Some (ErrText ''value for the rusi.io/app-id annotation is empty'') else None)"

definition is_label_char :: "char \<Rightarrow> bool" where
  "is_label_char c \<longleftrightarrow> (CHR ''a'' \<le> c \<and> c \<le> CHR ''z'') \<or> is_digit c"

text \<open>\<^verbatim>\<open>^[a-z0-9]([-a-z0-9]*[a-z0-9])?$\<close>.\<close>

definition dns1123_label_regexp :: "string \<Rightarrow> bool" where
  "dns1123_label_regexp s \<longleftrightarrow>
     s \<noteq> [] \<and> is_label_char (hd s) \<and> is_label_char (last s)
     \<and> list_all (\<lambda>c. is_label_char c \<or> c = CHR ''-'') s"

definition max_len_error :: "nat \<Rightarrow> string" where
  "max_len_error n = ''must be no more than '' @ utoa n @ '' characters''"

fun regex_examples :: "bool \<Rightarrow> string list \<Rightarrow> string" where
  "regex_examples first [] = []"
| "regex_examples first (e # es) =
     (if first then [] else '' or '') @ [CHR 0x27] @ e @ [CHR 0x27] @ '', '' @ regex_examples False es"

definition regex_error :: "string \<Rightarrow> string \<Rightarrow> string list \<Rightarrow> string" where
  "regex_error msg fmt examples =
     (if examples = [] then msg @ '' (regex used for validation is '' @ [CHR 0x27] @ fmt @ [CHR 0x27] @ '')''
      else msg @ '' (e.g. '' @ regex_examples True examples
           @ ''regex used for validation is '' @ [CHR 0x27] @ fmt @ [CHR 0x27] @ '')'')"

definition dns1123_label_fmt :: string where
  "dns1123_label_fmt = ''[a-z0-9]([-a-z0-9]*[a-z0-9])?''"

definition dns1123_label_err_msg :: string where
  "dns1123_label_err_msg = ''a lowercase RFC 1123 label must consist of lower case alphanumeric characters or ''
     @ [CHR 0x27] @ ''-'' @ [CHR 0x27] @ '', and must start and end with an alphanumeric character''"

definition is_dns1123_label :: "string \<Rightarrow> string list" where
  "is_dns1123_label value1 =
     (if length value1 > 63 then [max_len_error 63] else [])
     @ (if dns1123_label_regexp value1 then []
        else [regex_error dns1123_label_err_msg dns1123_label_fmt [''my-name'', ''123-abc'']])"

text \<open>The predicate matches the grammar of the expression.\<close>

lemma dns1123_label_regexp_iff:
  "dns1123_label_regexp s \<longleftrightarrow>
     (\<exists>c. is_label_char c \<and> (s = [c] \<or> (\<exists>m d. s = c # m @ [d] \<and> is_label_char d
        \<and> list_all (\<lambda>c. is_label_char c \<or> c = CHR ''-'') m)))" (is "_ \<longleftrightarrow> ?rhs")
proof
  assume s: "dns1123_label_regexp s"
  then obtain c t where st: "s = c # t" by (cases s) (auto simp: dns1123_label_regexp_def)
  show ?rhs
  proof (cases t rule: rev_cases)
    case Nil
    with s st show ?thesis by (auto simp: dns1123_label_regexp_def)
  next
    case (snoc m d)
    with s st show ?thesis by (auto simp: dns1123_label_regexp_def)
  qed
qed (auto simp: dns1123_label_regexp_def)

lemma is_dns1123_label_ok: "is_dns1123_label s = [] \<longleftrightarrow> length s \<le> 63 \<and> dns1123_label_regexp s"
  by (auto simp: is_dns1123_label_def)

section \<open>The sidecar container\<close>

definition get_pull_policy :: "string \<Rightarrow> pull_policy" where
  "get_pull_policy policy =
     (if policy = ''Always'' then PullAlways
      else if policy = ''Never'' then PullNever
      else if policy = ''IfNotPresent'' then PullIfNotPresent
      else PullIfNotPresent)"

definition format_probe_path :: "string list \<Rightarrow> string" where
  "format_probe_path elements =
     (let p = path_join elements in if \<not> has_prefix ''/'' p then ''/'' @ p else p)"

definition get_service_address :: "string \<Rightarrow> string \<Rightarrow> string \<Rightarrow> int \<Rightarrow> string" where
  "get_service_address name namespace cluster_domain port =
     name @ ''.'' @ namespace @ ''.svc.'' @ cluster_domain @ '':'' @ itoa port"

text \<open>One annotation of \<^verbatim>\<open>getResourceRequirements\<close>: parse it and set the resource, or fail with the message.\<close>

definition append_quantity :: "(string \<Rightarrow> error + 'q) \<Rightarrow> gomap \<Rightarrow> string \<Rightarrow> string \<Rightarrow> string
    \<Rightarrow> (string, 'q) fmap \<Rightarrow> error + (string, 'q) fmap" where
  "append_quantity parse_quantity annotations key resource message lst =
     (case gomap_get annotations key of
        None \<Rightarrow> Inr lst
      | Some quantity \<Rightarrow>
          (case parse_quantity quantity of
             Inl e \<Rightarrow> Inl (ErrWrap message e)
           | Inr q \<Rightarrow> Inr (fmupd resource q lst)))"

definition get_resource_requirements :: "(string \<Rightarrow> error + 'q) \<Rightarrow> 'q \<Rightarrow> 'q \<Rightarrow> gomap \<Rightarrow> error + 'q resources" where
  "get_resource_requirements parse_quantity mem_limit mem_request annotations =
     try_then (append_quantity parse_quantity annotations rusi_cpu_limit_key ''cpu''
                 ''error parsing sidecar cpu limit'' (fmupd ''memory'' mem_limit fmempty))
       (\<lambda>limits. try_then (append_quantity parse_quantity annotations rusi_memory_limit_key ''memory''
                 ''error parsing sidecar memory limit'' limits)
         (\<lambda>limits. try_then (append_quantity parse_quantity annotations rusi_cpu_request_key ''cpu''
                 ''error parsing sidecar cpu request'' (fmupd ''memory'' mem_request fmempty))
           (\<lambda>requests. try_then (append_quantity parse_quantity annotations rusi_memory_request_key ''memory''
                 ''error parsing sidecar memory request'' requests)
             (\<lambda>requests. Inr \<lparr>rs_limits = limits, rs_requests = requests\<rparr>))))"

definition get_probe :: "gomap \<Rightarrow> string \<Rightarrow> probe" where
  "get_probe annotations kind =
     \<lparr>pb_path = format_probe_path [sidecar_healthz_path], pb_port = sidecar_diagnostics_port,
      pb_initial_delay = get_int32_annotation_or_default annotations (''rusi.io/sidecar-'' @ kind @ ''-probe-delay-seconds'') default_probe_delay_seconds,
      pb_timeout = get_int32_annotation_or_default annotations (''rusi.io/sidecar-'' @ kind @ ''-probe-timeout-seconds'') default_probe_timeout_seconds,
      pb_period = get_int32_annotation_or_default annotations (''rusi.io/sidecar-'' @ kind @ ''-probe-period-seconds'') default_probe_period_seconds,
      pb_failure_threshold = get_int32_annotation_or_default annotations (''rusi.io/sidecar-'' @ kind @ ''-probe-threshold'') default_probe_threshold\<rparr>"

definition sidecar_args :: "gomap \<Rightarrow> string \<Rightarrow> string \<Rightarrow> string list" where
  "sidecar_args annotations ident control_plane_address =
     [''--rusi-grpc-port'', itoa sidecar_api_grpc_port, ''--app-id'', ident, ''--mode'', ''kubernetes'',
      ''--v'', get_log_level annotations, ''--control-plane-address'', control_plane_address,
      ''--config'', get_config annotations,
      ''--enable-metrics='' @ (if get_enable_metrics annotations then ''true'' else ''false'')]"

definition get_sidecar_container :: "(string \<Rightarrow> error + 'q) \<Rightarrow> 'q \<Rightarrow> 'q \<Rightarrow> gomap \<Rightarrow> string \<Rightarrow> string \<Rightarrow> string
    \<Rightarrow> string \<Rightarrow> string \<Rightarrow> volume_mount option \<Rightarrow> bool \<Rightarrow> 'q container" where
  "get_sidecar_container parse_quantity mem_limit mem_request annotations ident sidecar_image image_pull_policy
      namespace control_plane_address token_mount as_init_container =
     (let ports = [\<lparr>cp_name = sidecar_grpc_port_name, cp_container_port = sidecar_api_grpc_port\<rparr>,
                   \<lparr>cp_name = sidecar_diagnostics_port_name, cp_container_port = sidecar_diagnostics_port\<rparr>];
          args = sidecar_args annotations ident control_plane_address;
          debug = get_enable_debug annotations;
          debug_port = get_debug_port annotations
      in \<lparr>co_name = sidecar_container_name, co_image = sidecar_image, co_pull_policy = Some (get_pull_policy image_pull_policy),
          co_allow_privilege_escalation = Some False,
          co_ports = (if debug then ports @ [\<lparr>cp_name = sidecar_debug_port_name, cp_container_port = debug_port\<rparr>] else ports),
          co_command = (if debug then [''/dlv''] else [''/rusid'']),
          co_args = (if debug then
                       [''--listen=:'' @ itoa debug_port, ''--accept-multiclient'', ''--headless=true'', ''--log'',
                        ''--api-version=2'', ''exec'', ''/rusid'', ''--''] @ args
                     else args),
          co_env = [\<lparr>ev_name = ''NAMESPACE'', ev_value = namespace\<rparr>]
            @ parse_env_string (gomap_read annotations rusi_env_key),
          co_volume_mounts = (case token_mount of None \<Rightarrow> [] | Some v \<Rightarrow> [v]),
          co_readiness = Some (get_probe annotations ''readiness''),
          co_liveness = Some (get_probe annotations ''liveness''),
          co_resources =
            (case get_resource_requirements parse_quantity mem_limit mem_request annotations of
               Inl e \<Rightarrow> \<lparr>rs_limits = fmempty, rs_requests = fmempty\<rparr>
             | Inr r \<Rightarrow> r),
          co_restart_always = as_init_container\<rparr>)"

section \<open>The patches\<close>

fun find_token_mount :: "volume_mount list \<Rightarrow> volume_mount option" where
  "find_token_mount [] = None"
| "find_token_mount (v # vs) =
     (if vm_mount_path v = kubernetes_mount_path then Some v else find_token_mount vs)"

fun token_mount_of :: "'q container list \<Rightarrow> volume_mount option" where
  "token_mount_of [] = None"
| "token_mount_of (c # cs) =
     (case find_token_mount (co_volume_mounts c) of Some v \<Rightarrow> Some v | None \<Rightarrow> token_mount_of cs)"

definition get_token_volume_mount :: "'q pod \<Rightarrow> volume_mount option" where
  "get_token_volume_mount p = token_mount_of (po_containers p)"

definition pod_contains_sidecar_container :: "'q pod \<Rightarrow> bool" where
  "pod_contains_sidecar_container p \<longleftrightarrow>
     list_ex (\<lambda>c. co_name c = sidecar_container_name) (po_containers p)
     \<or> list_ex (\<lambda>c. co_name c = sidecar_container_name) (po_init_containers p)"

fun new_env_patches :: "env_var list \<Rightarrow> string \<Rightarrow> env_var list \<Rightarrow> 'q patch_operation list" where
  "new_env_patches envs path [] = []"
| "new_env_patches envs path (e # es) =
     (if list_ex (\<lambda>actual. ev_name actual = ev_name e) envs then new_env_patches envs path es
      else \<lparr>pt_op = ''add'', pt_path = path, pt_value = PEnv e\<rparr> # new_env_patches envs path es)"

definition get_env_patch_operations :: "env_var list \<Rightarrow> env_var list \<Rightarrow> string \<Rightarrow> 'q patch_operation list" where
  "get_env_patch_operations envs add_env path =
     (if envs = [] then [\<lparr>pt_op = ''add'', pt_path = path, pt_value = PEnvs add_env\<rparr>]
      else new_env_patches envs (path @ ''/-'') add_env)"

definition port_env :: env_var where
  "port_env = \<lparr>ev_name = user_container_grpc_port_name, ev_value = itoa sidecar_api_grpc_port\<rparr>"

definition env_path :: "nat \<Rightarrow> string" where
  "env_path i = containers_path @ ''/'' @ utoa i @ ''/env''"

fun env_vars_from :: "nat \<Rightarrow> 'q container list \<Rightarrow> 'q patch_operation list" where
  "env_vars_from i [] = []"
| "env_vars_from i (c # cs) =
     get_env_patch_operations (co_env c) [port_env] (env_path i) @ env_vars_from (Suc i) cs"

definition add_rusi_env_vars_to_containers :: "'q container list \<Rightarrow> 'q patch_operation list" where
  "add_rusi_env_vars_to_containers containers = env_vars_from 0 containers"

record injector_config =
  ic_tls_cert_file :: string
  ic_tls_key_file :: string
  ic_sidecar_image :: string
  ic_sidecar_image_pull_policy :: string
  ic_namespace :: string
  ic_kube_cluster_domain :: string
  ic_validate_service_account :: bool
  ic_inject_as_init_container :: bool

definition new_config_with_defaults :: injector_config where
  "new_config_with_defaults =
     \<lparr>ic_tls_cert_file = [], ic_tls_key_file = [], ic_sidecar_image = [], ic_sidecar_image_pull_policy = ''Always'',
      ic_namespace = [], ic_kube_cluster_domain = [], ic_validate_service_account = True,
      ic_inject_as_init_container = False\<rparr>"

definition sidecar_patch :: "bool \<Rightarrow> 'q container \<Rightarrow> 'q pod \<Rightarrow> 'q patch_operation" where
  "sidecar_patch as_init_container c p =
     (if as_init_container then
        (if po_init_containers p = [] then
           \<lparr>pt_op = ''add'', pt_path = init_containers_path, pt_value = PContainers [c]\<rparr>
         else \<lparr>pt_op = ''add'', pt_path = ''/spec/initContainers/-'', pt_value = PContainer c\<rparr>)
      else
        (if po_containers p = [] then
           \<lparr>pt_op = ''add'', pt_path = containers_path, pt_value = PContainers [c]\<rparr>
         else \<lparr>pt_op = ''add'', pt_path = ''/spec/containers/-'', pt_value = PContainer c\<rparr>))"

text \<open>\<open>req_namespace\<close> is the namespace of the request.\<close>

definition get_pod_patch_operations :: "(string \<Rightarrow> error + 'q) \<Rightarrow> 'q \<Rightarrow> 'q \<Rightarrow> (string \<Rightarrow> error + 'q pod)
    \<Rightarrow> injector_config \<Rightarrow> string \<Rightarrow> string \<Rightarrow> error + 'q patch_operation list" where
  "get_pod_patch_operations parse_quantity mem_limit mem_request unmarshal_pod cfg raw req_namespace =
     (case unmarshal_pod raw of
        Inl e \<Rightarrow> Inl e
      | Inr p \<Rightarrow>
          (if \<not> is_resource_rusi_enabled (po_annotations p) \<or> pod_contains_sidecar_container p then Inr []
           else case validate_kubernetes_app_id (get_app_id p) of
               Some e \<Rightarrow> Inl e
             | None \<Rightarrow>
                 (let address = get_service_address api_address (ic_namespace cfg) (ic_kube_cluster_domain cfg) api_port;
                      c = get_sidecar_container parse_quantity mem_limit mem_request (po_annotations p) (get_app_id p)
                            (ic_sidecar_image cfg) (ic_sidecar_image_pull_policy cfg) req_namespace address
                            (get_token_volume_mount p) (ic_inject_as_init_container cfg);
                      envs = (if po_containers p \<noteq> [] then add_rusi_env_vars_to_containers (po_containers p) else [])
                  in Inr ([sidecar_patch (ic_inject_as_init_container cfg) c p,
                           \<lparr>pt_op = ''add'', pt_path = ''/metadata/labels/app-runtime'', pt_value = PText ''rusi''\<rparr>]
                          @ envs))))"

section \<open>What the patches are\<close>

definition has_port_env :: "'q container \<Rightarrow> bool" where
  "has_port_env c \<longleftrightarrow> user_container_grpc_port_name \<in> ev_name ` set (co_env c)"

text \<open>The patch of one container that lacks the variable.\<close>

definition port_patch :: "nat \<Rightarrow> 'q container \<Rightarrow> 'q patch_operation" where
  "port_patch i c =
     (if co_env c = [] then \<lparr>pt_op = ''add'', pt_path = env_path i, pt_value = PEnvs [port_env]\<rparr>
      else \<lparr>pt_op = ''add'', pt_path = env_path i @ ''/-'', pt_value = PEnv port_env\<rparr>)"

definition port_patches :: "'q container list \<Rightarrow> 'q patch_operation list" where
  "port_patches cs = map (\<lambda>(i, c). port_patch i c) (filter (\<lambda>(i, c). \<not> has_port_env c) (enumerate 0 cs))"

lemma port_env_name [simp]: "ev_name port_env = ''RUSI_GRPC_PORT''"
  by (simp add: port_env_def)

lemma has_port_env_iff: "has_port_env c \<longleftrightarrow> list_ex (\<lambda>e. ev_name e = ''RUSI_GRPC_PORT'') (co_env c)"
  by (auto simp: has_port_env_def list_ex_iff image_iff) metis

lemma get_env_patch_port:
  "get_env_patch_operations (co_env c) [port_env] (env_path i) = (if has_port_env c then [] else [port_patch i c])"
  by (auto simp: get_env_patch_operations_def has_port_env_iff port_patch_def)

lemma env_vars_from_eq:
  "env_vars_from n cs = map (\<lambda>(i, c). port_patch i c) (filter (\<lambda>(i, c). \<not> has_port_env c) (enumerate n cs))"
  by (induction n cs rule: env_vars_from.induct) (simp_all add: get_env_patch_port)

lemma add_rusi_env_vars_eq: "add_rusi_env_vars_to_containers cs = port_patches cs"
  by (simp add: add_rusi_env_vars_to_containers_def port_patches_def env_vars_from_eq)

text \<open>Paths of different containers differ: the index can be read back.\<close>

lemma digit_not_slash: "is_digit c \<Longrightarrow> c \<noteq> CHR ''/''"
  by (auto simp: is_digit_def less_eq_char_def)

lemma takeWhile_utoa: "takeWhile is_digit (utoa i @ CHR ''/'' # rest) = utoa i"
  using utoa_digits [of _ i] by (simp add: takeWhile_append2 is_digit_def less_eq_char_def)

lemma env_path_prefix_inj:
  assumes "env_path i @ a = env_path j @ b"
  shows "i = j"
proof -
  have "utoa i @ CHR ''/'' # (''env'' @ a) = utoa j @ CHR ''/'' # (''env'' @ b)"
    using assms by (simp add: env_path_def)
  then have "takeWhile is_digit (utoa i @ CHR ''/'' # (''env'' @ a)) = takeWhile is_digit (utoa j @ CHR ''/'' # (''env'' @ b))"
    by (rule arg_cong)
  then have "utoa i = utoa j" unfolding takeWhile_utoa .
  then show ?thesis by (rule utoa_inj)
qed

lemma port_patch_path_inj: "pt_path (port_patch i c) = pt_path (port_patch j d) \<Longrightarrow> i = j"
  using env_path_prefix_inj [of i "[]" j "[]"] env_path_prefix_inj [of i "''/-''" j "''/-''"]
    env_path_prefix_inj [of i "[]" j "''/-''"] env_path_prefix_inj [of i "''/-''" j "[]"]
  by (auto simp: port_patch_def split: if_splits)

lemma port_patches_distinct: "distinct (map pt_path (port_patches cs))"
proof -
  let ?xs = "filter (\<lambda>(i, c). \<not> has_port_env c) (enumerate 0 cs)"
  have "distinct (map fst ?xs)"
    by (rule distinct_map_filter) simp
  moreover have "map pt_path (port_patches cs) = map (\<lambda>(i, c). pt_path (port_patch i c)) ?xs"
    by (simp add: port_patches_def case_prod_unfold)
  moreover have "inj_on (\<lambda>(i, c). pt_path (port_patch i c)) (set ?xs)"
  proof (rule inj_onI)
    fix x y assume "x \<in> set ?xs" "y \<in> set ?xs"
      and "(case x of (i, c) \<Rightarrow> pt_path (port_patch i c)) = (case y of (i, c) \<Rightarrow> pt_path (port_patch i c))"
    then have "fst x = fst y" by (auto dest: port_patch_path_inj)
    with \<open>distinct (map fst ?xs)\<close> \<open>x \<in> set ?xs\<close> \<open>y \<in> set ?xs\<close> show "x = y"
      by (auto simp: distinct_map dest: inj_onD)
  qed
  ultimately show ?thesis by (simp add: distinct_map)
qed

lemma get_sidecar_container_fields:
  "co_name (get_sidecar_container pq ml mr annotations ident img pol ns addr tm as_init) = ''rusid''"
  "co_restart_always (get_sidecar_container pq ml mr annotations ident img pol ns addr tm as_init) = as_init"
  by (simp_all add: get_sidecar_container_def Let_def)

text \<open>C6: a pod that asks for the sidecar, has none yet and has an application id gets exactly these
  patches: one that adds a container named "rusid" at the place the configuration says, one for the
  label, and one for each container that does not define \<^verbatim>\<open>RUSI_GRPC_PORT\<close> - no two at one path, and none
  for a container that defines it.\<close>

theorem injected_pod_patches:
  assumes "unmarshal_pod raw = Inr p"
    and "is_resource_rusi_enabled (po_annotations p)" and "\<not> pod_contains_sidecar_container p"
    and "get_app_id p \<noteq> []"
  shows "\<exists>c. get_pod_patch_operations pq ml mr unmarshal_pod cfg raw ns =
      Inr (sidecar_patch (ic_inject_as_init_container cfg) c p
           # \<lparr>pt_op = ''add'', pt_path = ''/metadata/labels/app-runtime'', pt_value = PText ''rusi''\<rparr>
           # port_patches (po_containers p))
    \<and> co_name c = ''rusid'' \<and> co_restart_always c = ic_inject_as_init_container cfg
    \<and> distinct (map pt_path (port_patches (po_containers p)))"
proof -
  have "(if po_containers p \<noteq> [] then add_rusi_env_vars_to_containers (po_containers p) else [])
      = port_patches (po_containers p)"
    by (simp add: add_rusi_env_vars_eq) (simp add: port_patches_def)
  with assms show ?thesis
    by (auto simp: get_pod_patch_operations_def validate_kubernetes_app_id_def Let_def port_patches_distinct
        get_sidecar_container_fields)
qed

text \<open>
  A quantity that does not parse leaves the container without any resources, although the log message
  announces the defaults.
\<close>

theorem invalid_quantity_drops_defaults:
  assumes "gomap_get annotations ''rusi.io/sidecar-cpu-limit'' = Some v" and "pq v = Inl e"
  shows "co_resources (get_sidecar_container pq ml mr annotations ident img pol ns addr tm as_init)
    = \<lparr>rs_limits = fmempty, rs_requests = fmempty\<rparr>"
  using assms by (simp add: get_sidecar_container_def get_resource_requirements_def append_quantity_def Let_def)

lemma get_int32_annotation_bounds:
  assumes "- (2 ^ 31) \<le> d" and "d < 2 ^ 31"
  shows "- (2 ^ 31) \<le> get_int32_annotation_or_default annotations key d
    \<and> get_int32_annotation_or_default annotations key d < 2 ^ 31"
proof -
  have "- (2 ^ 31) \<le> v \<and> v < 2 ^ 31" if "parse_int 32 s = Inr v" for s v
    using parse_int_bounds [OF that] by simp
  with assms show ?thesis
    by (auto simp: get_int32_annotation_or_default_def split: option.split sum.split)
qed

section \<open>Witness\<close>

definition sample_container :: "string \<Rightarrow> env_var list \<Rightarrow> nat container" where
  "sample_container name env =
     \<lparr>co_name = name, co_image = ''img'', co_pull_policy = None, co_allow_privilege_escalation = None,
      co_ports = [], co_command = [], co_args = [], co_env = env, co_volume_mounts = [], co_readiness = None,
      co_liveness = None, co_resources = \<lparr>rs_limits = fmempty, rs_requests = fmempty\<rparr>, co_restart_always = False\<rparr>"

definition sample_pod :: "nat pod" where
  "sample_pod =
     \<lparr>po_name = ''shop'', po_annotations = Some (fmupd ''rusi.io/enabled'' ''true'' fmempty), po_labels = None,
      po_containers = [sample_container ''a'' [], sample_container ''b'' [port_env]], po_init_containers = []\<rparr>"

lemma sample_pod_facts:
  "is_resource_rusi_enabled (po_annotations sample_pod)" "\<not> pod_contains_sidecar_container sample_pod"
  "get_app_id sample_pod = ''shop''"
  by (simp_all add: sample_pod_def sample_container_def is_resource_rusi_enabled_def
      get_bool_annotation_or_default_def to_lower_def lower_char_def pod_contains_sidecar_container_def
      get_app_id_def get_string_annotation_or_default_def gomap_nonempty_def)

theorem injected_pod_patches_witness:
  "\<exists>ops. get_pod_patch_operations (\<lambda>s. Inr 0) 1 2 (\<lambda>raw. Inr sample_pod) new_config_with_defaults [] ''ns'' = Inr ops
     \<and> map pt_path ops = [''/spec/containers/-'', ''/metadata/labels/app-runtime'', ''/spec/containers/0/env'']"
proof -
  have id: "get_app_id sample_pod \<noteq> []" by (simp add: sample_pod_facts)
  have envs: "port_patches (po_containers sample_pod) = [port_patch 0 (sample_container ''a'' [])]"
    by (simp add: port_patches_def sample_pod_def sample_container_def has_port_env_def)
  from injected_pod_patches [where unmarshal_pod = "\<lambda>raw. Inr sample_pod", OF refl sample_pod_facts(1,2) id,
      where pq = "\<lambda>s. Inr 0" and ml = 1 and mr = 2 and cfg = new_config_with_defaults and raw = "[]" and ns = "''ns''"]
  show ?thesis
    unfolding envs
    by (auto simp: sidecar_patch_def new_config_with_defaults_def sample_pod_def port_patch_def sample_container_def
        env_path_def utoa.simps)
qed

end
