(* ===== verification/Injector.thy ===== *)
theory Injector
  imports Injector_Patch
begin

text \<open>
  The admission webhook of the sidecar injector: \<^verbatim>\<open>pkg/injector/injector.go\<close> and its start-up in
  \<^verbatim>\<open>cmd/injector/injector.go\<close>.  The decoder of the request body and the JSON encoder are of other modules
  and arguments here.  A handler that dereferences a nil pointer panics (\<^verbatim>\<open>net/http\<close> then drops the
  connection without an answer).
\<close>

section \<open>The review\<close>

record admission_request =
  aq_uid :: string
  aq_kind :: string
  aq_namespace :: string
  aq_object_raw :: string
  aq_user_uid :: string
  aq_username :: string

record admission_review =
  av_kind :: string
  av_request :: "admission_request option"

record 'q admission_response =
  ap_uid :: string
  ap_allowed :: bool
  ap_patch :: "'q patch_operation list option"
  ap_message :: "error option"

definition to_admission_response :: "error \<Rightarrow> 'q admission_response" where
  "to_admission_response e =
     \<lparr>ap_uid = [], ap_allowed = False, ap_patch = None, ap_message = Some e\<rparr>"

definition get_app_id_from_request :: "(string \<Rightarrow> error + 'q pod) \<Rightarrow> admission_request option \<Rightarrow> string" where
  "get_app_id_from_request unmarshal_pod req =
     (case req of
        None \<Rightarrow> []
      | Some r \<Rightarrow> (case unmarshal_pod (aq_object_raw r) of Inl e \<Rightarrow> [] | Inr p \<Rightarrow> get_app_id p))"

text \<open>The nil dereference of Go.\<close>

definition nil_dereference :: string where
  "nil_dereference = ''invalid memory address or nil pointer dereference''"

text \<open>
  The decision about a decoded review: the patches or the reason against them.  The \<open>patches_of\<close> argument
  is \<^verbatim>\<open>getPodPatchOperations\<close> with the injector's configuration, from the raw object and the namespace.
\<close>

definition review_patches :: "injector_config \<Rightarrow> string list
    \<Rightarrow> (string \<Rightarrow> string \<Rightarrow> error + 'q patch_operation list) \<Rightarrow> admission_review
    \<Rightarrow> (error + 'q patch_operation list) outcome" where
  "review_patches cfg auth_uids patches_of ar =
     (case av_request ar of
        None \<Rightarrow> Panics nil_dereference
      | Some req \<Rightarrow>
          Returns
            (if ic_validate_service_account cfg \<and> \<not> string_slice_contains (aq_user_uid req) auth_uids
             then Inl (ErrText (''service account '' @ [CHR 0x27] @ aq_username req @ [CHR 0x27]
                    @ '' not on the list of allowed controller accounts''))
             else if aq_kind req \<noteq> ''Pod''
             then Inl (ErrText (''invalid kind for review: '' @ av_kind ar))
             else patches_of (aq_object_raw req) (aq_namespace req)))"

text \<open>\<open>marshal\<close> encodes the patches; only whether it fails matters.\<close>

definition respond :: "('q patch_operation list \<Rightarrow> error option) \<Rightarrow> error + 'q patch_operation list
    \<Rightarrow> 'q admission_response" where
  "respond marshal r =
     (case r of
        Inl e \<Rightarrow> to_admission_response e
      | Inr ops \<Rightarrow>
          (if ops = [] then \<lparr>ap_uid = [], ap_allowed = True, ap_patch = None, ap_message = None\<rparr>
           else case marshal ops of
               Some e \<Rightarrow> to_admission_response e
             | None \<Rightarrow> \<lparr>ap_uid = [], ap_allowed = True, ap_patch = Some ops, ap_message = None\<rparr>))"

datatype 'q http_reply =
    HttpError nat string
  | ReviewReply "'q admission_response"

text \<open>
  The decoder also gives the kind of the review, which the reply repeats when the review has a request; it is taken to
  be there whenever the decoder leaves a request in the review.
\<close>

definition handle_request :: "(string \<Rightarrow> error option \<times> admission_review)
    \<Rightarrow> ('q patch_operation list \<Rightarrow> error option) \<Rightarrow> (string \<Rightarrow> string \<Rightarrow> error + 'q patch_operation list)
    \<Rightarrow> injector_config \<Rightarrow> string list \<Rightarrow> string \<Rightarrow> string \<Rightarrow> 'q http_reply outcome" where
  "handle_request decode marshal patches_of cfg auth_uids content_type body =
     (if body = [] then Returns (HttpError 400 ''empty body'')
      else if content_type \<noteq> ''application/json''
      then Returns (HttpError 415 ''invalid Content-Type, expect `application/json`'')
      else
        (case decode body of (err, ar) \<Rightarrow>
           (case (case err of Some e \<Rightarrow> Returns (Inl e) | None \<Rightarrow> review_patches cfg auth_uids patches_of ar) of
              Panics m \<Rightarrow> Panics m
            | Returns r \<Rightarrow>
                Returns (ReviewReply
                  (case av_request ar of
                     None \<Rightarrow> respond marshal r
                   | Some req \<Rightarrow> (respond marshal r)\<lparr>ap_uid := aq_uid req\<rparr>)))))"

section \<open>The allowed accounts\<close>

definition allowed_controllers_service_accounts :: "string list" where
  "allowed_controllers_service_accounts =
     [''replicaset-controller'', ''deployment-controller'', ''cronjob-controller'', ''job-controller'',
      ''statefulset-controller'', ''daemon-set-controller'']"

text \<open>\<open>get_account\<close> asks the cluster for an account's UID; the first account alone is mandatory.\<close>

fun collect_uids :: "(string \<Rightarrow> error + string) \<Rightarrow> nat \<Rightarrow> string list \<Rightarrow> string list \<Rightarrow> error + string list" where
  "collect_uids get_account i [] uids = Inr uids"
| "collect_uids get_account i (a # as) uids =
     (case get_account a of
        Inl e \<Rightarrow> (if i = 0 then Inl e else collect_uids get_account (Suc i) as uids)
      | Inr uid \<Rightarrow> collect_uids get_account (Suc i) as (uids @ [uid]))"

definition allowed_controllers_service_account_uid :: "(string \<Rightarrow> error + string) \<Rightarrow> error + string list" where
  "allowed_controllers_service_account_uid get_account =
     collect_uids get_account 0 allowed_controllers_service_accounts []"

text \<open>The UIDs the injector starts with: none are asked for when accounts are not validated.\<close>

definition injector_auth_uids :: "(string \<Rightarrow> error + string) \<Rightarrow> injector_config \<Rightarrow> error + string list" where
  "injector_auth_uids get_account cfg =
     (if ic_validate_service_account cfg then allowed_controllers_service_account_uid get_account else Inr [])"

lemma collect_uids_later:
  "0 < i \<Longrightarrow> collect_uids get_account i as uids =
     Inr (uids @ concat (map (\<lambda>a. case get_account a of Inl e \<Rightarrow> [] | Inr u \<Rightarrow> [u]) as))"
  by (induction as arbitrary: i uids) (auto split: sum.split)

lemma collect_uids_first:
  "collect_uids get_account 0 (a # as) [] =
     (case get_account a of
        Inl e \<Rightarrow> Inl e
      | Inr uid \<Rightarrow> Inr (uid # concat (map (\<lambda>a. case get_account a of Inl e \<Rightarrow> [] | Inr u \<Rightarrow> [u]) as)))"
  by (simp add: collect_uids_later split: sum.split)

text \<open>Every UID in the list is that of one of the accounts.\<close>

lemma allowed_uids_sound:
  assumes "allowed_controllers_service_account_uid get_account = Inr uids" and "u \<in> set uids"
  shows "\<exists>name\<in>set allowed_controllers_service_accounts. get_account name = Inr u"
proof -
  obtain a as where as: "allowed_controllers_service_accounts = a # as"
    by (simp add: allowed_controllers_service_accounts_def)
  let ?rest = "concat (map (\<lambda>a. case get_account a of Inl e \<Rightarrow> [] | Inr u \<Rightarrow> [u]) as)"
  have rest: "\<exists>name\<in>set as. get_account name = Inr v" if "v \<in> set ?rest" for v
    using that by (force split: sum.split_asm)
  obtain uid where "get_account a = Inr uid" and "uids = uid # ?rest"
    using assms(1) unfolding allowed_controllers_service_account_uid_def as collect_uids_first
    by (auto split: sum.split_asm)
  with assms(2) rest [of u] show ?thesis unfolding as by (metis list.set_intros set_ConsD)
qed

section \<open>Properties\<close>

lemma respond_patch: "ap_patch (respond marshal r) = Some ops \<Longrightarrow> r = Inr ops \<and> ops \<noteq> [] \<and> ap_allowed (respond marshal r)"
  by (auto simp: respond_def to_admission_response_def split: sum.splits if_splits option.splits)

text \<open>C7: the webhook patches an object only for a review that decodes, whose user is one of the controller
  accounts found at start-up (unless accounts are not validated), whose object is a pod with an
  application id that asks for the sidecar and has none yet; the answer carries the UID of the request.\<close>

theorem patch_only_when_allowed:
  assumes "injector_auth_uids get_account cfg = Inr auth_uids"
    and "handle_request decode marshal (get_pod_patch_operations pq ml mr unmarshal_pod cfg) cfg auth_uids ct body
      = Returns (ReviewReply a)"
    and "ap_patch a = Some ops"
  shows "\<exists>ar req p. decode body = (None, ar) \<and> av_request ar = Some req \<and> ap_uid a = aq_uid req
    \<and> (ic_validate_service_account cfg \<longrightarrow>
         (\<exists>name\<in>set allowed_controllers_service_accounts. get_account name = Inr (aq_user_uid req)))
    \<and> aq_kind req = ''Pod'' \<and> unmarshal_pod (aq_object_raw req) = Inr p
    \<and> is_resource_rusi_enabled (po_annotations p) \<and> \<not> pod_contains_sidecar_container p \<and> get_app_id p \<noteq> []
    \<and> ap_allowed a"
proof -
  obtain err ar where dec: "decode body = (err, ar)" by (cases "decode body")
  from assms(2,3) dec have err: "err = None"
    by (auto simp: handle_request_def respond_def to_admission_response_def
        split: if_split_asm option.split_asm outcome.split_asm)
  from assms(2) dec err obtain req where req: "av_request ar = Some req"
    by (auto simp: handle_request_def review_patches_def split: if_split_asm option.split_asm)
  define r where "r = (case review_patches cfg auth_uids (get_pod_patch_operations pq ml mr unmarshal_pod cfg) ar of
      Returns r \<Rightarrow> r | Panics m \<Rightarrow> Inl ErrEOF)"
  from assms(2) dec err req have a: "a = (respond marshal r)\<lparr>ap_uid := aq_uid req\<rparr>"
    by (auto simp: handle_request_def review_patches_def r_def split: if_split_asm)
  with assms(3) have resp: "r = Inr ops" "ops \<noteq> []" "ap_allowed a" using respond_patch [of marshal r ops] by auto
  from resp(1) req have uid: "ic_validate_service_account cfg \<Longrightarrow> aq_user_uid req \<in> set auth_uids"
    and kind: "aq_kind req = ''Pod''"
    and ops: "get_pod_patch_operations pq ml mr unmarshal_pod cfg (aq_object_raw req) (aq_namespace req) = Inr ops"
    by (auto simp: r_def review_patches_def string_slice_contains_iff split: if_split_asm)
  from ops resp(2) obtain p where "unmarshal_pod (aq_object_raw req) = Inr p"
    "is_resource_rusi_enabled (po_annotations p)" "\<not> pod_contains_sidecar_container p" "get_app_id p \<noteq> []"
    by (auto simp: get_pod_patch_operations_def validate_kubernetes_app_id_def
        split: sum.split_asm if_split_asm option.split_asm)
  moreover have "\<exists>name\<in>set allowed_controllers_service_accounts. get_account name = Inr u"
    if "ic_validate_service_account cfg" "u \<in> set auth_uids" for u
    using that assms(1) allowed_uids_sound by (simp add: injector_auth_uids_def)
  ultimately show ?thesis using dec err req kind uid resp(3) a by auto
qed

text \<open>A review without a request makes the handler panic, whatever the configuration.\<close>

theorem nil_request_panics:
  assumes "decode body = (None, ar)" and "av_request ar = None" and "body \<noteq> []"
  shows "handle_request decode marshal patches_of cfg auth_uids ''application/json'' body = Panics nil_dereference"
  using assms by (simp add: handle_request_def review_patches_def)

section \<open>Witness\<close>

definition sample_review :: admission_review where
  "sample_review =
     \<lparr>av_kind = ''AdmissionReview'',
      av_request = Some \<lparr>aq_uid = ''u1'', aq_kind = ''Pod'', aq_namespace = ''ns'', aq_object_raw = [],
                         aq_user_uid = ''c1'', aq_username = ''controller''\<rparr>\<rparr>"

theorem patch_only_when_allowed_witness:
  "\<exists>a. handle_request (\<lambda>b. (None, sample_review)) (\<lambda>ops. None)
       (get_pod_patch_operations (\<lambda>s. Inr 0) 1 2 (\<lambda>raw. Inr sample_pod) new_config_with_defaults)
       new_config_with_defaults (''c1'' # replicate 5 ''c1'') ''application/json'' ''x'' = Returns (ReviewReply a)
     \<and> ap_patch a \<noteq> None \<and> ap_uid a = ''u1''"
proof -
  let ?patches = "get_pod_patch_operations (\<lambda>s. Inr 0) 1 2 (\<lambda>raw. Inr sample_pod) new_config_with_defaults"
  have auth: "injector_auth_uids (\<lambda>n. Inr ''c1'') new_config_with_defaults = Inr (''c1'' # replicate 5 ''c1'')"
    by (simp add: injector_auth_uids_def allowed_controllers_service_account_uid_def collect_uids_first
        allowed_controllers_service_accounts_def new_config_with_defaults_def numeral_eq_Suc)
  obtain op1 ops where ops: "?patches [] ''ns'' = Inr (op1 # ops)"
    using sample_pod_facts by (auto simp: get_pod_patch_operations_def validate_kubernetes_app_id_def Let_def)
  obtain a where a: "handle_request (\<lambda>b. (None, sample_review)) (\<lambda>ops. None) ?patches
       new_config_with_defaults (''c1'' # replicate 5 ''c1'') ''application/json'' ''x'' = Returns (ReviewReply a)"
    and p: "ap_patch a = Some (op1 # ops)" "ap_uid a = ''u1''"
    using ops by (simp add: handle_request_def review_patches_def sample_review_def respond_def)
  from patch_only_when_allowed [OF auth a p(1)] a p show ?thesis by auto
qed

end
