(* ===== verification/Metadata_Items.thy ===== *)
theory Metadata_Items
  imports Prelude
begin

text \<open>
  The properties of a component from its list of metadata items: both versions of
  \<^verbatim>\<open>convertMetadataItemsToProperties\<close>, of the operator (\<^verbatim>\<open>pkg/operator/server.go\<close>) and of the local
  loader (\<^verbatim>\<open>pkg/custom-resource/components/loader/local.go\<close>).  Each occurrence of \<^verbatim>\<open>{uuid}\<close> in a value is
  replaced by a fresh identifier; \<open>uuid n\<close> is what the n-th call of \<^verbatim>\<open>uuid.New\<close> answers.  The loop runs
  as long as there is an occurrence, so it is a partial function.
\<close>

definition uuid_mark :: string where
  "uuid_mark = ''{uuid}''"

partial_function (option) expand_uuids :: "(nat \<Rightarrow> string) \<Rightarrow> nat \<Rightarrow> string \<Rightarrow> (string \<times> nat) option" where
  "expand_uuids uuid n val =
     (if str_contains val uuid_mark then expand_uuids uuid (Suc n) (replace_first val uuid_mark (uuid n))
      else Some (val, n))"

fun convert_items :: "(nat \<Rightarrow> string) \<Rightarrow> ('v \<Rightarrow> string) \<Rightarrow> (string \<times> 'v) list \<Rightarrow> nat \<Rightarrow> smap
    \<Rightarrow> (smap \<times> nat) option" where
  "convert_items uuid text [] n properties = Some (properties, n)"
| "convert_items uuid text ((name, v) # items) n properties =
     (case expand_uuids uuid n (text v) of
        None \<Rightarrow> None
      | Some (val, n1) \<Rightarrow> convert_items uuid text items n1 (fmupd name val properties))"

text \<open>The loader's items hold a text, the operator's raw JSON that is unquoted when it is a string.\<close>

definition convert_local_items :: "(nat \<Rightarrow> string) \<Rightarrow> (string \<times> string) list \<Rightarrow> nat \<Rightarrow> (smap \<times> nat) option" where
  "convert_local_items uuid items n = convert_items uuid (\<lambda>s. s) items n fmempty"

text \<open>\<open>unquote\<close> is \<^verbatim>\<open>strconv.Unquote\<close>.\<close>

definition json_to_unquoted_string :: "(string \<Rightarrow> string option) \<Rightarrow> string \<Rightarrow> string" where
  "json_to_unquoted_string unquote raw = (case unquote raw of Some c \<Rightarrow> c | None \<Rightarrow> raw)"

definition convert_crd_items :: "(string \<Rightarrow> string option) \<Rightarrow> (nat \<Rightarrow> string) \<Rightarrow> (string \<times> string) list \<Rightarrow> nat
    \<Rightarrow> (smap \<times> nat) option" where
  "convert_crd_items unquote uuid items n =
     convert_items uuid (json_to_unquoted_string unquote) items n fmempty"

section \<open>Termination\<close>

text \<open>Each turn removes a brace when the identifiers have none.\<close>

lemma replace_first_braces:
  assumes "str_contains val uuid_mark" and "CHR ''{'' \<notin> set u"
  shows "count_list (replace_first val uuid_mark u) (CHR ''{'') < count_list val (CHR ''{'')"
proof -
  obtain i where i: "index_of uuid_mark val = Some i" using assms(1) by (auto simp: str_contains_def)
  from index_of_Some_split [OF i]
  have "count_list val (CHR ''{'') = count_list (take i val @ uuid_mark @ drop (i + length uuid_mark) val) (CHR ''{'')"
    by simp
  also have "\<dots> = count_list (take i val) (CHR ''{'') + 1 + count_list (drop (i + length uuid_mark) val) (CHR ''{'')"
    by (simp add: uuid_mark_def)
  finally show ?thesis
    using i assms(2) by (simp add: replace_first_def count_list_0_iff)
qed

lemma expand_uuids_total:
  assumes "\<forall>n. CHR ''{'' \<notin> set (uuid n)"
  shows "\<exists>v m. expand_uuids uuid n val = Some (v, m) \<and> \<not> str_contains v uuid_mark
    \<and> n \<le> m \<and> m - n \<le> count_list val (CHR ''{'') \<and> (m = n \<longrightarrow> v = val)"
proof (induction "count_list val (CHR ''{'')" arbitrary: n val rule: less_induct)
  case less
  show ?case
  proof (cases "str_contains val uuid_mark")
    case True
    let ?val = "replace_first val uuid_mark (uuid n)"
    have dec: "count_list ?val (CHR ''{'') < count_list val (CHR ''{'')"
      using replace_first_braces True assms by blast
    from less [OF this, of "Suc n"] obtain v m where
      "expand_uuids uuid (Suc n) ?val = Some (v, m)" "\<not> str_contains v uuid_mark" "Suc n \<le> m"
      "m - Suc n \<le> count_list ?val (CHR ''{'')" by blast
    then show ?thesis using dec True by (subst expand_uuids.simps) auto
  next
    case False
    then show ?thesis by (subst expand_uuids.simps) simp
  qed
qed

lemma convert_items_total:
  assumes "\<forall>n. CHR ''{'' \<notin> set (uuid n)"
  shows "\<exists>result m. convert_items uuid text items n properties = Some (result, m)
    \<and> (\<forall>k. k \<in> fst ` set items \<longrightarrow> (\<exists>v. fmlookup result k = Some v \<and> \<not> str_contains v uuid_mark))
    \<and> (\<forall>k. k \<notin> fst ` set items \<longrightarrow> fmlookup result k = fmlookup properties k)"
proof (induction items arbitrary: n properties)
  case (Cons item items)
  obtain name v where item: "item = (name, v)" by (cases item)
  obtain val n1 where val: "expand_uuids uuid n (text v) = Some (val, n1)" "\<not> str_contains val uuid_mark"
    using expand_uuids_total [OF assms] by blast
  obtain result m where result: "convert_items uuid text items n1 (fmupd name val properties) = Some (result, m)"
    "\<forall>k. k \<in> fst ` set items \<longrightarrow> (\<exists>v. fmlookup result k = Some v \<and> \<not> str_contains v uuid_mark)"
    "\<forall>k. k \<notin> fst ` set items \<longrightarrow> fmlookup result k = fmlookup (fmupd name val properties) k"
    using Cons by blast
  have "fmlookup result k = Some val" if "k = name" "k \<notin> fst ` set items" for k using result(3) that by auto
  with result val item show ?case by (auto simp: image_iff) (metis fst_conv)+
qed simp

section \<open>Properties\<close>

text \<open>C33: converting the metadata items ends, because identifiers have no brace in them; every item's name
  has a value, no value has a \<^verbatim>\<open>{uuid}\<close> left in it, and there are no other names.\<close>

theorem metadata_conversion_terminates:
  assumes "\<forall>n. CHR ''{'' \<notin> set (uuid n)"
  shows "\<exists>result m. convert_crd_items unquote uuid items n = Some (result, m)
    \<and> fmdom' result = fst ` set items
    \<and> (\<forall>k v. fmlookup result k = Some v \<longrightarrow> \<not> str_contains v uuid_mark)"
proof -
  obtain result m where r: "convert_crd_items unquote uuid items n = Some (result, m)"
    and ins: "\<forall>k. k \<in> fst ` set items \<longrightarrow> (\<exists>v. fmlookup result k = Some v \<and> \<not> str_contains v uuid_mark)"
    and outs: "\<forall>k. k \<notin> fst ` set items \<longrightarrow> fmlookup result k = None"
    using convert_items_total [OF assms, of "json_to_unquoted_string unquote" items n fmempty]
    unfolding convert_crd_items_def by auto
  have "fmdom' result = fst ` set items"
    using ins outs by (auto simp: fmlookup_dom'_iff)
  with r ins outs show ?thesis by (metis option.distinct(1) option.inject)
qed

text \<open>One occurrence takes one identifier.\<close>

lemma sample_uuid_expansion:
  "expand_uuids (\<lambda>n. ''id'') 0 ''a-{uuid}'' = Some (''a-id'', 1)"
  by (simp add: expand_uuids.simps [of _ 0] expand_uuids.simps [of _ "Suc 0"] str_contains_def uuid_mark_def
      replace_first_def)

theorem metadata_conversion_terminates_witness:
  "\<exists>result m. convert_crd_items (\<lambda>s. None) (\<lambda>n. ''id'') [(''name'', ''a-{uuid}'')] 0 = Some (result, m)
     \<and> fmdom' result = {''name''}"
proof -
  have u: "\<forall>n :: nat. CHR ''{'' \<notin> set ((\<lambda>n. ''id'') n)" by simp
  from metadata_conversion_terminates [OF u, of "\<lambda>s. None" "[(''name'', ''a-{uuid}'')]" 0] show ?thesis by auto
qed

end
