(* ===== verification/Operator.thy ===== *)
theory Operator
  imports Listeners Metadata_Items Components
begin

text \<open>
  The Kubernetes operator: the object watcher (\<^verbatim>\<open>pkg/operator/operator.go\<close>), the streams of its gRPC
  server (\<^verbatim>\<open>pkg/operator/server.go\<close>), and the objects it serves
  (\<^verbatim>\<open>pkg/operator/apis/rusi/v1alpha1\<close>).

  The watcher has the same operations for components and for configurations, written twice in the code
  and here once, with the kind as an argument.  A channel is the number of the stream that reads it.
\<close>

section \<open>Objects\<close>

record crd_component_spec =
  crd_type :: string
  crd_version :: string
  crd_ignore_errors :: bool
  crd_metadata :: "(string \<times> string) list"
  crd_init_timeout :: string

record 'b object =
  ob_uid :: string
  ob_name :: string
  ob_namespace :: string
  ob_body :: 'b

record crd_component = "crd_component_spec object" +
  ob_secret_store :: string
  ob_scopes :: "string list"

text \<open>\<open>n\<close> is the number of identifiers drawn before.\<close>

definition convert_to_component :: "(string \<Rightarrow> string option) \<Rightarrow> (nat \<Rightarrow> string) \<Rightarrow> nat \<Rightarrow> crd_component
    \<Rightarrow> (spec \<times> nat) option" where
  "convert_to_component unquote uuid n item =
     (case convert_crd_items unquote uuid (crd_metadata (ob_body item)) n of
        None \<Rightarrow> None
      | Some (properties, m) \<Rightarrow>
          Some (\<lparr>cs_name = ob_name item, cs_type = crd_type (ob_body item), cs_version = crd_version (ob_body item),
                 cs_metadata = Some properties, cs_scopes = ob_scopes item\<rparr>, m))"

section \<open>The watcher\<close>

datatype kind = KComponent | KConfiguration

record 'b object_watcher =
  ow_maps :: "kind \<Rightarrow> (string, 'b object) fmap"
  ow_chans :: "kind \<Rightarrow> nat list"

definition new_object_watcher :: "'b object_watcher" where
  "new_object_watcher = \<lparr>ow_maps = (\<lambda>k. fmempty), ow_chans = (\<lambda>k. [])\<rparr>"

text \<open>\<^verbatim>\<open>updateComponent\<close> and \<^verbatim>\<open>updateConfiguration\<close>, the part under the write lock.\<close>

definition store_object :: "kind \<Rightarrow> 'b object \<Rightarrow> 'b object_watcher \<Rightarrow> 'b object_watcher" where
  "store_object k x ow = ow\<lparr>ow_maps := (ow_maps ow)(k := fmupd (ob_uid x) x (ow_maps ow k))\<rparr>"

text \<open>\<^verbatim>\<open>componentChange\<close> and \<^verbatim>\<open>configurationChange\<close>: one goroutine with a send per channel.\<close>

definition change_sends :: "kind \<Rightarrow> 'b object \<Rightarrow> 'b object_watcher \<Rightarrow> (nat \<times> 'b object) list" where
  "change_sends k x ow = map (\<lambda>c. (c, x)) (ow_chans ow k)"

definition add_listener :: "kind \<Rightarrow> nat \<Rightarrow> 'b object_watcher \<Rightarrow> 'b object_watcher" where
  "add_listener k c ow = ow\<lparr>ow_chans := (ow_chans ow)(k := ow_chans ow k @ [c])\<rparr>"

fun other_chans :: "nat \<Rightarrow> nat list \<Rightarrow> nat list" where
  "other_chans c [] = []"
| "other_chans c (d # ds) = (if d \<noteq> c then d # other_chans c ds else other_chans c ds)"

definition remove_listener :: "kind \<Rightarrow> nat \<Rightarrow> 'b object_watcher \<Rightarrow> 'b object_watcher" where
  "remove_listener k c ow = ow\<lparr>ow_chans := (ow_chans ow)(k := other_chans c (ow_chans ow k))\<rparr>"

text \<open>\<^verbatim>\<open>replayComponents\<close> and \<^verbatim>\<open>replayConfigs\<close> send the objects in the order of the map's range.\<close>

definition replay_items :: "kind \<Rightarrow> string list \<Rightarrow> 'b object_watcher \<Rightarrow> 'b object list" where
  "replay_items k ks ow = map (\<lambda>u. the (fmlookup (ow_maps ow k) u)) ks"

lemma other_chans_filter: "other_chans c ds = filter (\<lambda>d. d \<noteq> c) ds"
  by (induction ds) auto

interpretation watcher: listener_list "add_listener k" "remove_listener k" "\<lambda>ow. ow_chans ow k" for k
  by unfold_locales (auto simp: add_listener_def remove_listener_def other_chans_filter)

text \<open>The \<open>DeleteFunc\<close> handlers only log.\<close>

definition delete_object :: "kind \<Rightarrow> 'b object \<Rightarrow> 'b object_watcher \<Rightarrow> 'b object_watcher" where
  "delete_object k x ow = ow"

text \<open>
  What the informer of a kind calls: the first part of an update; the announcement to the channels
  (\<open>change_sends\<close>) follows in a step of its own below, since the lock is released in between.
\<close>

datatype 'b informer_event = Added "'b object" | Updated "'b object" "'b object" | Deleted "'b object"

fun handle_event :: "kind \<Rightarrow> 'b informer_event \<Rightarrow> 'b object_watcher \<Rightarrow> 'b object_watcher" where
  "handle_event k (Added x) ow = store_object k x ow"
| "handle_event k (Updated old x) ow = store_object k x ow"
| "handle_event k (Deleted x) ow = delete_object k x ow"

text \<open>The operations as the code names them, one copy for each kind.\<close>

definition start_watching_for_components :: "'b informer_event \<Rightarrow> 'b object_watcher \<Rightarrow> 'b object_watcher" where
  "start_watching_for_components = handle_event KComponent"

definition start_watching_for_configurations :: "'b informer_event \<Rightarrow> 'b object_watcher \<Rightarrow> 'b object_watcher" where
  "start_watching_for_configurations = handle_event KConfiguration"

definition update_configuration :: "'b object \<Rightarrow> 'b object_watcher \<Rightarrow> 'b object_watcher" where
  "update_configuration = store_object KConfiguration"

definition configuration_change :: "'b object \<Rightarrow> 'b object_watcher \<Rightarrow> (nat \<times> 'b object) list" where
  "configuration_change = change_sends KConfiguration"

definition add_configuration_listener :: "nat \<Rightarrow> 'b object_watcher \<Rightarrow> 'b object_watcher" where
  "add_configuration_listener = add_listener KConfiguration"

definition replay_configs :: "string list \<Rightarrow> 'b object_watcher \<Rightarrow> 'b object list" where
  "replay_configs = replay_items KConfiguration"

definition remove_configuration_listener :: "nat \<Rightarrow> 'b object_watcher \<Rightarrow> 'b object_watcher" where
  "remove_configuration_listener = remove_listener KConfiguration"

text \<open>The two kinds do not touch each other's objects and listeners.\<close>

lemma kinds_independent:
  "k \<noteq> k' \<Longrightarrow> ow_maps (handle_event k ev ow) k' = ow_maps ow k'"
  "k \<noteq> k' \<Longrightarrow> ow_chans (add_listener k c ow) k' = ow_chans ow k'"
  "k \<noteq> k' \<Longrightarrow> ow_chans (remove_listener k c ow) k' = ow_chans ow k'"
  by (cases ev) (simp_all add: store_object_def delete_object_def add_listener_def remove_listener_def)

text \<open>After any sequence of events the map holds the last version of every object that was ever seen.\<close>

fun event_object :: "'b informer_event \<Rightarrow> 'b object option" where
  "event_object (Added x) = Some x"
| "event_object (Updated old x) = Some x"
| "event_object (Deleted x) = None"

lemma events_keep_last:
  "fmlookup (ow_maps (fold (handle_event k) evs ow) k) u =
     (case find (\<lambda>x. ob_uid x = u) (List.map_filter event_object (rev evs)) of
        Some x \<Rightarrow> Some x
      | None \<Rightarrow> fmlookup (ow_maps ow k) u)"
proof (induction evs rule: rev_induct)
  case Nil
  then show ?case by (simp add: List.map_filter_def)
next
  case (snoc ev evs)
  then show ?case
    by (cases ev) (auto simp: List.map_filter_def store_object_def delete_object_def)
qed

theorem deleted_object_still_replayed:
  "fmlookup (ow_maps (delete_object k x (store_object k x ow)) k) (ob_uid x) = Some x"
  by (simp add: delete_object_def store_object_def)

section \<open>The streams\<close>

datatype watch_pc = Watching | Leaving | Gone

text \<open>\<open>ws_received\<close> is what the stream took from its channel, \<open>ws_sent\<close> what it sent on to its client.\<close>

record 'b watch_stream =
  ws_kind :: kind
  ws_namespace :: string
  ws_config_name :: string
  ws_pc :: watch_pc
  ws_received :: "'b object list"
  ws_sent :: "'b object list"

definition new_watch_stream :: "kind \<Rightarrow> string \<Rightarrow> string \<Rightarrow> 'b watch_stream" where
  "new_watch_stream k namespace config_name =
     \<lparr>ws_kind = k, ws_namespace = namespace, ws_config_name = config_name, ws_pc = Watching,
      ws_received = [], ws_sent = []\<rparr>"

definition wants :: "'b watch_stream \<Rightarrow> 'b object \<Rightarrow> bool" where
  "wants st x \<longleftrightarrow>
     (case ws_kind st of
        KComponent \<Rightarrow> ob_namespace x = ws_namespace st
      | KConfiguration \<Rightarrow> ob_namespace x = ws_namespace st \<and> ob_name x = ws_config_name st)"

definition take_object :: "'b object \<Rightarrow> 'b watch_stream \<Rightarrow> 'b watch_stream" where
  "take_object x st =
     st\<lparr>ws_received := ws_received st @ [x],
        ws_sent := (if wants st x then ws_sent st @ [x] else ws_sent st)\<rparr>"

section \<open>Goroutines\<close>

text \<open>
  \<open>os_changing\<close> is an informer's handler between its write lock and its read lock, \<open>os_sends\<close> the
  goroutines of changes that wait to send, \<open>os_starting\<close> the replays that do not have the read lock yet,
  and \<open>os_replays\<close> those that hold it, with what they have still to send.  A writer waits until
  there is no replay.
\<close>

record 'b operator_state =
  os_watcher :: "'b object_watcher"
  os_changing :: "kind \<Rightarrow> 'b object option"
  os_sends :: "(nat \<times> 'b object) list"
  os_starting :: "nat list"
  os_replays :: "(nat \<times> 'b object list) list"
  os_streams :: "nat \<Rightarrow> 'b watch_stream option"

definition operator_init :: "'b operator_state \<Rightarrow> bool" where
  "operator_init s \<longleftrightarrow>
     s = \<lparr>os_watcher = new_object_watcher, os_changing = (\<lambda>k. None), os_sends = [], os_starting = [],
          os_replays = [], os_streams = (\<lambda>c. None)\<rparr>"

definition put_stream :: "nat \<Rightarrow> 'b watch_stream \<Rightarrow> 'b operator_state \<Rightarrow> 'b operator_state" where
  "put_stream c st s = s\<lparr>os_streams := (os_streams s)(c := Some st)\<rparr>"

inductive operator_step :: "'b operator_state \<Rightarrow> 'b operator_state \<Rightarrow> bool" where
  update: "os_changing s k = None \<Longrightarrow> os_replays s = []
    \<Longrightarrow> operator_step s (s\<lparr>os_watcher := store_object k x (os_watcher s), os_changing := (os_changing s)(k := Some x)\<rparr>)"
| change: "os_changing s k = Some x
    \<Longrightarrow> operator_step s (s\<lparr>os_changing := (os_changing s)(k := None),
          os_sends := os_sends s @ change_sends k x (os_watcher s)\<rparr>)"
| watch: "os_streams s c = None \<Longrightarrow> os_replays s = []
    \<Longrightarrow> operator_step s (put_stream c (new_watch_stream k namespace config_name)
          (s\<lparr>os_watcher := add_listener k c (os_watcher s), os_starting := os_starting s @ [c]\<rparr>))"
| replay_starts: "os_starting s = as @ c # bs \<Longrightarrow> os_streams s c = Some st
    \<Longrightarrow> enumerates ks (ow_maps (os_watcher s) (ws_kind st))
    \<Longrightarrow> operator_step s (s\<lparr>os_starting := as @ bs,
          os_replays := os_replays s @ [(c, replay_items (ws_kind st) ks (os_watcher s))]\<rparr>)"
| replay_sends: "os_replays s = as @ (c, x # xs) # bs \<Longrightarrow> os_streams s c = Some st \<Longrightarrow> ws_pc st = Watching
    \<Longrightarrow> operator_step s (put_stream c (take_object x st) (s\<lparr>os_replays := as @ (c, xs) # bs\<rparr>))"
| replay_ends: "os_replays s = as @ (c, []) # bs \<Longrightarrow> operator_step s (s\<lparr>os_replays := as @ bs\<rparr>)"
| change_sent: "os_sends s = as @ (c, x) # bs \<Longrightarrow> os_streams s c = Some st \<Longrightarrow> ws_pc st = Watching
    \<Longrightarrow> operator_step s (put_stream c (take_object x st) (s\<lparr>os_sends := as @ bs\<rparr>))"
| stream_done: "os_streams s c = Some st \<Longrightarrow> ws_pc st = Watching
    \<Longrightarrow> operator_step s (put_stream c (st\<lparr>ws_pc := Leaving\<rparr>) s)"
| unwatch: "os_streams s c = Some st \<Longrightarrow> ws_pc st = Leaving \<Longrightarrow> os_replays s = []
    \<Longrightarrow> operator_step s (put_stream c (st\<lparr>ws_pc := Gone\<rparr>)
          (s\<lparr>os_watcher := remove_listener (ws_kind st) c (os_watcher s)\<rparr>))"

inductive_cases operator_stepE: "operator_step s t"

lemma put_stream_simps [simp]:
  "os_watcher (put_stream c st s) = os_watcher s" "os_changing (put_stream c st s) = os_changing s"
  "os_sends (put_stream c st s) = os_sends s" "os_starting (put_stream c st s) = os_starting s"
  "os_replays (put_stream c st s) = os_replays s"
  "os_streams (put_stream c st s) = (os_streams s)(c := Some st)"
  by (simp_all add: put_stream_def)

lemma take_object_simps [simp]:
  "ws_kind (take_object x st) = ws_kind st" "ws_pc (take_object x st) = ws_pc st"
  "ws_received (take_object x st) = ws_received st @ [x]"
  by (simp_all add: take_object_def)

section \<open>No update is lost\<close>

text \<open>Where an object that is stored now is, as far as a stream is concerned.\<close>

definition on_its_way :: "'b operator_state \<Rightarrow> nat \<Rightarrow> 'b watch_stream \<Rightarrow> 'b object \<Rightarrow> bool" where
  "on_its_way s c st x \<longleftrightarrow>
     (c, x) \<in> set (os_sends s) \<or> (\<exists>l. (c, l) \<in> set (os_replays s) \<and> x \<in> set l)
     \<or> c \<in> set (os_starting s) \<or> os_changing s (ws_kind st) = Some x"

definition stream_ok :: "'b operator_state \<Rightarrow> nat \<Rightarrow> 'b watch_stream \<Rightarrow> bool" where
  "stream_ok s c st \<longleftrightarrow>
     ws_sent st = filter (wants st) (ws_received st)
     \<and> (ws_pc st = Watching \<longrightarrow>
          c \<in> set (ow_chans (os_watcher s) (ws_kind st))
          \<and> (\<forall>u x. fmlookup (ow_maps (os_watcher s) (ws_kind st)) u = Some x \<longrightarrow>
               x \<in> set (ws_received st) \<or> on_its_way s c st x))"

definition operator_inv :: "'b operator_state \<Rightarrow> bool" where
  "operator_inv s \<longleftrightarrow> (\<forall>c st. os_streams s c = Some st \<longrightarrow> stream_ok s c st)"

lemma wants_kind: "ws_kind st = ws_kind st' \<Longrightarrow> ws_namespace st = ws_namespace st'
   \<Longrightarrow> ws_config_name st = ws_config_name st' \<Longrightarrow> wants st = wants st'"
  by (rule ext) (simp add: wants_def split: kind.split)

lemma take_object_sent:
  "ws_sent st = filter (wants st) (ws_received st) \<Longrightarrow>
     ws_sent (take_object x st) = filter (wants (take_object x st)) (ws_received (take_object x st))"
  by (simp add: take_object_def wants_kind [of "st\<lparr>ws_received := r, ws_sent := q\<rparr>" st for r q])

lemma replay_items_complete:
  "enumerates ks (ow_maps ow k) \<Longrightarrow> fmlookup (ow_maps ow k) u = Some x \<Longrightarrow> x \<in> set (replay_items k ks ow)"
  using enumerates_mem [of ks "ow_maps ow k" u] by (force simp: replay_items_def)

text \<open>
  A stream that a step does not touch stays as it is when whatever is stored after the step is on its
  way, or was stored before it and is not lost on its way.
\<close>

lemma stream_ok_frame:
  assumes "stream_ok s c st"
    and "c \<in> set (ow_chans (os_watcher s) (ws_kind st)) \<Longrightarrow> c \<in> set (ow_chans (os_watcher t) (ws_kind st))"
    and "\<And>u x. c \<in> set (ow_chans (os_watcher s) (ws_kind st)) \<Longrightarrow>
      fmlookup (ow_maps (os_watcher t) (ws_kind st)) u = Some x \<Longrightarrow>
      on_its_way t c st x \<or> fmlookup (ow_maps (os_watcher s) (ws_kind st)) u = Some x
        \<and> (on_its_way s c st x \<longrightarrow> on_its_way t c st x)"
  shows "stream_ok t c st"
  using assms unfolding stream_ok_def by meson

text \<open>A stream that takes an object off its way.\<close>

lemma stream_ok_take:
  assumes "stream_ok s c st" and "os_watcher t = os_watcher s"
    and "\<And>y. on_its_way s c st y \<Longrightarrow> y = x \<or> on_its_way t c (take_object x st) y"
  shows "stream_ok t c (take_object x st)"
  using assms take_object_sent [of st x] unfolding stream_ok_def by fastforce

text \<open>A stream that is not watching any more.\<close>

lemma stream_ok_left:
  assumes "stream_ok s c st" and "pc \<noteq> Watching"
  shows "stream_ok t c (st\<lparr>ws_pc := pc\<rparr>)"
  using assms wants_kind [of "st\<lparr>ws_pc := pc\<rparr>" st] unfolding stream_ok_def by simp

lemma operator_inv_set:
  assumes "operator_inv s" and "os_streams t = (os_streams s)(c := Some st)" and "stream_ok t c st"
    and "\<And>d st'. d \<noteq> c \<Longrightarrow> stream_ok s d st' \<Longrightarrow> stream_ok t d st'"
  shows "operator_inv t"
  using assms unfolding operator_inv_def by simp

lemma operator_inv_keep:
  assumes "operator_inv s" and "os_streams t = os_streams s"
    and "\<And>d st. os_streams s d = Some st \<Longrightarrow> stream_ok s d st \<Longrightarrow> stream_ok t d st"
  shows "operator_inv t"
  using assms unfolding operator_inv_def by simp

lemma operator_inv_step:
  assumes inv: "operator_inv s" and step: "operator_step s t"
  shows "operator_inv t"
proof -
  have ok: "os_streams s c = Some st \<Longrightarrow> stream_ok s c st" for c st using inv unfolding operator_inv_def by blast
  from step show ?thesis
  proof cases
    case (update k x)
    show ?thesis
      by (rule operator_inv_keep [OF inv], simp add: update(1), erule stream_ok_frame)
        (auto simp: update(1,2) store_object_def on_its_way_def split: if_split_asm)
  next
    case (change k x)
    show ?thesis
      by (rule operator_inv_keep [OF inv], simp add: change(1), erule stream_ok_frame)
        (auto simp: change(1,2) change_sends_def on_its_way_def)
  next
    case (watch c k namespace config_name)
    have "stream_ok t c (new_watch_stream k namespace config_name)"
      by (auto simp: stream_ok_def watch(1) new_watch_stream_def add_listener_def on_its_way_def)
    then show ?thesis
      by (rule operator_inv_set [OF inv, rotated], simp add: watch(1))
        (erule stream_ok_frame, auto simp: watch(1) add_listener_def on_its_way_def)
  next
    case (replay_starts as c bs st ks)
    have way: "on_its_way t d st' x"
      if d: "os_streams s d = Some st'" and w: "on_its_way s d st' x"
        and x: "fmlookup (ow_maps (os_watcher s) (ws_kind st')) u = Some x" for d st' u x
    proof (cases "d = c")
      case True
      then have "st' = st" using d replay_starts(3) by simp
      then have "x \<in> set (replay_items (ws_kind st) ks (os_watcher s))"
        using replay_items_complete [OF replay_starts(4)] x by simp
      then show ?thesis using True by (auto simp: on_its_way_def replay_starts(1))
    next
      case False
      with w show ?thesis by (auto simp: on_its_way_def replay_starts(1,2))
    qed
    have same: "os_watcher t = os_watcher s" by (simp add: replay_starts(1))
    show ?thesis
      by (rule operator_inv_keep [OF inv], simp add: replay_starts(1), erule stream_ok_frame)
        (use way in \<open>auto simp: same\<close>)
  next
    case (replay_sends as c x xs bs st)
    have "stream_ok t c (take_object x st)"
      using ok [OF replay_sends(3)]
      by (rule stream_ok_take) (auto simp: replay_sends(1,2) on_its_way_def)
    then show ?thesis
      by (rule operator_inv_set [OF inv, rotated], simp add: replay_sends(1))
        (erule stream_ok_frame, auto simp: replay_sends(1,2) on_its_way_def)
  next
    case (replay_ends as c bs)
    show ?thesis
      by (rule operator_inv_keep [OF inv], simp add: replay_ends(1), erule stream_ok_frame)
        (auto simp: replay_ends(1,2) on_its_way_def)
  next
    case (change_sent as c x bs st)
    have "stream_ok t c (take_object x st)"
      using ok [OF change_sent(3)]
      by (rule stream_ok_take) (auto simp: change_sent(1,2) on_its_way_def)
    then show ?thesis
      by (rule operator_inv_set [OF inv, rotated], simp add: change_sent(1))
        (erule stream_ok_frame, auto simp: change_sent(1,2) on_its_way_def)
  next
    case (stream_done c st)
    have "stream_ok t c (st\<lparr>ws_pc := Leaving\<rparr>)" using ok [OF stream_done(2)] by (rule stream_ok_left) simp
    then show ?thesis
      by (rule operator_inv_set [OF inv, rotated], simp add: stream_done(1))
        (erule stream_ok_frame, auto simp: stream_done(1) on_its_way_def)
  next
    case (unwatch c st)
    have "stream_ok t c (st\<lparr>ws_pc := Gone\<rparr>)" using ok [OF unwatch(2)] by (rule stream_ok_left) simp
    then show ?thesis
      by (rule operator_inv_set [OF inv, rotated], simp add: unwatch(1))
        (erule stream_ok_frame, auto simp: unwatch(1) on_its_way_def remove_listener_def other_chans_filter)
  qed
qed

interpretation no_lost_update: invariant_system operator_step operator_inv operator_init
proof
  show "operator_inv t" if "operator_inv s" "operator_step s t" for s t :: "'b operator_state"
    using that by (rule operator_inv_step)
  show "operator_inv s" if "operator_init s" for s :: "'b operator_state"
    using that by (simp add: operator_inv_def operator_init_def)
qed

section \<open>Blocking\<close>

text \<open>
  A replay has still to send to a stream that has left its loop and waits for the write lock to remove
  its channel.
\<close>

definition replay_deadlock :: "nat \<Rightarrow> 'b object \<Rightarrow> 'b object list \<Rightarrow> 'b object_watcher \<Rightarrow> 'b operator_state \<Rightarrow> bool" where
  "replay_deadlock c x xs ow s \<longleftrightarrow>
     (c, x # xs) \<in> set (os_replays s) \<and> (\<exists>st. os_streams s c = Some st \<and> ws_pc st = Leaving) \<and> os_watcher s = ow"

lemma replay_deadlock_step:
  assumes "replay_deadlock c x xs ow s" and "operator_step s t"
  shows "replay_deadlock c x xs ow t"
  using assms(2)
proof cases
  case (replay_sends as d y ys bs st)
  with assms(1) have "d \<noteq> c" by (auto simp: replay_deadlock_def)
  with assms(1) replay_sends show ?thesis by (auto simp: replay_deadlock_def)
next
  case (change_sent as d y bs st)
  with assms(1) have "d \<noteq> c" by (auto simp: replay_deadlock_def)
  with assms(1) change_sent show ?thesis by (auto simp: replay_deadlock_def)
next
  case (stream_done d st)
  with assms(1) have "d \<noteq> c" by (auto simp: replay_deadlock_def)
  with assms(1) stream_done show ?thesis by (auto simp: replay_deadlock_def)
qed (use assms(1) in \<open>auto simp: replay_deadlock_def\<close>)

interpretation stuck_replay: preserved operator_step "replay_deadlock c x xs ow"
  by unfold_locales (rule replay_deadlock_step)

section \<open>Overtaking\<close>

text \<open>Steps from a state that is given as a value.\<close>

lemma operator_then: "reachable operator_init operator_step s \<Longrightarrow> operator_step s t' \<Longrightarrow> t' = t
  \<Longrightarrow> reachable operator_init operator_step t"
  by (metis reachable_step)

definition watching_state :: "nat \<Rightarrow> 'b watch_stream \<Rightarrow> 'b object_watcher \<Rightarrow> (nat \<times> 'b object) list \<Rightarrow> 'b operator_state" where
  "watching_state c st ow sends =
     \<lparr>os_watcher = add_listener (ws_kind st) c ow, os_changing = (\<lambda>k. None), os_sends = sends, os_starting = [],
      os_replays = [], os_streams = (\<lambda>c. None)(c := Some st)\<rparr>"

text \<open>A stream that begins to watch when nothing is stored.\<close>

lemma first_watch_reached:
  "reachable operator_init operator_step (watching_state c (new_watch_stream k namespace config_name) new_object_watcher [])"
proof -
  let ?st = "new_watch_stream k namespace config_name :: 'b watch_stream"
  let ?s0 = "\<lparr>os_watcher = new_object_watcher, os_changing = (\<lambda>k. None), os_sends = [], os_starting = [],
      os_replays = [], os_streams = (\<lambda>c. None)\<rparr> :: 'b operator_state"
  let ?w = "watching_state c ?st new_object_watcher []"
  have "reachable operator_init operator_step ?s0" by (rule reachable_init) (simp add: operator_init_def)
  then have "reachable operator_init operator_step (?w\<lparr>os_starting := [c]\<rparr>)"
    by (rule operator_then [OF _ operator_step.watch [of _ c k namespace config_name]])
      (simp_all add: put_stream_def watching_state_def new_watch_stream_def)
  then have "reachable operator_init operator_step (?w\<lparr>os_replays := [(c, [])]\<rparr>)"
    by (rule operator_then [OF _ operator_step.replay_starts [of _ "[]" c "[]" ?st "[]"]])
      (simp_all add: watching_state_def new_watch_stream_def new_object_watcher_def add_listener_def replay_items_def
        enumerates_def)
  then show ?thesis
    by (rule operator_then [OF _ operator_step.replay_ends [of _ "[]" c "[]"]])
      (simp_all add: watching_state_def)
qed

text \<open>An update: the object is stored, and a goroutine waits to send it.\<close>

lemma watched_update:
  assumes "reachable operator_init operator_step (watching_state c st ow sends)"
    and "ow_chans ow (ws_kind st) = []"
  shows "reachable operator_init operator_step (watching_state c st (store_object (ws_kind st) x ow) (sends @ [(c, x)]))"
proof -
  let ?k = "ws_kind st"
  let ?t = "watching_state c st (store_object ?k x ow) sends"
  from assms(1) have "reachable operator_init operator_step (?t\<lparr>os_changing := (\<lambda>k. None)(?k := Some x)\<rparr>)"
    by (rule operator_then [OF _ operator_step.update [of _ ?k x]])
      (simp_all add: watching_state_def add_listener_def store_object_def)
  then show ?thesis
    by (rule operator_then [OF _ operator_step.change [of _ ?k x]])
      (simp_all add: watching_state_def change_sends_def add_listener_def store_object_def assms(2))
qed

lemma watched_send:
  assumes "reachable operator_init operator_step (watching_state c st ow (as @ (c, x) # bs))"
    and "ws_pc st = Watching"
  shows "reachable operator_init operator_step (watching_state c (take_object x st) ow (as @ bs))"
  using assms(1)
  by (rule operator_then [OF _ operator_step.change_sent [of _ as c x bs st]])
      (simp_all add: watching_state_def put_stream_def assms(2))

section \<open>Properties\<close>

text \<open>C9: no update is lost: once nothing is on its way to a stream that still watches, the stream has taken
  every object that is stored for its kind, and has sent its client those of the namespace (and name)
  it asked for.\<close>

theorem watch_gets_every_object:
  assumes "reachable operator_init operator_step s"
    and "os_streams s c = Some st" and "ws_pc st = Watching"
    and "\<forall>x. \<not> on_its_way s c st x"
    and "fmlookup (ow_maps (os_watcher s) (ws_kind st)) u = Some x"
  shows "x \<in> set (ws_received st) \<and> (x \<in> set (ws_sent st) \<longleftrightarrow> wants st x)"
proof -
  from no_lost_update.inv_reachable [OF assms(1)] assms(2) have "stream_ok s c st" by (simp add: operator_inv_def)
  with assms(3-5) show ?thesis unfolding stream_ok_def by auto
qed

text \<open>C37: when a stream ends before its replay has sent it everything, the operator stops for good: the
  replay keeps the read lock, so from then on no object is stored and no stream is added or removed.\<close>

theorem replay_deadlock_permanent:
  assumes "replay_deadlock c x xs ow s" and "operator_step\<^sup>*\<^sup>* s t"
  shows "os_watcher t = ow \<and> (c, x # xs) \<in> set (os_replays t)"
  using stuck_replay.inv_steps [OF assms(2,1)] by (simp add: replay_deadlock_def)

text \<open>C29: the operator does not keep the order of updates: the goroutines that announce two changes of an object
  can send in the reverse order.  So there are reachable states in which nothing is on its way to a stream
  that watches and the operator stores the new version of the object, but the last version that the client was
  sent is the old one.\<close>

theorem stale_version_sent_last:
  assumes "ob_uid old = ob_uid new"
    and "wants (new_watch_stream k namespace config_name) old"
    and "wants (new_watch_stream k namespace config_name) new"
  shows "\<exists>s st. reachable operator_init operator_step s \<and> os_streams s c = Some st
    \<and> (ws_kind st = k \<and> ws_namespace st = namespace \<and> ws_config_name st = config_name \<and> ws_pc st = Watching)
    \<and> (\<forall>x. \<not> on_its_way s c st x)
    \<and> fmlookup (ow_maps (os_watcher s) k) (ob_uid new) = Some new \<and> ws_sent st = [new, old]"
proof -
  let ?st = "new_watch_stream k namespace config_name"
  let ?ow = "store_object k new (store_object k old new_object_watcher)"
  have kind: "ws_kind ?st = k" by (simp add: new_watch_stream_def)
  have pc: "ws_pc ?st = Watching" by (simp add: new_watch_stream_def)
  have chans: "ow_chans (store_object k old new_object_watcher) k = []" "ow_chans new_object_watcher k = []"
    by (simp_all add: store_object_def new_object_watcher_def)
  have "reachable operator_init operator_step (watching_state c ?st ?ow ([(c, old)] @ (c, new) # []))"
    using watched_update [OF watched_update [OF first_watch_reached [of c k namespace config_name]], of old new] chans
    by (simp add: kind)
  from watched_send [OF this pc]
  have "reachable operator_init operator_step (watching_state c (take_object new ?st) ?ow ([] @ (c, old) # []))" by simp
  from watched_send [OF this]
  have "reachable operator_init operator_step (watching_state c (take_object old (take_object new ?st)) ?ow [])"
    by (simp add: pc)
  moreover have "ws_sent (take_object old (take_object new ?st)) = [new, old]"
    using assms(2,3) wants_kind [of "take_object new ?st" ?st] by (simp add: take_object_def new_watch_stream_def)
  ultimately show ?thesis
    by (intro exI conjI) (auto simp: watching_state_def on_its_way_def kind pc add_listener_def store_object_def
        take_object_def new_watch_stream_def assms(1))
qed

section \<open>Witnesses\<close>

definition sample_object :: "nat object" where
  "sample_object = \<lparr>ob_uid = ''u'', ob_name = ''n'', ob_namespace = ''ns'', ob_body = 1\<rparr>"

definition one_object :: "nat object_watcher" where
  "one_object = store_object KComponent sample_object new_object_watcher"

definition one_watch :: "(nat \<times> nat object list) list \<Rightarrow> nat watch_stream \<Rightarrow> nat operator_state" where
  "one_watch replays st =
     \<lparr>os_watcher = add_listener KComponent 0 one_object, os_changing = (\<lambda>k. None), os_sends = [], os_starting = [],
      os_replays = replays, os_streams = (\<lambda>c. None)(0 := Some st)\<rparr>"

abbreviation reachable_operator :: "nat operator_state \<Rightarrow> bool" where
  "reachable_operator \<equiv> reachable operator_init operator_step"

lemma one_watch_simps [simp]:
  "os_replays (one_watch rs st) = rs" "os_sends (one_watch rs st) = []" "os_starting (one_watch rs st) = []"
  "os_changing (one_watch rs st) k = None" "os_streams (one_watch rs st) = (\<lambda>c. None)(0 := Some st)"
  "os_watcher (one_watch rs st) = add_listener KComponent 0 one_object"
  "put_stream 0 st' (one_watch rs st) = one_watch rs st'"
  "(one_watch rs st)\<lparr>os_replays := rs'\<rparr> = one_watch rs' st"
  by (auto simp: one_watch_def put_stream_def)

text \<open>An object is stored, a stream begins to watch, and its replay has the read lock.\<close>

lemma replaying_reached: "reachable_operator (one_watch [(0, [sample_object])] (new_watch_stream KComponent ''ns'' []))"
proof -
  let ?s0 = "\<lparr>os_watcher = new_object_watcher, os_changing = (\<lambda>k. None), os_sends = [], os_starting = [],
      os_replays = [], os_streams = (\<lambda>c. None)\<rparr>"
  let ?s1 = "?s0\<lparr>os_watcher := one_object, os_changing := (\<lambda>k. None)(KComponent := Some sample_object)\<rparr>"
  let ?s2 = "?s0\<lparr>os_watcher := one_object\<rparr>"
  let ?st = "new_watch_stream KComponent ''ns'' []"
  let ?s3 = "(one_watch [] ?st)\<lparr>os_starting := [0]\<rparr>"
  have "reachable_operator ?s0" by (rule reachable_init) (simp add: operator_init_def)
  moreover have "operator_step ?s0 ?s1"
    using operator_step.update [of ?s0 KComponent sample_object] by (simp add: one_object_def)
  moreover have "operator_step ?s1 ?s2"
    using operator_step.change [of ?s1 KComponent sample_object]
    by (simp add: change_sends_def one_object_def store_object_def new_object_watcher_def)
  moreover have "operator_step ?s2 ?s3"
    using operator_step.watch [of ?s2 0 KComponent "''ns''" "[]"] by (simp add: put_stream_def one_watch_def)
  moreover have "operator_step ?s3 (one_watch [(0, [sample_object])] ?st)"
  proof -
    have "ow_maps (add_listener KComponent 0 one_object) KComponent = fmupd ''u'' sample_object fmempty"
      by (simp add: add_listener_def one_object_def store_object_def sample_object_def new_object_watcher_def)
    moreover have "enumerates [''u''] (fmupd ''u'' sample_object fmempty)" by (simp add: enumerates_def)
    ultimately show ?thesis
      using operator_step.replay_starts [of ?s3 "[]" 0 "[]" ?st "[''u'']"]
      by (simp add: new_watch_stream_def replay_items_def one_watch_def)
  qed
  ultimately show ?thesis by (meson reachable_step)
qed

theorem watch_gets_every_object_witness:
  "\<exists>s st. reachable_operator s \<and> os_streams s 0 = Some st \<and> sample_object \<in> set (ws_sent st)"
proof -
  let ?st = "take_object sample_object (new_watch_stream KComponent ''ns'' [])"
  have "reachable_operator (one_watch [(0, [])] ?st)"
    by (rule reachable_step [OF replaying_reached])
      (use operator_step.replay_sends [of "one_watch [(0, [sample_object])] (new_watch_stream KComponent ''ns'' [])"
          "[]" 0 sample_object "[]" "[]"] in \<open>simp add: new_watch_stream_def\<close>)
  then have reach: "reachable_operator (one_watch [] ?st)"
    by (rule reachable_step) (use operator_step.replay_ends [of "one_watch [(0, [])] ?st" "[]" 0 "[]"] in simp)
  have stored: "fmlookup (ow_maps (os_watcher (one_watch [] ?st)) (ws_kind ?st)) ''u'' = Some sample_object"
    by (simp add: new_watch_stream_def add_listener_def one_object_def store_object_def sample_object_def)
  have "wants ?st sample_object" by (simp add: wants_def new_watch_stream_def take_object_def sample_object_def)
  moreover have "\<forall>x. \<not> on_its_way (one_watch [] ?st) 0 ?st x" by (simp add: on_its_way_def)
  moreover have "ws_pc ?st = Watching" by (simp add: new_watch_stream_def)
  ultimately show ?thesis
    using watch_gets_every_object [OF reach _ _ _ stored, of 0] reach by fastforce
qed

theorem replay_deadlock_permanent_witness:
  "\<exists>s. reachable_operator s \<and> (\<forall>t. operator_step\<^sup>*\<^sup>* s t \<longrightarrow> os_watcher t = os_watcher s)"
proof -
  let ?st = "(new_watch_stream KComponent ''ns'' [])\<lparr>ws_pc := Leaving\<rparr> :: nat watch_stream"
  let ?s = "one_watch [(0, [sample_object])] ?st"
  have reach: "reachable_operator ?s"
    by (rule reachable_step [OF replaying_reached])
      (use operator_step.stream_done [of "one_watch [(0, [sample_object])] (new_watch_stream KComponent ''ns'' [])" 0]
        in \<open>simp add: new_watch_stream_def\<close>)
  have "replay_deadlock 0 sample_object [] (os_watcher ?s) ?s" by (simp add: replay_deadlock_def)
  from replay_deadlock_permanent [OF this] reach show ?thesis by blast
qed

theorem stale_version_sent_last_witness:
  "\<exists>s st. reachable_operator s \<and> os_streams s 0 = Some st
     \<and> fmlookup (ow_maps (os_watcher s) KComponent) ''u'' = Some (sample_object\<lparr>ob_body := 2\<rparr>)
     \<and> ob_body (last (ws_sent st)) = 1"
proof -
  let ?new = "sample_object\<lparr>ob_body := 2\<rparr>"
  have "ob_uid sample_object = ob_uid ?new" by simp
  moreover have "wants (new_watch_stream KComponent ''ns'' []) sample_object"
    and "wants (new_watch_stream KComponent ''ns'' []) ?new"
    by (simp_all add: wants_def new_watch_stream_def sample_object_def)
  ultimately obtain s st where "reachable_operator s" "os_streams s 0 = Some st"
    "fmlookup (ow_maps (os_watcher s) KComponent) (ob_uid ?new) = Some ?new" "ws_sent st = [?new, sample_object]"
    using stale_version_sent_last [of sample_object ?new KComponent "''ns''" "[]" 0] by blast
  then show ?thesis by (intro exI [of _ s] exI [of _ st]) (simp add: sample_object_def)
qed

end
