(* ===== verification/Operator_Client.thy ===== *)
theory Operator_Client
  imports Prelude
begin

text \<open>
  The sidecar's side of the operator streams (\<^verbatim>\<open>pkg/operator/client.go\<close>): \<^verbatim>\<open>GetComponentsWatcher\<close> and
  \<^verbatim>\<open>GetConfigurationWatcher\<close>, which differ in the type of the specs only.

  A round of the goroutine is one turn of its outer loop: whether the context was found done, what the
  stream delivered before its error, and whether the call that opens the next stream succeeded - its
  error is dropped, and the stream is then nil.  \<open>unmarshal\<close> gives the spec that is sent on, which is
  also sent when decoding failed.
\<close>

record 'd watch_round =
  wr_ctx_done :: bool
  wr_received :: "'d list"
  wr_reconnected :: bool

datatype watch_end = StillWatching | ChannelClosed | WatchPanic string

fun watch_specs :: "('d \<Rightarrow> 's) \<Rightarrow> bool \<Rightarrow> 'd watch_round list \<Rightarrow> 's list \<times> watch_end" where
  "watch_specs unmarshal stream_ok [] = ([], StillWatching)"
| "watch_specs unmarshal stream_ok (r # rs) =
     (if wr_ctx_done r then ([], ChannelClosed)
      else if \<not> stream_ok then ([], WatchPanic ''invalid memory address or nil pointer dereference'')
      else case watch_specs unmarshal (wr_reconnected r) rs of
          (specs, e) \<Rightarrow> (map unmarshal (wr_received r) @ specs, e))"

text \<open>\<open>opened\<close> is the error of the first call, which is the error of the watcher.\<close>

definition get_watcher :: "('d \<Rightarrow> 's) \<Rightarrow> error option \<Rightarrow> 'd watch_round list \<Rightarrow> error + 's list \<times> watch_end" where
  "get_watcher unmarshal opened rounds =
     (case opened of Some e \<Rightarrow> Inl e | None \<Rightarrow> Inr (watch_specs unmarshal True rounds))"

text \<open>As long as it can reconnect, the watcher sends on every message of every stream, in order.\<close>

theorem watcher_sends_everything:
  assumes "\<forall>r\<in>set rounds. \<not> wr_ctx_done r \<and> wr_reconnected r"
  shows "get_watcher unmarshal None rounds = Inr (map unmarshal (concat (map wr_received rounds)), StillWatching)"
proof -
  have "watch_specs unmarshal True rounds = (map unmarshal (concat (map wr_received rounds)), StillWatching)"
    using assms by (induction rounds) auto
  then show ?thesis by (simp add: get_watcher_def)
qed

text \<open>A reconnection that fails ends the process: the next turn receives from a nil stream.\<close>

theorem failed_reconnect_panics:
  assumes "\<not> wr_ctx_done r" and "\<not> wr_reconnected r" and "\<not> wr_ctx_done r2"
  shows "snd (watch_specs unmarshal True (r # r2 # rs)) = WatchPanic ''invalid memory address or nil pointer dereference''"
  using assms by simp

text \<open>
  \<^verbatim>\<open>newClient\<close>: \<open>dial\<close> is \<^verbatim>\<open>grpc.DialContext\<close> with the credentials and the retry policy, \<open>new_client\<close> the generated
  constructor.  The two functions that make a watcher only log its error, and the watcher they return calls the
  client: a method of a nil interface panics.
\<close>

definition new_operator_client :: "(string \<Rightarrow> error + 'conn) \<Rightarrow> ('conn \<Rightarrow> 'cl) \<Rightarrow> string \<Rightarrow> 'cl option \<times> error option" where
  "new_operator_client dial new_client address =
     (case dial address of Inl con_err \<Rightarrow> (None, Some con_err) | Inr conn \<Rightarrow> (Some (new_client conn), None))"

definition dialed_watcher :: "(string \<Rightarrow> error + 'conn) \<Rightarrow> ('conn \<Rightarrow> 'cl) \<Rightarrow> string \<Rightarrow> ('d \<Rightarrow> 's) \<Rightarrow> ('cl \<Rightarrow> error option)
    \<Rightarrow> 'd watch_round list \<Rightarrow> (error + 's list \<times> watch_end) outcome" where
  "dialed_watcher dial new_client address unmarshal open_stream rounds =
     (case new_operator_client dial new_client address of
        (None, err) \<Rightarrow> Panics ''invalid memory address or nil pointer dereference''
      | (Some client, err) \<Rightarrow> Returns (get_watcher unmarshal (open_stream client) rounds))"

text \<open>So a sidecar whose address of the control plane cannot be dialed does not end with the error it logged.\<close>

theorem undialed_watcher_panics:
  "dialed_watcher dial new_client address unmarshal open_stream rounds
      = Panics ''invalid memory address or nil pointer dereference'' \<longleftrightarrow> (\<exists>e. dial address = Inl e)"
  by (auto simp: dialed_watcher_def new_operator_client_def split: sum.splits)

end
