(* ===== verification/Operator_Wire.thy ===== *)
theory Operator_Wire
  imports Operator Operator_Client Configuration Messaging "HOL-Library.Monad_Syntax" "HOL-Library.Sublist"
begin

text \<open>
  What a configuration becomes on its way from the operator to a sidecar: the type of the Kubernetes
  object (\<^verbatim>\<open>pkg/operator/apis/rusi/v1alpha1/configurationTypes.go\<close>), the JSON that
  \<^verbatim>\<open>WatchConfiguration\<close> sends of it, and the specification \<^verbatim>\<open>GetConfigurationWatcher\<close> decodes
  (\<^verbatim>\<open>pkg/custom-resource/configuration/types.go\<close>); the same for \<^verbatim>\<open>components.Spec\<close>.

  The struct tags of both sides are in the sources, and are what is translated here: an encoder gives
  the JSON value of a struct, with \<^verbatim>\<open>omitempty\<close> dropping an empty text or slice (never a struct); a
  decoder starts from the struct it fills, ignores unknown fields, leaves absent fields and null structs
  alone, reads a null text as empty and a null slice or map as nil, takes the last of repeated fields, and
  is \<^term>\<open>None\<close> where a value has the wrong type.  Field names are compared as they are written.
  The bytes are the concern of the JSON library: \<open>print\<close> and \<open>parse\<close>.
\<close>

section \<open>The object of the operator\<close>

record crd_handler_spec =
  ch_name :: string
  ch_type :: string

record crd_configuration_spec =
  cc_subscriber_handlers :: "crd_handler_spec list option"
  cc_publisher_handlers :: "crd_handler_spec list option"
  cc_telemetry :: telemetry_spec
  cc_features :: "feature_spec list option"
  cc_pubsub_name :: string
  cc_min_runtime_version :: string

section \<open>Encoding\<close>

definition slice_json :: "('a \<Rightarrow> json) \<Rightarrow> 'a list option \<Rightarrow> json" where
  "slice_json f xs = (case xs of None \<Rightarrow> VNull | Some l \<Rightarrow> VArr (map f l))"

definition omit_empty :: "'a list \<Rightarrow> string \<Rightarrow> ('a list \<Rightarrow> json) \<Rightarrow> (string \<times> json) list" where
  "omit_empty xs k f = (if xs = [] then [] else [(k, f xs)])"

definition crd_handler_json :: "crd_handler_spec \<Rightarrow> json" where
  "crd_handler_json h = VObj [(''name'', VStr (ch_name h)), (''type'', VStr (ch_type h))]"

definition crd_pipeline_json :: "crd_handler_spec list option \<Rightarrow> json" where
  "crd_pipeline_json hs = VObj [(''handlers'', slice_json crd_handler_json hs)]"

definition telemetry_json :: "telemetry_spec \<Rightarrow> json" where
  "telemetry_json t =
     VObj [(''collectorEndpoint'', VStr (ts_collector_endpoint t)),
           (''tracing'', VObj [(''propagator'', VStr (ts_propagator t))])]"

definition feature_json :: "feature_spec \<Rightarrow> json" where
  "feature_json f = VObj [(''name'', VStr (fs_name f)), (''enabled'', VBool (fs_enabled f))]"

definition configuration_json :: "crd_configuration_spec \<Rightarrow> json" where
  "configuration_json c =
     VObj ([(''subscriberPipeline'', crd_pipeline_json (cc_subscriber_handlers c)),
            (''publisherPipeline'', crd_pipeline_json (cc_publisher_handlers c)),
            (''telemetry'', telemetry_json (cc_telemetry c))]
           @ omit_empty (slice (cc_features c)) ''features'' (\<lambda>fs. VArr (map feature_json fs))
           @ [(''pubSub'', VObj [(''name'', VStr (cc_pubsub_name c))])]
           @ omit_empty (cc_min_runtime_version c) ''minRuntimeVersion'' VStr)"

text \<open>A map is written in the order \<open>ks\<close> of its range.\<close>

definition map_json :: "string list \<Rightarrow> gomap \<Rightarrow> json" where
  "map_json ks m = (case m of None \<Rightarrow> VNull | Some f \<Rightarrow> VObj (map (\<lambda>k. (k, VStr (the (fmlookup f k)))) ks))"

definition component_json :: "string list \<Rightarrow> spec \<Rightarrow> json" where
  "component_json ks sp =
     VObj [(''Name'', VStr (cs_name sp)), (''Type'', VStr (cs_type sp)), (''version'', VStr (cs_version sp)),
           (''metadata'', map_json ks (cs_metadata sp)), (''scopes'', VArr (map VStr (cs_scopes sp)))]"

section \<open>Decoding\<close>

definition field_of :: "(string \<times> json) list \<Rightarrow> string \<Rightarrow> (json \<Rightarrow> 'a \<Rightarrow> 'a option) \<Rightarrow> 'a \<Rightarrow> 'a option" where
  "field_of fs k decode old = (case map_of (rev fs) k of None \<Rightarrow> Some old | Some v \<Rightarrow> decode v old)"

fun as_text :: "json \<Rightarrow> string \<Rightarrow> string option" where
  "as_text (VStr s) old = Some s"
| "as_text VNull old = Some []"
| "as_text v old = None"

fun as_bool :: "json \<Rightarrow> bool \<Rightarrow> bool option" where
  "as_bool (VBool b) old = Some b"
| "as_bool VNull old = Some old"
| "as_bool v old = None"

fun as_struct :: "((string \<times> json) list \<Rightarrow> 'a \<Rightarrow> 'a option) \<Rightarrow> json \<Rightarrow> 'a \<Rightarrow> 'a option" where
  "as_struct decode (VObj fs) old = decode fs old"
| "as_struct decode VNull old = Some old"
| "as_struct decode v old = None"

fun all_some :: "'a option list \<Rightarrow> 'a list option" where
  "all_some [] = Some []"
| "all_some (None # xs) = None"
| "all_some (Some x # xs) = map_option ((#) x) (all_some xs)"

fun as_slice :: "(json \<Rightarrow> 'a \<Rightarrow> 'a option) \<Rightarrow> 'a \<Rightarrow> json \<Rightarrow> 'a list option \<Rightarrow> 'a list option option" where
  "as_slice decode zero (VArr vs) old = map_option Some (all_some (map (\<lambda>v. decode v zero) vs))"
| "as_slice decode zero VNull old = Some None"
| "as_slice decode zero v old = None"

definition handler_fields :: "(string \<times> json) list \<Rightarrow> handler_spec \<Rightarrow> handler_spec option" where
  "handler_fields fs h = do {
     name \<leftarrow> field_of fs ''name'' as_text (hs_name h);
     ty \<leftarrow> field_of fs ''type'' as_text (hs_type h);
     version \<leftarrow> field_of fs ''version'' as_text (hs_version h);
     Some \<lparr>hs_name = name, hs_type = ty, hs_version = version\<rparr> }"

definition pipeline_fields :: "(string \<times> json) list \<Rightarrow> handler_spec list option \<Rightarrow> handler_spec list option option" where
  "pipeline_fields fs hs =
     field_of fs ''handlers'' (as_slice (as_struct handler_fields) \<lparr>hs_name = [], hs_type = [], hs_version = []\<rparr>) hs"

definition telemetry_fields :: "(string \<times> json) list \<Rightarrow> telemetry_spec \<Rightarrow> telemetry_spec option" where
  "telemetry_fields fs t = do {
     endpoint \<leftarrow> field_of fs ''collectorEndpoint'' as_text (ts_collector_endpoint t);
     propagator \<leftarrow> field_of fs ''tracing'' (as_struct (\<lambda>gs. field_of gs ''propagator'' as_text)) (ts_propagator t);
     Some \<lparr>ts_collector_endpoint = endpoint, ts_propagator = propagator\<rparr> }"

definition feature_fields :: "(string \<times> json) list \<Rightarrow> feature_spec \<Rightarrow> feature_spec option" where
  "feature_fields fs f = do {
     name \<leftarrow> field_of fs ''name'' as_text (fs_name f);
     enabled \<leftarrow> field_of fs ''enabled'' as_bool (fs_enabled f);
     Some \<lparr>fs_name = name, fs_enabled = enabled\<rparr> }"

definition configuration_fields :: "(string \<times> json) list \<Rightarrow> config_spec \<Rightarrow> config_spec option" where
  "configuration_fields fs c = do {
     subscriber \<leftarrow> field_of fs ''subscriberPipeline'' (as_struct pipeline_fields) (sp_subscriber_handlers c);
     publisher \<leftarrow> field_of fs ''publisherPipeline'' (as_struct pipeline_fields) (sp_publisher_handlers c);
     telemetry \<leftarrow> field_of fs ''telemetry'' (as_struct telemetry_fields) (sp_telemetry c);
     features \<leftarrow> field_of fs ''features''
       (as_slice (as_struct feature_fields) \<lparr>fs_name = [], fs_enabled = False\<rparr>) (sp_features c);
     pubsub \<leftarrow> field_of fs ''pubSub'' (as_struct (\<lambda>gs. field_of gs ''name'' as_text)) (sp_pubsub_name c);
     minimum \<leftarrow> field_of fs ''minRuntimeVersion'' as_text (sp_min_runtime_version c);
     Some \<lparr>sp_subscriber_handlers = subscriber, sp_publisher_handlers = publisher, sp_telemetry = telemetry,
           sp_features = features, sp_pubsub_name = pubsub, sp_min_runtime_version = minimum\<rparr> }"

text \<open>A map is filled key by key; a slice of texts starts from the empty text.\<close>

fun map_fields :: "(string \<times> json) list \<Rightarrow> gomap \<Rightarrow> gomap option" where
  "map_fields [] m = Some (Some (case m of None \<Rightarrow> fmempty | Some f \<Rightarrow> f))"
| "map_fields ((k, v) # fs) m = do {
     s \<leftarrow> as_text v [];
     map_fields fs (Some (fmupd k s (case m of None \<Rightarrow> fmempty | Some f \<Rightarrow> f))) }"

definition as_string_map :: "json \<Rightarrow> gomap \<Rightarrow> gomap option" where
  "as_string_map v m = (if v = VNull then Some None else as_struct map_fields v m)"

definition component_fields :: "(string \<times> json) list \<Rightarrow> spec \<Rightarrow> spec option" where
  "component_fields fs sp = do {
     name \<leftarrow> field_of fs ''Name'' as_text (cs_name sp);
     ty \<leftarrow> field_of fs ''Type'' as_text (cs_type sp);
     version \<leftarrow> field_of fs ''version'' as_text (cs_version sp);
     metadata \<leftarrow> field_of fs ''metadata'' as_string_map (cs_metadata sp);
     scopes \<leftarrow> field_of fs ''scopes'' (as_slice as_text []) (Some (cs_scopes sp));
     Some \<lparr>cs_name = name, cs_type = ty, cs_version = version, cs_metadata = metadata, cs_scopes = slice scopes\<rparr> }"

section \<open>Round trips\<close>

named_theorems wire_simps \<open>encoders and decoders of the operator's JSON\<close>

lemma field_of_simps [wire_simps]:
  "field_of [] k decode old = Some old"
  "field_of (fs @ [(k', v)]) k decode old = (if k = k' then decode v old else field_of fs k decode old)"
  by (simp_all add: field_of_def)

lemma map_of_rev_absent: "k \<notin> fst ` set fs \<Longrightarrow> map_of (rev fs) k = None"
  by (simp add: map_of_eq_None_iff)

lemma field_of_Cons [wire_simps]:
  "k \<notin> fst ` set fs \<Longrightarrow> field_of ((k, v) # fs) k decode old = decode v old"
  "k \<noteq> k' \<Longrightarrow> field_of ((k', v) # fs) k decode old = field_of fs k decode old"
  by (simp_all add: field_of_def map_add_def map_of_rev_absent split: option.splits)

lemma field_of_append [wire_simps]:
  "k \<notin> fst ` set gs \<Longrightarrow> field_of (fs @ gs) k decode old = field_of fs k decode old"
  "k \<notin> fst ` set fs \<Longrightarrow> field_of (fs @ gs) k decode old = field_of gs k decode old"
  by (simp_all add: field_of_def map_add_def map_of_rev_absent split: option.splits)

lemma all_some_map: "(\<And>x. x \<in> set xs \<Longrightarrow> f x = Some (g x)) \<Longrightarrow> all_some (map f xs) = Some (map g xs)"
  by (induction xs) auto

text \<open>A handler without a version arrives with an empty one.\<close>

definition sidecar_handler :: "crd_handler_spec \<Rightarrow> handler_spec" where
  "sidecar_handler h = \<lparr>hs_name = ch_name h, hs_type = ch_type h, hs_version = []\<rparr>"

lemma handler_roundtrip: "as_struct handler_fields (crd_handler_json h) \<lparr>hs_name = [], hs_type = [], hs_version = []\<rparr>
   = Some (sidecar_handler h)"
  by (simp add: crd_handler_json_def handler_fields_def sidecar_handler_def wire_simps)

lemma pipeline_roundtrip:
  "as_struct pipeline_fields (crd_pipeline_json hs) None = Some (map_option (map sidecar_handler) hs)"
  by (cases hs) (simp_all add: crd_pipeline_json_def pipeline_fields_def slice_json_def wire_simps
      all_some_map [where g = sidecar_handler] handler_roundtrip o_def)

lemma telemetry_roundtrip: "as_struct telemetry_fields (telemetry_json t) old = Some t"
  by (simp add: telemetry_json_def telemetry_fields_def wire_simps)

lemma feature_roundtrip: "as_struct feature_fields (feature_json f) old = Some f"
  by (simp add: feature_json_def feature_fields_def wire_simps)

text \<open>What the sidecar is to get of a configuration: a slice of features that is empty arrives as nil.\<close>

definition sidecar_configuration :: "crd_configuration_spec \<Rightarrow> config_spec" where
  "sidecar_configuration c =
     \<lparr>sp_subscriber_handlers = map_option (map sidecar_handler) (cc_subscriber_handlers c),
      sp_publisher_handlers = map_option (map sidecar_handler) (cc_publisher_handlers c),
      sp_telemetry = cc_telemetry c,
      sp_features = (if slice (cc_features c) = [] then None else cc_features c),
      sp_pubsub_name = cc_pubsub_name c, sp_min_runtime_version = cc_min_runtime_version c\<rparr>"

lemma configuration_roundtrip:
  "as_struct configuration_fields (configuration_json c) zero_config = Some (sidecar_configuration c)"
  by (cases "cc_features c"; cases "cc_min_runtime_version c")
    (simp_all add: configuration_json_def configuration_fields_def sidecar_configuration_def zero_config_def
      omit_empty_def wire_simps pipeline_roundtrip telemetry_roundtrip
      all_some_map [where g = "\<lambda>f. f"] feature_roundtrip o_def)

lemma map_fields_fold:
  "map_fields (map (\<lambda>k. (k, VStr (h k))) ks) (Some g) = Some (Some (fold (\<lambda>k. fmupd k (h k)) ks g))"
  by (induction ks arbitrary: g) auto

lemma fmlookup_fold_upd:
  "fmlookup (fold (\<lambda>k. fmupd k (h k)) ks g) x = (if x \<in> set ks then Some (h x) else fmlookup g x)"
  by (induction ks arbitrary: g) auto

lemma map_roundtrip:
  assumes "\<forall>f. m = Some f \<longrightarrow> enumerates ks f"
  shows "as_string_map (map_json ks m) None = Some m"
proof (cases m)
  case None
  then show ?thesis by (simp add: as_string_map_def map_json_def)
next
  case (Some f)
  with assms have ks: "enumerates ks f" by simp
  have "fold (\<lambda>k. fmupd k (the (fmlookup f k))) ks fmempty = f"
    by (intro fmap_ext) (use enumerates_mem [OF ks] in \<open>auto simp: fmlookup_fold_upd\<close>)
  moreover have "map_fields fs None = map_fields fs (Some fmempty)" for fs
    by (cases fs) auto
  ultimately show ?thesis by (simp add: Some as_string_map_def map_json_def map_fields_fold)
qed

definition zero_component :: spec where
  "zero_component = \<lparr>cs_name = [], cs_type = [], cs_version = [], cs_metadata = None, cs_scopes = []\<rparr>"

text \<open>A component keeps all its fields.\<close>

theorem component_roundtrip:
  assumes "\<forall>f. cs_metadata sp = Some f \<longrightarrow> enumerates ks f"
  shows "as_struct component_fields (component_json ks sp) zero_component = Some sp"
  by (simp add: component_json_def component_fields_def zero_component_def wire_simps map_roundtrip [OF assms]
      all_some_map [where g = "\<lambda>s. s"] o_def)

section \<open>From the operator to the sidecar\<close>

text \<open>
  What the sidecar decodes of an item, and the \<^verbatim>\<open>GenericItem\<close> the operator sends of an object.
  \<open>partial\<close> is what the JSON library leaves of a struct when it fails.
\<close>

definition decode_configuration :: "('d \<Rightarrow> json option) \<Rightarrow> ('d \<Rightarrow> config_spec) \<Rightarrow> 'd \<Rightarrow> config_spec" where
  "decode_configuration parse partial data =
     (case Option.bind (parse data) (\<lambda>v. as_struct configuration_fields v zero_config) of
        Some c \<Rightarrow> c
      | None \<Rightarrow> partial data)"

definition configuration_item :: "(json \<Rightarrow> 'd) \<Rightarrow> crd_configuration_spec object \<Rightarrow> 'd" where
  "configuration_item print x = print (configuration_json (ob_body x))"

text \<open>The loop of \<^verbatim>\<open>WatchConfiguration\<close> over the objects it takes from its channel.\<close>

definition stream_items :: "(json \<Rightarrow> 'd) \<Rightarrow> crd_configuration_spec watch_stream \<Rightarrow> 'd list" where
  "stream_items print st = map (configuration_item print) (ws_sent st)"

lemma fold_take_object:
  "ws_sent (fold take_object xs st) = ws_sent st @ filter (wants st) xs"
proof (induction xs arbitrary: st)
  case (Cons x xs)
  have "wants (take_object x st) = wants st" by (rule wants_kind) (simp_all add: take_object_def)
  with Cons show ?case by (simp add: take_object_def)
qed simp

lemma decode_configuration_item:
  assumes "\<forall>c. parse (print (configuration_json c)) = Some (configuration_json c)"
  shows "decode_configuration parse partial (configuration_item print x) = sidecar_configuration (ob_body x)"
  using assms by (simp add: decode_configuration_def configuration_item_def configuration_roundtrip)

text \<open>
  A round of the sidecar's watcher and the stream of the operator that serves it: every reconnection opens a stream of
  its own, with its own replay, in a state of the operator of its own (\<open>lk_operator\<close>, when the round ends).  A gRPC
  stream delivers in order, and what was sent last can be lost when it breaks: the round gets a prefix of what was sent.
\<close>

record 'd link =
  lk_operator :: "crd_configuration_spec operator_state"
  lk_stream :: nat
  lk_round :: "'d watch_round"

definition configuration_link :: "(json \<Rightarrow> 'd) \<Rightarrow> string \<Rightarrow> string \<Rightarrow> 'd link \<Rightarrow> bool" where
  "configuration_link print namespace config_name l \<longleftrightarrow>
     reachable operator_init operator_step (lk_operator l)
     \<and> (case os_streams (lk_operator l) (lk_stream l) of
          None \<Rightarrow> False
        | Some st \<Rightarrow> ws_kind st = KConfiguration \<and> ws_namespace st = namespace \<and> ws_config_name st = config_name
            \<and> prefix (wr_received (lk_round l)) (stream_items print st))"

text \<open>The objects that got through: the first ones of those the stream took and its test let pass.\<close>

definition delivered_objects :: "'d link \<Rightarrow> crd_configuration_spec object list" where
  "delivered_objects l =
     (case os_streams (lk_operator l) (lk_stream l) of
        None \<Rightarrow> []
      | Some st \<Rightarrow> take (length (wr_received (lk_round l))) (filter (wants st) (ws_received st)))"

lemma link_stream:
  assumes "configuration_link print namespace config_name l"
  obtains st where "os_streams (lk_operator l) (lk_stream l) = Some st" "stream_ok (lk_operator l) (lk_stream l) st"
    "ws_kind st = KConfiguration"
    "wants st = (\<lambda>x. ob_namespace x = namespace \<and> ob_name x = config_name)"
    "prefix (wr_received (lk_round l)) (stream_items print st)"
proof -
  from assms obtain st where st: "os_streams (lk_operator l) (lk_stream l) = Some st" "ws_kind st = KConfiguration"
    "ws_namespace st = namespace" "ws_config_name st = config_name"
    "prefix (wr_received (lk_round l)) (stream_items print st)"
    by (auto simp: configuration_link_def split: option.splits)
  have "operator_inv (lk_operator l)"
    by (rule no_lost_update.inv_reachable) (use assms in \<open>simp add: configuration_link_def\<close>)
  with st that show thesis by (auto simp: operator_inv_def wants_def fun_eq_iff)
qed

lemma link_items:
  assumes "configuration_link print namespace config_name l"
  shows "wr_received (lk_round l) = map (configuration_item print) (delivered_objects l)"
  using assms
proof (rule link_stream)
  fix st assume st: "os_streams (lk_operator l) (lk_stream l) = Some st" "stream_ok (lk_operator l) (lk_stream l) st"
    "prefix (wr_received (lk_round l)) (stream_items print st)"
  then obtain rest where "map (configuration_item print) (ws_sent st) = wr_received (lk_round l) @ rest"
    by (auto simp: stream_items_def prefix_def)
  then have "wr_received (lk_round l) = take (length (wr_received (lk_round l))) (map (configuration_item print) (ws_sent st))"
    by simp
  with st(1,2) show ?thesis by (simp add: delivered_objects_def stream_ok_def take_map)
qed

section \<open>Properties\<close>

text \<open>C8: how configurations reach a sidecar that can reconnect and is not stopped, over streams that lose what they
  sent last when they break.  Every round of its watcher has a stream of its own in the operator.  The watcher
  delivers, round after round and in order, one specification for each object of its namespace and name that got
  through - a first part of those the round's stream took from the operator - with every field of the
  object, except that a pipeline handler arrives with an empty version, which the operator's type of
  a handler lacks, and that an empty list of features arrives as nil.  And a round that lost nothing makes good
  what others lost: once nothing is on its way to its stream, which still watches, every configuration of that
  namespace and name that the operator stores has got through in it.\<close>

theorem configuration_reaches_sidecar:
  assumes "\<forall>c. parse (print (configuration_json c)) = Some (configuration_json c)"
    and "\<forall>l\<in>set links. configuration_link print namespace config_name l
      \<and> \<not> wr_ctx_done (lk_round l) \<and> wr_reconnected (lk_round l)"
  shows "get_watcher (decode_configuration parse partial) None (map lk_round links) =
      Inr (map (\<lambda>x. sidecar_configuration (ob_body x)) (concat (map delivered_objects links)), StillWatching)
    \<and> (\<forall>l\<in>set links. \<forall>x\<in>set (delivered_objects l). ob_namespace x = namespace \<and> ob_name x = config_name)
    \<and> (\<forall>l\<in>set links. \<forall>st u x. os_streams (lk_operator l) (lk_stream l) = Some st
        \<longrightarrow> wr_received (lk_round l) = stream_items print st
        \<longrightarrow> ws_pc st = Watching \<longrightarrow> (\<forall>y. \<not> on_its_way (lk_operator l) (lk_stream l) st y)
        \<longrightarrow> fmlookup (ow_maps (os_watcher (lk_operator l)) KConfiguration) u = Some x
        \<longrightarrow> ob_namespace x = namespace \<longrightarrow> ob_name x = config_name \<longrightarrow> x \<in> set (delivered_objects l))"
proof (intro conjI ballI allI impI)
  have "map wr_received (map lk_round links) = map (\<lambda>l. map (configuration_item print) (delivered_objects l)) links"
    using assms(2) link_items [of print namespace config_name] by auto
  moreover have "map (decode_configuration parse partial) (map (configuration_item print) xs)
      = map (\<lambda>x. sidecar_configuration (ob_body x)) xs" for xs
    by (simp add: decode_configuration_item [where parse = parse and print = print, OF assms(1)])
  then have "map (decode_configuration parse partial) (concat (map (\<lambda>l. map (configuration_item print) (f l)) ls))
      = map (\<lambda>x. sidecar_configuration (ob_body x)) (concat (map f ls))" for f and ls :: "'a link list"
    by (induction ls) simp_all
  moreover have "\<forall>r\<in>set (map lk_round links). \<not> wr_ctx_done r \<and> wr_reconnected r" using assms(2) by auto
  ultimately show "get_watcher (decode_configuration parse partial) None (map lk_round links) =
      Inr (map (\<lambda>x. sidecar_configuration (ob_body x)) (concat (map delivered_objects links)), StillWatching)"
    by (simp only: watcher_sends_everything)
next
  fix l x assume "l \<in> set links" "x \<in> set (delivered_objects l)"
  with assms(2) show "ob_namespace x = namespace" "ob_name x = config_name"
    by (auto simp: delivered_objects_def elim!: link_stream [of print namespace config_name l] dest!: in_set_takeD)
next
  fix l st u x
  assume l: "l \<in> set links" "os_streams (lk_operator l) (lk_stream l) = Some st"
    and all: "wr_received (lk_round l) = stream_items print st"
    and idle: "ws_pc st = Watching" "\<forall>y. \<not> on_its_way (lk_operator l) (lk_stream l) st y"
    and x: "fmlookup (ow_maps (os_watcher (lk_operator l)) KConfiguration) u = Some x"
      "ob_namespace x = namespace" "ob_name x = config_name"
  from assms(2) l(1) have "configuration_link print namespace config_name l" by blast
  then show "x \<in> set (delivered_objects l)"
  proof (rule link_stream)
    fix st' assume st': "os_streams (lk_operator l) (lk_stream l) = Some st'" "stream_ok (lk_operator l) (lk_stream l) st'"
      "ws_kind st' = KConfiguration" "wants st' = (\<lambda>x. ob_namespace x = namespace \<and> ob_name x = config_name)"
    with l(2) have ok: "stream_ok (lk_operator l) (lk_stream l) st" "ws_kind st = KConfiguration"
      "wants st = (\<lambda>x. ob_namespace x = namespace \<and> ob_name x = config_name)" by simp_all
    then have "x \<in> set (ws_received st)" using idle x(1) unfolding stream_ok_def by fastforce
    moreover have "length (wr_received (lk_round l)) = length (filter (wants st) (ws_received st))"
      using ok(1) by (simp add: all stream_items_def stream_ok_def)
    ultimately show ?thesis using l(2) ok(3) x(2,3) by (simp add: delivered_objects_def)
  qed
qed

section \<open>Witnesses\<close>

definition sample_configuration :: crd_configuration_spec where
  "sample_configuration =
     \<lparr>cc_subscriber_handlers = Some [\<lparr>ch_name = ''upper'', ch_type = ''middleware.uppercase''\<rparr>],
      cc_publisher_handlers = None, cc_telemetry = \<lparr>ts_collector_endpoint = ''otel'', ts_propagator = ''w3c''\<rparr>,
      cc_features = Some [], cc_pubsub_name = ''nats'', cc_min_runtime_version = []\<rparr>"

definition configuration_object :: "string \<Rightarrow> crd_configuration_spec object" where
  "configuration_object namespace =
     \<lparr>ob_uid = ''u'' @ namespace, ob_name = ''cfg'', ob_namespace = namespace, ob_body = sample_configuration\<rparr>"

text \<open>
  The data of an item is here the JSON value itself.  The operator's stream takes two configurations, and sends
  the one of its namespace; the first round loses it, the second gets it.
\<close>

definition sample_configuration_stream :: "crd_configuration_spec watch_stream" where
  "sample_configuration_stream =
     take_object (configuration_object ''ns'') (take_object (configuration_object ''other'')
       (new_watch_stream KConfiguration ''ns'' ''cfg''))"

definition sample_link :: "json list \<Rightarrow> json link" where
  "sample_link items =
     \<lparr>lk_operator = watching_state 0 sample_configuration_stream
        (store_object KConfiguration (configuration_object ''ns'') (store_object KConfiguration (configuration_object ''other'')
          new_object_watcher)) [],
      lk_stream = 0, lk_round = \<lparr>wr_ctx_done = False, wr_received = items, wr_reconnected = True\<rparr>\<rparr>"

lemma sample_link_reached: "reachable operator_init operator_step (lk_operator (sample_link items))"
proof -
  let ?st = "new_watch_stream KConfiguration ''ns'' ''cfg'' :: crd_configuration_spec watch_stream"
  let ?o = "configuration_object ''other''" and ?n = "configuration_object ''ns''"
  let ?ow = "store_object KConfiguration ?n (store_object KConfiguration ?o new_object_watcher)"
  have kind: "ws_kind ?st = KConfiguration" and pc: "ws_pc ?st = Watching" by (simp_all add: new_watch_stream_def)
  have chans: "ow_chans (store_object KConfiguration ?o new_object_watcher) KConfiguration = []"
    "ow_chans (new_object_watcher :: crd_configuration_spec object_watcher) KConfiguration = []"
    by (simp_all add: store_object_def new_object_watcher_def)
  have "reachable operator_init operator_step (watching_state 0 ?st ?ow ([] @ (0, ?o) # [(0, ?n)]))"
    using watched_update [OF watched_update [OF first_watch_reached [of 0 KConfiguration "''ns''" "''cfg''"]], of ?o ?n] chans
    by (simp add: kind)
  from watched_send [OF this pc]
  have "reachable operator_init operator_step (watching_state 0 (take_object ?o ?st) ?ow ([] @ (0, ?n) # []))" by simp
  from watched_send [OF this] show ?thesis by (simp add: pc sample_link_def sample_configuration_stream_def)
qed

theorem configuration_reaches_sidecar_witness:
  "get_watcher (decode_configuration Some (\<lambda>d. zero_config)) None
     [\<lparr>wr_ctx_done = False, wr_received = [], wr_reconnected = True\<rparr>,
      \<lparr>wr_ctx_done = False, wr_received = [configuration_json sample_configuration], wr_reconnected = True\<rparr>]
   = Inr ([\<lparr>sp_subscriber_handlers =
              Some [\<lparr>hs_name = ''upper'', hs_type = ''middleware.uppercase'', hs_version = []\<rparr>],
            sp_publisher_handlers = None,
            sp_telemetry = \<lparr>ts_collector_endpoint = ''otel'', ts_propagator = ''w3c''\<rparr>,
            sp_features = None, sp_pubsub_name = ''nats'', sp_min_runtime_version = []\<rparr>], StillWatching)
   \<and> configuration_object ''ns'' \<in> set (delivered_objects (sample_link [configuration_json sample_configuration]))"
proof -
  let ?item = "configuration_json sample_configuration"
  let ?links = "[sample_link [], sample_link [?item]]"
  have stream: "os_streams (lk_operator (sample_link items)) 0 = Some sample_configuration_stream" for items
    by (simp add: sample_link_def watching_state_def)
  have sent: "stream_items (\<lambda>v. v) sample_configuration_stream = [?item]"
    by (simp add: stream_items_def configuration_item_def configuration_object_def sample_configuration_stream_def
        new_watch_stream_def take_object_def wants_def)
  have fields: "ws_kind sample_configuration_stream = KConfiguration" "ws_namespace sample_configuration_stream = ''ns''"
    "ws_config_name sample_configuration_stream = ''cfg''" "ws_pc sample_configuration_stream = Watching"
    "ws_received sample_configuration_stream = [configuration_object ''other'', configuration_object ''ns'']"
    by (simp_all add: sample_configuration_stream_def new_watch_stream_def take_object_def)
  have round: "lk_stream (sample_link items) = 0" "wr_received (lk_round (sample_link items)) = items"
    "\<not> wr_ctx_done (lk_round (sample_link items))" "wr_reconnected (lk_round (sample_link items))" for items
    by (simp_all add: sample_link_def)
  have links: "\<forall>l\<in>set ?links. configuration_link (\<lambda>v. v) ''ns'' ''cfg'' l \<and> \<not> wr_ctx_done (lk_round l) \<and> wr_reconnected (lk_round l)"
    by (simp add: configuration_link_def sample_link_reached round stream fields sent)
  have wanted: "filter (wants sample_configuration_stream) (ws_received sample_configuration_stream) = [configuration_object ''ns'']"
    by (simp add: fields wants_def configuration_object_def)
  have delivered: "delivered_objects (sample_link []) = []" "delivered_objects (sample_link [?item]) = [configuration_object ''ns'']"
    by (simp_all add: delivered_objects_def round stream wanted)
  have idle: "\<forall>y. \<not> on_its_way (lk_operator (sample_link items)) 0 sample_configuration_stream y" for items
    by (simp add: on_its_way_def sample_link_def watching_state_def)
  have stored: "fmlookup (ow_maps (os_watcher (lk_operator (sample_link items))) KConfiguration) ''uns'' = Some (configuration_object ''ns'')" for items
    by (simp add: sample_link_def watching_state_def add_listener_def store_object_def configuration_object_def)
  note delivery = configuration_reaches_sidecar [OF _ links, of Some "\<lambda>d. zero_config", simplified]
  have result: "get_watcher (decode_configuration Some (\<lambda>d. zero_config)) None (map lk_round ?links)
      = Inr (map (\<lambda>x. sidecar_configuration (ob_body x)) (concat (map delivered_objects ?links)), StillWatching)"
    using delivery by simp
  have "configuration_object ''ns'' \<in> set (delivered_objects (sample_link [?item]))"
    using delivery round stream fields(4) idle [of "[?item]"] stored [of "[?item]"] sent
    by (simp add: configuration_object_def)
  with result show ?thesis
    by (simp add: delivered) (simp add: sample_link_def configuration_object_def sidecar_configuration_def
        sidecar_handler_def sample_configuration_def)
qed

end
