(* ===== verification/Loader.thy ===== *)
theory Loader
  imports Components Metadata_Items
begin

text \<open>
  The local components loader (\<^verbatim>\<open>pkg/custom-resource/components/loader/local.go\<close>): which files it reads,
  how it splits a file into YAML documents, and the loop that decodes them.

  \<^verbatim>\<open>bufio.Scanner\<close> is modelled as far as the loop sees it: it holds what is not consumed yet, and whether
  it gave up because no token ended within its buffer of 65536 bytes.  A scanner that gave up still has
  its buffer, which a later call of \<^verbatim>\<open>Scan\<close> offers to the split function as if at the end of the file.
  \<open>unmarshal\<close> is the YAML library's.
\<close>

section \<open>Files\<close>

text \<open>\<^verbatim>\<open>filepath.Ext\<close>: from the last dot on, if there is one after the last slash.\<close>

definition filepath_ext :: "string \<Rightarrow> string" where
  "filepath_ext path =
     (let tail = takeWhile (\<lambda>c. c \<noteq> CHR ''.'' \<and> c \<noteq> CHR ''/'') (rev path);
          rest = drop (length tail) (rev path)
      in if rest \<noteq> [] \<and> hd rest = CHR ''.'' then CHR ''.'' # rev tail else [])"

definition is_yaml :: "string \<Rightarrow> bool" where
  "is_yaml file_name \<longleftrightarrow>
     to_lower (filepath_ext file_name) = ''.yaml'' \<or> to_lower (filepath_ext file_name) = ''.yml''"

lemma is_yaml_suffix: "is_yaml f \<Longrightarrow> \<exists>stem ext. f = stem @ ext \<and> to_lower ext \<in> {''.yaml'', ''.yml''}"
proof -
  assume y: "is_yaml f"
  let ?tail = "takeWhile (\<lambda>c. c \<noteq> CHR ''.'' \<and> c \<noteq> CHR ''/'') (rev f)"
  let ?rest = "drop (length ?tail) (rev f)"
  have "filepath_ext f \<noteq> []" using y by (auto simp: is_yaml_def to_lower_def)
  then have dot: "?rest \<noteq> [] \<and> hd ?rest = CHR ''.''" unfolding filepath_ext_def Let_def by meson
  then have ext: "filepath_ext f = CHR ''.'' # rev ?tail" unfolding filepath_ext_def Let_def by (rule if_P)
  have "rev f = ?tail @ ?rest" by (simp only: flip: dropWhile_eq_drop) (rule takeWhile_dropWhile_id [symmetric])
  moreover obtain rest where "?rest = CHR ''.'' # rest" using dot by (cases ?rest) simp_all
  ultimately have "rev f = ?tail @ CHR ''.'' # rest" by (rule back_subst [of "\<lambda>r. rev f = ?tail @ r"])
  then have "f = rev (?tail @ CHR ''.'' # rest)" by (rule rev_swap [THEN iffD1])
  then have "f = rev rest @ CHR ''.'' # rev ?tail" by (simp only: rev_append rev.simps append_assoc append_Cons append_Nil)
  then show ?thesis using y ext by (auto simp: is_yaml_def)
qed

section \<open>Documents\<close>

definition yaml_separator :: string where
  "yaml_separator = [CHR 0x0A, CHR ''-'', CHR ''-'', CHR ''-'']"

text \<open>The advance and the token, if there is one; the function never answers an error.\<close>

definition split_yaml_doc :: "string \<Rightarrow> bool \<Rightarrow> nat \<times> string option" where
  "split_yaml_doc data at_eof =
     (if at_eof \<and> data = [] then (0, None)
      else case index_of yaml_separator data of
          Some i0 \<Rightarrow>
            (let sep = length yaml_separator; i = i0 + sep; after = drop i data in
             if after = [] then
               (if at_eof then (length data, Some (take (length data - sep) data)) else (0, None))
             else case index_of [CHR 0x0A] after of
                 Some j \<Rightarrow> (i + j + 1, Some (take (i - sep) data))
               | None \<Rightarrow> (0, None))
        | None \<Rightarrow> (if at_eof then (length data, Some data) else (0, None)))"

text \<open>A token found in a part of the data stays the token when more data arrive.\<close>

lemma index_of_append: "index_of sub s = Some i \<Longrightarrow> index_of sub (s @ t) = Some i"
proof (induction s arbitrary: i)
  case Nil
  then show ?case by (cases t) (auto split: if_splits)
next
  case (Cons c s)
  show ?case
  proof (cases "has_prefix sub (c # s)")
    case True
    then obtain r where "c # s = sub @ r" by (auto simp: has_prefix_iff)
    then have "has_prefix sub (c # s @ t)" by (metis append_Cons append_assoc has_prefix_append)
    with True Cons.prems show ?thesis by simp
  next
    case False
    with Cons.prems obtain j where j: "index_of sub s = Some j" "i = Suc j" by auto
    from index_of_Some_split [OF j(1)] have "length sub \<le> length s" by simp
    then have "has_prefix sub (c # s @ t) \<Longrightarrow> has_prefix sub (c # s)"
      by (auto simp: has_prefix_iff append_eq_append_conv_if [of "c # s" t sub, simplified])
        (metis append_take_drop_id)
    with False j Cons.IH [OF j(1)] show ?thesis by auto
  qed
qed

lemma split_yaml_doc_extend:
  assumes "split_yaml_doc data False = (a, Some token)"
  shows "split_yaml_doc (data @ extra) at_eof = (a, Some token)"
proof -
  let ?sep = "length yaml_separator"
  obtain i0 where i0: "index_of yaml_separator data = Some i0"
    using assms by (auto simp: split_yaml_doc_def split: option.split_asm)
  obtain j where after: "drop (i0 + ?sep) data \<noteq> []" and j: "index_of [CHR 0x0A] (drop (i0 + ?sep) data) = Some j"
    and a: "a = i0 + ?sep + j + 1" and token: "token = take i0 data"
    using assms i0 by (auto simp: split_yaml_doc_def Let_def split: option.split_asm if_split_asm)
  have len: "i0 + ?sep \<le> length data" using after by auto
  have "drop (i0 + ?sep) (data @ extra) = drop (i0 + ?sep) data @ extra" using len by simp
  moreover have "data @ extra \<noteq> []" using after by auto
  ultimately show ?thesis
    using index_of_append [OF i0, of extra] index_of_append [OF j, of extra] after a token len
    by (simp add: split_yaml_doc_def Let_def)
qed

lemma split_yaml_doc_progress:
  assumes "split_yaml_doc data at_eof = (a, Some token)"
  shows "0 < a \<and> a \<le> length data"
proof (cases "index_of yaml_separator data")
  case None
  with assms show ?thesis by (auto simp: split_yaml_doc_def split: if_split_asm)
next
  case (Some i0)
  let ?i = "i0 + length yaml_separator"
  show ?thesis
  proof (cases "drop ?i data = []")
    case True
    with assms Some show ?thesis
      by (auto simp: split_yaml_doc_def Let_def split: if_split_asm)
  next
    case False
    then obtain j where j: "index_of [CHR 0x0A] (drop ?i data) = Some j" and a: "a = ?i + j + 1"
      using assms Some by (auto simp: split_yaml_doc_def Let_def split: if_split_asm option.split_asm)
    from index_of_Some_split [OF j] have "j + 1 \<le> length (drop ?i data)" by simp
    then show ?thesis using a by simp
  qed
qed

section \<open>The scanner\<close>

definition scanner_limit :: nat where
  "scanner_limit = 65536"

record scanner =
  sn_data :: string
  sn_too_long :: bool

definition new_scanner :: "string \<Rightarrow> scanner" where
  "new_scanner b = \<lparr>sn_data = b, sn_too_long = False\<rparr>"

text \<open>\<^verbatim>\<open>Scan\<close>: the token, if the call is true.\<close>

definition scan :: "scanner \<Rightarrow> string option \<times> scanner" where
  "scan sc =
     (if \<not> sn_too_long sc \<and> scanner_limit \<le> length (sn_data sc) then
        (case split_yaml_doc (take scanner_limit (sn_data sc)) False of
           (a, Some t) \<Rightarrow> (Some t, sc\<lparr>sn_data := drop a (sn_data sc)\<rparr>)
         | (a, None) \<Rightarrow> (None, \<lparr>sn_data = take scanner_limit (sn_data sc), sn_too_long = True\<rparr>))
      else
        (case split_yaml_doc (sn_data sc) True of
           (a, Some t) \<Rightarrow> (Some t, sc\<lparr>sn_data := drop a (sn_data sc)\<rparr>)
         | (a, None) \<Rightarrow> (None, sc\<lparr>sn_data := []\<rparr>)))"

lemma scan_shrinks: "scan sc = (Some t, sc1) \<Longrightarrow> length (sn_data sc1) < length (sn_data sc)"
proof -
  assume "scan sc = (Some t, sc1)"
  then obtain a d b where "split_yaml_doc d b = (a, Some t)" and d: "d = sn_data sc \<or> d = take scanner_limit (sn_data sc)"
    and sc1: "sc1 = sc\<lparr>sn_data := drop a (sn_data sc)\<rparr>"
    by (auto simp: scan_def split: if_split_asm prod.split_asm option.split_asm)
  from split_yaml_doc_progress [OF this(1)] have a: "0 < a" "a \<le> length d" by auto
  have "length d \<le> length (sn_data sc)" using d by auto
  with a have "length (sn_data sc) - a < length (sn_data sc)" by linarith
  then show ?thesis by (simp add: sc1)
qed

lemma scan_keeps_too_long: "sn_too_long sc \<Longrightarrow> scan sc = (t, sc1) \<Longrightarrow> sn_too_long sc1"
  by (auto simp: scan_def split: prod.split_asm option.split_asm)

lemma scan_short: "\<not> sn_too_long sc \<Longrightarrow> length (sn_data sc) < scanner_limit \<Longrightarrow> scan sc = (t, sc1) \<Longrightarrow>
    \<not> sn_too_long sc1 \<and> length (sn_data sc1) \<le> length (sn_data sc)"
  by (auto simp: scan_def split: prod.split_asm option.split_asm)

section \<open>Decoding\<close>

record yaml_component =
  yc_kind :: string
  yc_name :: string
  yc_type :: string
  yc_version :: string
  yc_metadata :: "(string \<times> string) list"
  yc_scopes :: "string list"

text \<open>\<^verbatim>\<open>decode\<close>: \<^term>\<open>ErrEOF\<close> is \<^verbatim>\<open>io.EOF\<close>.\<close>

definition err_too_long :: error where
  "err_too_long = ErrText ''bufio.Scanner: token too long''"

definition yaml_decode :: "(string \<Rightarrow> error + yaml_component) \<Rightarrow> scanner \<Rightarrow> (error + yaml_component) \<times> scanner" where
  "yaml_decode unmarshal sc =
     (case scan sc of
        (Some t, sc1) \<Rightarrow> (unmarshal t, sc1)
      | (None, sc1) \<Rightarrow> (if sn_too_long sc1 then (Inl err_too_long, sc1) else (Inl ErrEOF, sc1)))"

text \<open>
  The loop of \<^verbatim>\<open>decodeYaml\<close> with a bound on its turns; \<open>convert\<close> is \<^verbatim>\<open>convertMetadataItemsToProperties\<close>.
\<close>

fun decode_yaml :: "(string \<Rightarrow> error + yaml_component) \<Rightarrow> ((string \<times> string) list \<Rightarrow> gomap) \<Rightarrow> nat \<Rightarrow> scanner
    \<Rightarrow> spec list \<Rightarrow> error list \<Rightarrow> (spec list \<times> error list) option" where
  "decode_yaml unmarshal convert 0 sc specs errs = None"
| "decode_yaml unmarshal convert (Suc fuel) sc specs errs =
     (case yaml_decode unmarshal sc of
        (Inl e, sc1) \<Rightarrow>
          (if e = ErrEOF then Some (specs, errs)
           else decode_yaml unmarshal convert fuel sc1 specs (errs @ [e]))
      | (Inr item, sc1) \<Rightarrow>
          (if yc_kind item \<noteq> ''Component'' then decode_yaml unmarshal convert fuel sc1 specs errs
           else decode_yaml unmarshal convert fuel sc1
                  (specs @ [\<lparr>cs_name = yc_name item, cs_type = yc_type item, cs_version = yc_version item,
                             cs_metadata = convert (yc_metadata item), cs_scopes = yc_scopes item\<rparr>]) errs))"

text \<open>A file within the scanner's buffer is decoded to the end, in as many turns as it has bytes, and one.\<close>

theorem decode_yaml_terminates:
  assumes "\<not> sn_too_long sc" and "length (sn_data sc) < scanner_limit" and "length (sn_data sc) < fuel"
  shows "decode_yaml unmarshal convert fuel sc specs errs \<noteq> None"
  using assms
proof (induction fuel arbitrary: sc specs errs)
  case (Suc fuel)
  obtain t sc1 where scan: "scan sc = (t, sc1)" by (cases "scan sc")
  note short = scan_short [OF Suc.prems(1,2) scan]
  show ?case
  proof (cases t)
    case None
    then show ?thesis using scan short by (simp add: yaml_decode_def)
  next
    case (Some token)
    have "length (sn_data sc1) < fuel" using scan_shrinks [of sc token sc1] scan Some Suc.prems(3) by simp
    then have "decode_yaml unmarshal convert fuel sc1 sp er \<noteq> None" for sp er
      using Suc.IH short Suc.prems(2) by simp
    then show ?thesis using scan Some by (simp add: yaml_decode_def split: sum.split)
  qed
qed simp

text \<open>
  A scanner that gave up never says that it is at the end, so the loop never ends: it collects the same
  error for ever, whatever the bound on its turns.
\<close>

theorem decode_yaml_never_ends:
  assumes "sn_too_long sc" and "\<forall>t. unmarshal t \<noteq> Inl ErrEOF"
  shows "decode_yaml unmarshal convert fuel sc specs errs = None"
  using assms(1)
proof (induction fuel arbitrary: sc specs errs)
  case (Suc fuel)
  obtain t sc1 where scan: "scan sc = (t, sc1)" by (cases "scan sc")
  have long: "sn_too_long sc1" using scan_keeps_too_long [OF Suc.prems scan] .
  show ?case
    using scan long Suc.IH [OF long] assms(2)
    by (cases t) (auto simp: yaml_decode_def err_too_long_def split: sum.split)
qed simp

section \<open>Loading\<close>

definition load_components_from_file :: "(string \<Rightarrow> error + string) \<Rightarrow> (string \<Rightarrow> string)
    \<Rightarrow> (string \<Rightarrow> error + yaml_component) \<Rightarrow> ((string \<times> string) list \<Rightarrow> gomap) \<Rightarrow> nat \<Rightarrow> string
    \<Rightarrow> (spec list \<times> error option) option" where
  "load_components_from_file read_file expand_env unmarshal convert fuel path =
     (case read_file path of
        Inl e \<Rightarrow> Some ([], Some e)
      | Inr b \<Rightarrow>
          map_option (\<lambda>(comps, errs). (comps, None))
            (decode_yaml unmarshal convert fuel (new_scanner (expand_env b)) [] []))"

text \<open>The components of a directory, in the order of its entries (name and whether it is a directory).\<close>

fun load_local_components :: "(string \<Rightarrow> (spec list \<times> error option) option) \<Rightarrow> (string \<times> bool) list
    \<Rightarrow> spec list option" where
  "load_local_components load_file [] = Some []"
| "load_local_components load_file ((name, is_dir) # files) =
     (if \<not> is_dir \<and> is_yaml name then
        (case load_file name of
           None \<Rightarrow> None
         | Some (comps, err) \<Rightarrow> map_option (\<lambda>rest. comps @ rest) (load_local_components load_file files))
      else load_local_components load_file files)"

text \<open>Only the YAML files of the directory are read.\<close>

lemma load_local_components_only_yaml:
  "(\<And>name d. (name, d) \<in> set files \<Longrightarrow> \<not> d \<Longrightarrow> is_yaml name \<Longrightarrow> f name = g name) \<Longrightarrow>
     load_local_components f files = load_local_components g files"
  by (induction files) (auto split: option.split)

text \<open>
  A last separator with text on its line and no newline after it makes the scanner drop the document before
  it: nothing of it is decoded and no error is reported.
\<close>

theorem unterminated_separator_drops_document:
  assumes "index_of yaml_separator doc = None"
    and "index_of yaml_separator (doc @ yaml_separator @ rest) = Some (length doc)"
    and "rest \<noteq> []" and "CHR 0x0A \<notin> set rest"
  shows "split_yaml_doc (doc @ yaml_separator @ rest) True = (0, None)"
proof -
  have "index_of [CHR 0x0A] rest = None"
    using assms(4) by (induction rest) auto
  with assms(2,3) show ?thesis by (simp add: split_yaml_doc_def Let_def)
qed

end
