(* ===== verification/Yaml_Documents.thy ===== *)
theory Yaml_Documents
  imports Loader
begin

text \<open>
  A reference for the decoding of a component file, in terms of its lines, and the proof that the loop over
  the buffered scanner (\<open>Loader\<close>) agrees with it.
\<close>

section \<open>The reference\<close>

abbreviation newline :: char where
  "newline \<equiv> CHR 0x0A"

definition separator_line :: "string \<Rightarrow> bool" where
  "separator_line x \<longleftrightarrow> has_prefix ''---'' x"

text \<open>
  A document is its first line, whatever it is, and the lines up to the next separator line.  With it
  comes the number of bytes from its start to the start of the next document.
\<close>

function yaml_chunks :: "string list \<Rightarrow> (string \<times> nat) list" where
  "yaml_chunks [] = []"
| "yaml_chunks (l # ls) =
     (if l = [] \<and> ls = [] then []
      else let doc = join_with [newline] (l # takeWhile (\<lambda>x. \<not> separator_line x) ls)
           in case dropWhile (\<lambda>x. \<not> separator_line x) ls of
                [] \<Rightarrow> [(doc, length doc)]
              | s # rest \<Rightarrow> (doc, length doc + 1 + length s + (if rest = [] then 0 else 1)) # yaml_chunks rest)"
  by pat_completeness auto
termination
proof (relation "measure length")
  fix l :: string and ls :: "string list" and doc s rest
  assume "dropWhile (\<lambda>x. \<not> separator_line x) ls = s # rest"
  then have "length (s # rest) \<le> length ls" by (metis length_dropWhile_le)
  then show "(rest, l # ls) \<in> measure length" by simp
qed simp

lemma yaml_chunks_last:
  assumes "\<not> (l = [] \<and> ls = [])" and "dropWhile (\<lambda>x. \<not> separator_line x) ls = []"
  shows "yaml_chunks (l # ls) = (let doc = join_with [newline] (l # takeWhile (\<lambda>x. \<not> separator_line x) ls)
    in [(doc, length doc)])"
  by (simp only: yaml_chunks.simps Let_def assms if_False list.case)

lemma yaml_chunks_separator:
  assumes "\<not> (l = [] \<and> ls = [])" and "dropWhile (\<lambda>x. \<not> separator_line x) ls = s # rest"
  shows "yaml_chunks (l # ls) = (let doc = join_with [newline] (l # takeWhile (\<lambda>x. \<not> separator_line x) ls)
    in (doc, length doc + 1 + length s + (if rest = [] then 0 else 1)) # yaml_chunks rest)"
  by (simp only: yaml_chunks.simps Let_def assms if_False list.case)

definition yaml_documents :: "string \<Rightarrow> string list" where
  "yaml_documents text = map fst (yaml_chunks (split_char newline text))"

text \<open>A last separator line must be bare when no newline follows it.\<close>

definition ends_cleanly :: "string \<Rightarrow> bool" where
  "ends_cleanly text \<longleftrightarrow>
     (let final = last (split_char newline text) in separator_line final \<longrightarrow> final = ''---'')"

text \<open>Every document, with its separator line, fits the scanner's buffer.\<close>

definition fits_buffer :: "string \<Rightarrow> bool" where
  "fits_buffer text \<longleftrightarrow> (\<forall>(doc, n) \<in> set (yaml_chunks (split_char newline text)). n < scanner_limit)"

definition component_spec :: "((string \<times> string) list \<Rightarrow> gomap) \<Rightarrow> yaml_component \<Rightarrow> spec" where
  "component_spec convert item =
     \<lparr>cs_name = yc_name item, cs_type = yc_type item, cs_version = yc_version item,
      cs_metadata = convert (yc_metadata item), cs_scopes = yc_scopes item\<rparr>"

fun decode_documents :: "(string \<Rightarrow> error + yaml_component) \<Rightarrow> ((string \<times> string) list \<Rightarrow> gomap)
    \<Rightarrow> string list \<Rightarrow> spec list \<times> error list" where
  "decode_documents unmarshal convert [] = ([], [])"
| "decode_documents unmarshal convert (doc # docs) =
     (case decode_documents unmarshal convert docs of (specs, errs) \<Rightarrow>
        (case unmarshal doc of
           Inl e \<Rightarrow> (specs, e # errs)
         | Inr item \<Rightarrow>
             (if yc_kind item = ''Component'' then (component_spec convert item # specs, errs) else (specs, errs))))"

section \<open>Separators and lines\<close>

definition lines_text :: "string list \<Rightarrow> string" where
  "lines_text ls = concat (map (Cons newline) ls)"

lemma lines_text_simps [simp]:
  "lines_text [] = []" "lines_text (x # ls) = newline # x @ lines_text ls"
  "lines_text (ls @ ms) = lines_text ls @ lines_text ms"
  by (simp_all add: lines_text_def)

lemma join_lines: "join_with [newline] (l # ls) = l @ lines_text ls"
  by (induction ls arbitrary: l) simp_all

lemma index_of_skip:
  "newline \<notin> set l \<Longrightarrow> index_of yaml_separator (l @ r) = map_option (\<lambda>i. length l + i) (index_of yaml_separator r)"
proof (induction l)
  case Nil
  then show ?case by (simp add: option.map_ident)
next
  case (Cons c l)
  then show ?case by (cases "index_of yaml_separator r") (auto simp: yaml_separator_def)
qed

lemma index_of_newline: "newline \<notin> set s \<Longrightarrow> index_of [newline] (s @ newline # r) = Some (length s)"
  by (induction s) auto

lemma has_prefix_lines:
  "has_prefix ''---'' (x @ lines_text ls) \<longleftrightarrow> has_prefix ''---'' x"
  by (cases ls; cases x; cases "tl x"; cases "tl (tl x)") auto

lemma separator_at: "has_prefix yaml_separator (newline # x) \<longleftrightarrow> has_prefix ''---'' x"
  by (simp add: yaml_separator_def)

lemma index_of_no_separator:
  "newline \<notin> set l \<Longrightarrow> \<forall>x\<in>set ls. newline \<notin> set x \<and> \<not> separator_line x \<Longrightarrow>
     index_of yaml_separator (l @ lines_text ls) = None"
proof (induction ls arbitrary: l)
  case Nil
  then show ?case using index_of_skip [of l "[]"] by (simp add: yaml_separator_def)
next
  case (Cons x ls)
  then have "index_of yaml_separator (x @ lines_text ls) = None" by simp
  with Cons.prems show ?case
    by (simp add: index_of_skip separator_at has_prefix_lines separator_line_def)
qed

lemma index_of_separator:
  assumes "separator_line s"
  shows "newline \<notin> set l \<Longrightarrow> \<forall>x\<in>set body. newline \<notin> set x \<and> \<not> separator_line x \<Longrightarrow>
     index_of yaml_separator (l @ lines_text body @ newline # s @ rest1) = Some (length (l @ lines_text body))"
proof (induction body arbitrary: l)
  case Nil
  obtain r where "s = ''---'' @ r" using assms by (auto simp: separator_line_def has_prefix_iff)
  then have "has_prefix yaml_separator (newline # s @ rest1)" by (simp add: separator_at)
  then show ?case using Nil by (simp add: index_of_skip)
next
  case (Cons x body)
  then have "index_of yaml_separator (x @ lines_text body @ newline # s @ rest1) = Some (length (x @ lines_text body))"
    by simp
  moreover have "lines_text body @ newline # s @ rest1 = lines_text (body @ [s]) @ rest1" by simp
  then have "\<not> has_prefix ''---'' (x @ lines_text body @ newline # s @ rest1)"
    using Cons.prems(2) by (cases body; cases x; cases "tl x"; cases "tl (tl x)")
      (auto simp: separator_line_def)
  ultimately show ?case using Cons.prems(1) by (simp add: index_of_skip separator_at)
qed

text \<open>What the split function answers at each kind of boundary.\<close>

lemma split_at_separator:
  assumes "separator_line s" and "newline \<notin> set s" and "newline \<notin> set l"
    and "\<forall>x\<in>set body. newline \<notin> set x \<and> \<not> separator_line x"
  shows "split_yaml_doc (l @ lines_text body @ newline # s @ newline # rest1) at_eof
    = (length (l @ lines_text body) + 1 + length s + 1, Some (l @ lines_text body))"
proof -
  let ?doc = "l @ lines_text body"
  obtain r where r: "s = ''---'' @ r" using assms(1) by (auto simp: separator_line_def has_prefix_iff)
  have "newline \<notin> set r" using assms(2) r by auto
  then have "index_of [newline] (r @ newline # rest1) = Some (length r)" by (rule index_of_newline)
  moreover have "drop (length ?doc + length yaml_separator) (?doc @ newline # s @ newline # rest1) = r @ newline # rest1"
    by (simp add: yaml_separator_def r)
  moreover have "index_of yaml_separator (?doc @ newline # s @ newline # rest1) = Some (length ?doc)"
    using index_of_separator [OF assms(1,3,4), of "newline # rest1"] by simp
  ultimately show ?thesis by (simp add: split_yaml_doc_def Let_def yaml_separator_def r)
qed

lemma split_bare_separator:
  assumes "newline \<notin> set l" and "\<forall>x\<in>set body. newline \<notin> set x \<and> \<not> separator_line x"
  shows "split_yaml_doc (l @ lines_text body @ newline # ''---'') True
    = (length (l @ lines_text body) + 4, Some (l @ lines_text body))"
  using index_of_separator [of "''---''" l body "[]"] assms
  by (simp add: split_yaml_doc_def Let_def separator_line_def yaml_separator_def)

lemma split_no_separator:
  assumes "newline \<notin> set l" and "\<forall>x\<in>set ls. newline \<notin> set x \<and> \<not> separator_line x" and "l @ lines_text ls \<noteq> []"
  shows "split_yaml_doc (l @ lines_text ls) True = (length (l @ lines_text ls), Some (l @ lines_text ls))"
  using index_of_no_separator [OF assms(1,2)] assms(3) by (auto simp: split_yaml_doc_def)

section \<open>The scanner\<close>

lemma scan_prefix:
  assumes "\<And>tail at_eof. split_yaml_doc (chunk @ tail) at_eof = (length chunk, Some doc)"
    and "length chunk < scanner_limit" and "sn_data sc = chunk @ tail" and "\<not> sn_too_long sc"
  shows "scan sc = (Some doc, sc\<lparr>sn_data := tail\<rparr>)"
proof -
  have "take scanner_limit (sn_data sc) = chunk @ take (scanner_limit - length chunk) tail"
    using assms(2,3) by simp
  with assms show ?thesis by (simp add: scan_def)
qed

lemma scan_final:
  assumes "split_yaml_doc (sn_data sc) True = (length (sn_data sc), Some doc)"
    and "length (sn_data sc) < scanner_limit" and "\<not> sn_too_long sc"
  shows "scan sc = (Some doc, sc\<lparr>sn_data := []\<rparr>)"
  using assms by (simp add: scan_def)

text \<open>One turn of the loop, for a token.\<close>

lemma decode_yaml_token:
  assumes "scan sc = (Some doc, sc1)" and "\<forall>t. unmarshal t \<noteq> Inl ErrEOF"
    and "\<And>specs errs. decode_yaml unmarshal convert fuel sc1 specs errs =
      Some (specs @ fst (decode_documents unmarshal convert docs), errs @ snd (decode_documents unmarshal convert docs))"
  shows "decode_yaml unmarshal convert (Suc fuel) sc specs errs =
      Some (specs @ fst (decode_documents unmarshal convert (doc # docs)),
            errs @ snd (decode_documents unmarshal convert (doc # docs)))"
proof (cases "unmarshal doc")
  case (Inl e)
  then have "e \<noteq> ErrEOF" using assms(2) by auto
  with Inl show ?thesis
    by (simp add: yaml_decode_def assms(1,3) split: prod.split)
next
  case (Inr item)
  then show ?thesis
    by (simp add: yaml_decode_def assms(1,3) component_spec_def split: prod.split)
qed

lemma decode_yaml_empty:
  "sn_data sc = [] \<Longrightarrow> \<not> sn_too_long sc \<Longrightarrow>
     decode_yaml unmarshal convert (Suc fuel) sc specs errs = Some (specs, errs)"
  by (simp add: yaml_decode_def scan_def split_yaml_doc_def scanner_limit_def)

text \<open>The first chunk: the text of its lines, and what the scanner makes of it.\<close>

lemma body_no_separator:
  assumes "\<forall>x\<in>set ls. newline \<notin> set x"
  shows "\<forall>x\<in>set (takeWhile (\<lambda>x. \<not> separator_line x) ls). newline \<notin> set x \<and> \<not> separator_line x"
  using assms by (auto dest: set_takeWhileD)

lemma lines_text_first_separator:
  assumes "dropWhile (\<lambda>x. \<not> separator_line x) ls = s # rest"
  shows "lines_text ls = lines_text (takeWhile (\<lambda>x. \<not> separator_line x) ls) @ newline # s @ lines_text rest
    \<and> separator_line s \<and> set (s # rest) \<subseteq> set ls \<and> last (s # rest) = last ls"
proof -
  let ?body = "takeWhile (\<lambda>x. \<not> separator_line x) ls"
  have ls: "ls = ?body @ s # rest" using assms by (metis takeWhile_dropWhile_id)
  have "lines_text ls = lines_text (?body @ s # rest)" using ls by (rule arg_cong)
  moreover have "separator_line s" using assms by (auto simp: dropWhile_eq_Cons_conv)
  moreover have "set (s # rest) \<subseteq> set ls" using assms by (metis set_dropWhileD subsetI)
  moreover have "last (s # rest) = last ls" using ls by (metis last_appendR list.distinct(1))
  ultimately show ?thesis by simp
qed

lemma decode_yaml_chunks:
  assumes "\<forall>t. unmarshal t \<noteq> Inl ErrEOF"
  shows "\<lbrakk>\<forall>x\<in>set lines. newline \<notin> set x; \<forall>(doc, n)\<in>set (yaml_chunks lines). n < scanner_limit;
      lines \<noteq> [] \<longrightarrow> separator_line (last lines) \<longrightarrow> last lines = ''---'' \<or> tl lines = [];
      length (yaml_chunks lines) < fuel\<rbrakk> \<Longrightarrow>
    decode_yaml unmarshal convert fuel \<lparr>sn_data = join_with [newline] lines, sn_too_long = False\<rparr> specs errs =
      Some (specs @ fst (decode_documents unmarshal convert (map fst (yaml_chunks lines))),
            errs @ snd (decode_documents unmarshal convert (map fst (yaml_chunks lines))))"
proof (induction lines arbitrary: fuel specs errs rule: yaml_chunks.induct)
  case 1
  then obtain f where "fuel = Suc f" by (cases fuel) auto
  then show ?case by (simp add: decode_yaml_empty del: decode_yaml.simps)
next
  case (2 l ls)
  obtain f where fuel: "fuel = Suc f" using "2.prems"(4) by (cases fuel) auto
  show ?case
  proof (cases "l = [] \<and> ls = []")
    case True
    then show ?thesis using fuel by (simp add: decode_yaml_empty del: decode_yaml.simps)
  next
    case False
    let ?body = "takeWhile (\<lambda>x. \<not> separator_line x) ls"
    let ?doc = "join_with [newline] (l # ?body)"
    have l: "newline \<notin> set l" and ls: "\<forall>x\<in>set ls. newline \<notin> set x" using "2.prems"(1) by auto
    note body = body_no_separator [OF ls]
    show ?thesis
    proof (cases "dropWhile (\<lambda>x. \<not> separator_line x) ls")
      case Nil
      then have ls_body: "?body = ls" by (metis append_Nil2 takeWhile_dropWhile_id)
      have chunks: "yaml_chunks (l # ls) = [(?doc, length ?doc)]" using yaml_chunks_last [OF False Nil] by (simp add: Let_def)
      have f: "f = Suc (f - 1)" using "2.prems"(4) chunks fuel by simp
      have "l @ lines_text ls \<noteq> []" using False by (cases ls) auto
      with body have "scan \<lparr>sn_data = join_with [newline] (l # ls), sn_too_long = False\<rparr>
          = (Some ?doc, \<lparr>sn_data = [], sn_too_long = False\<rparr>)"
        using "2.prems"(2) split_no_separator [OF l, of ls] unfolding chunks ls_body join_lines
        by (intro scan_final [THEN trans]) auto
      then have "decode_yaml unmarshal convert (Suc f) \<lparr>sn_data = join_with [newline] (l # ls), sn_too_long = False\<rparr> specs errs
          = Some (specs @ fst (decode_documents unmarshal convert [?doc]), errs @ snd (decode_documents unmarshal convert [?doc]))"
      proof (rule decode_yaml_token [OF _ assms])
        show "decode_yaml unmarshal convert f \<lparr>sn_data = [], sn_too_long = False\<rparr> sp er =
            Some (sp @ fst (decode_documents unmarshal convert []), er @ snd (decode_documents unmarshal convert []))"
          for sp er
          using f decode_yaml_empty [of "\<lparr>sn_data = [], sn_too_long = False\<rparr>" unmarshal convert "f - 1" sp er] by simp
      qed
      then show ?thesis unfolding chunks fuel by (simp del: decode_yaml.simps decode_documents.simps)
    next
      case (Cons s rest)
      note sep = lines_text_first_separator [OF Cons]
      have s: "newline \<notin> set s" using sep ls by auto
      have chunks: "yaml_chunks (l # ls)
          = (?doc, length ?doc + 1 + length s + (if rest = [] then 0 else 1)) # yaml_chunks rest"
        using yaml_chunks_separator [OF False Cons] by (simp add: Let_def)
      let ?tail = "join_with [newline] rest"
      have token: "scan \<lparr>sn_data = join_with [newline] (l # ls), sn_too_long = False\<rparr>
          = (Some ?doc, \<lparr>sn_data = ?tail, sn_too_long = False\<rparr>)"
      proof (cases rest)
        case Nil
        have dash: "s = ''---''" using "2.prems"(3) sep Nil Cons by (cases ls) auto
        with sep Nil have data: "join_with [newline] (l # ls) = l @ lines_text ?body @ newline # ''---''"
          unfolding join_lines by simp
        have "length (join_with [newline] (l # ls)) < scanner_limit"
          using "2.prems"(2) dash unfolding chunks data by (simp add: Nil join_lines)
        with split_bare_separator [OF l body] show ?thesis
          unfolding data by (simp add: scan_final [where doc = "l @ lines_text ?body"] Nil join_lines)
      next
        case (Cons y ys)
        have "lines_text rest = newline # ?tail" using Cons by (simp only: join_lines lines_text_simps)
        with sep have data: "join_with [newline] (l # ls) = (?doc @ newline # s @ [newline]) @ ?tail"
          unfolding join_lines by simp
        have "split_yaml_doc ((?doc @ newline # s @ [newline]) @ tail) at_eof
            = (length (?doc @ newline # s @ [newline]), Some ?doc)" for tail at_eof
          using split_at_separator [OF _ s l body, of tail at_eof] sep unfolding join_lines by simp
        moreover have "length (?doc @ newline # s @ [newline]) < scanner_limit"
          using "2.prems"(2) Cons unfolding chunks by simp
        ultimately show ?thesis using data by (intro scan_prefix [THEN trans]) auto
      qed
      have "decode_yaml unmarshal convert f \<lparr>sn_data = ?tail, sn_too_long = False\<rparr> sp er =
          Some (sp @ fst (decode_documents unmarshal convert (map fst (yaml_chunks rest))),
                er @ snd (decode_documents unmarshal convert (map fst (yaml_chunks rest))))" for sp er
      proof (rule "2.IH" [OF False refl Cons])
        show "\<forall>x\<in>set rest. newline \<notin> set x" using sep ls by auto
        show "\<forall>(doc, n)\<in>set (yaml_chunks rest). n < scanner_limit" using "2.prems"(2) unfolding chunks by simp
        have "ls \<noteq> []" using Cons by auto
        with "2.prems"(3) have "separator_line (last ls) \<longrightarrow> last ls = ''---''" by simp
        with sep show "rest \<noteq> [] \<longrightarrow> separator_line (last rest) \<longrightarrow> last rest = ''---'' \<or> tl rest = []"
          by (metis last_ConsR)
        show "length (yaml_chunks rest) < f" using "2.prems"(4) unfolding chunks fuel by simp
      qed
      from decode_yaml_token [OF token assms this] show ?thesis unfolding chunks fuel by simp
    qed
  qed
qed

section \<open>Properties\<close>

text \<open>C4: for a file whose documents fit the scanner's buffer and which does not end in an unterminated separator
  line with text on it, the loop over the scanner ends, after one turn for each document and one more, and
  gives exactly what decoding the documents between the separator lines one by one gives: the
  components of kind \<open>Component\<close> and the errors, in the order of the file.\<close>

theorem yaml_decoded_as_documents:
  assumes "\<forall>t. unmarshal t \<noteq> Inl ErrEOF" and "fits_buffer text" and "ends_cleanly text"
    and "length (yaml_documents text) < fuel"
  shows "decode_yaml unmarshal convert fuel (new_scanner text) [] []
    = Some (decode_documents unmarshal convert (yaml_documents text))"
proof -
  let ?lines = "split_char newline text"
  have "\<forall>x\<in>set ?lines. newline \<notin> set x" by (auto dest: split_char_no_sep)
  moreover have "\<forall>(doc, n)\<in>set (yaml_chunks ?lines). n < scanner_limit" using assms(2) by (simp add: fits_buffer_def)
  moreover have "separator_line (last ?lines) \<longrightarrow> last ?lines = ''---''"
    using assms(3) by (simp add: ends_cleanly_def Let_def)
  moreover have "length (yaml_chunks ?lines) < fuel" using assms(4) by (simp add: yaml_documents_def)
  ultimately show ?thesis
    using decode_yaml_chunks [OF assms(1), of ?lines fuel convert "[]" "[]"]
    by (simp add: join_split_char new_scanner_def yaml_documents_def)
qed

text \<open>Nothing is lost: the documents and the separator lines make up the text.\<close>

lemma single_document:
  assumes "index_of yaml_separator text = None" and "text \<noteq> []"
  shows "yaml_documents text = [text]"
proof -
  obtain l ls where lines: "split_char newline text = l # ls" by (cases "split_char newline text") auto
  have whole: "text = l @ lines_text ls" using join_split_char [of newline "text"] by (simp add: lines join_lines)
  have nl: "newline \<notin> set x" if "x \<in> set (l # ls)" for x using split_char_no_sep [of x newline "text"] lines that by simp
  have "dropWhile (\<lambda>x. \<not> separator_line x) ls = []"
  proof (rule ccontr)
    assume "dropWhile (\<lambda>x. \<not> separator_line x) ls \<noteq> []"
    then obtain s rest where drop: "dropWhile (\<lambda>x. \<not> separator_line x) ls = s # rest" by (meson list.exhaust)
    note sep = lines_text_first_separator [OF drop]
    have "\<forall>x\<in>set (takeWhile (\<lambda>x. \<not> separator_line x) ls). newline \<notin> set x \<and> \<not> separator_line x"
      using nl by (intro body_no_separator) auto
    from index_of_separator [OF _ _ this, of s l "lines_text rest"] sep nl assms(1)
    show False by (simp add: whole)
  qed
  note none = this
  then have body: "takeWhile (\<lambda>x. \<not> separator_line x) ls = ls" by (metis append_Nil2 takeWhile_dropWhile_id)
  have "\<not> (l = [] \<and> ls = [])" using whole assms(2) by auto
  from yaml_chunks_last [OF this none] have "map fst (yaml_chunks (l # ls)) = [l @ lines_text ls]"
    unfolding body by (simp only: Let_def join_lines list.map fst_conv)
  then show ?thesis by (simp only: yaml_documents_def lines whole [symmetric])
qed

section \<open>Witness\<close>

definition two_documents :: string where
  "two_documents = ''a'' @ newline # ''---'' @ newline # ''b''"

lemma two_documents_chunks: "yaml_chunks (split_char newline two_documents) = [(''a'', 6), (''b'', 1)]"
  by (simp add: two_documents_def separator_line_def)

theorem yaml_decoded_as_documents_witness:
  "\<exists>specs. decode_yaml
      (\<lambda>doc. Inr \<lparr>yc_kind = ''Component'', yc_name = doc, yc_type = ''pubsub.x'', yc_version = [],
                   yc_metadata = [], yc_scopes = []\<rparr>)
      (\<lambda>items. Some fmempty) 3 (new_scanner two_documents) [] [] = Some (specs, [])
    \<and> map cs_name specs = [''a'', ''b'']"
proof -
  let ?u = "\<lambda>doc. Inr \<lparr>yc_kind = ''Component'', yc_name = doc, yc_type = ''pubsub.x'', yc_version = [],
                   yc_metadata = [], yc_scopes = []\<rparr> :: error + yaml_component"
  have "\<forall>t. ?u t \<noteq> Inl ErrEOF" by simp
  moreover have "fits_buffer two_documents"
    unfolding fits_buffer_def two_documents_chunks by (simp add: scanner_limit_def)
  moreover have "ends_cleanly two_documents"
    by (simp add: ends_cleanly_def two_documents_def separator_line_def)
  moreover have docs: "yaml_documents two_documents = [''a'', ''b'']"
    by (simp add: yaml_documents_def two_documents_chunks)
  ultimately show ?thesis
    using yaml_decoded_as_documents [of ?u two_documents 3 "\<lambda>items. Some fmempty"]
    by (simp add: component_spec_def)
qed

end
