(* ===== verification/Diagnostics.thy ===== *)
theory Diagnostics
  imports Configuration
begin

text \<open>
  The loop that follows the telemetry configuration (\<^verbatim>\<open>internal/diagnostics/diagnostics.go\<close>) with the tracer
  set-up it is given (\<^verbatim>\<open>internal/tracing/tracing.go\<close>).  A tracer provider is a number; \<open>new_provider\<close>
  makes it, in other modules, for a URL without its scheme.
\<close>

section \<open>Tracing\<close>

datatype trace_event =
    SetTracerProvider nat
  | SetPropagator bool
  | StopTracer nat

definition trim_scheme :: "string \<Rightarrow> string" where
  "trim_scheme url = (if has_prefix ''http://'' url then drop 7 url else url)"

text \<open>
  \<^verbatim>\<open>SetTracing\<close>: the stopper is the number of its provider; no stopper beside an error.  The flag of
  \<open>SetPropagator\<close> is true for Jaeger.
\<close>

definition set_tracing :: "(string \<Rightarrow> error + nat) \<Rightarrow> string \<Rightarrow> string
    \<Rightarrow> trace_event list \<times> nat option \<times> error option" where
  "set_tracing new_provider url propagator =
     (case new_provider (trim_scheme url) of
        Inl e \<Rightarrow> ([], None, Some (ErrWrap ''failed to create trace exporter: '' e))
      | Inr tp \<Rightarrow> ([SetTracerProvider tp, SetPropagator (propagator = propagator_jaeger)], Some tp, None))"

text \<open>
  \<^verbatim>\<open>getTracerProvider\<close> in full: \<open>new_exporter\<close> connects to an endpoint, the provider samples every span and
  names the service and the host.  It is the \<open>new_provider\<close> above.
\<close>

record 'x tracer_provider =
  tp_exporter :: 'x
  tp_always_sample :: bool
  tp_service :: string
  tp_host :: string

definition get_tracer_provider :: "(string \<Rightarrow> error + 'x) \<Rightarrow> string \<Rightarrow> string \<Rightarrow> string \<Rightarrow> error + 'x tracer_provider" where
  "get_tracer_provider new_exporter host url service =
     (case new_exporter (trim_scheme url) of
        Inl e \<Rightarrow> Inl (ErrWrap ''failed to create trace exporter: '' e)
      | Inr x \<Rightarrow> Inr \<lparr>tp_exporter = x, tp_always_sample = True, tp_service = service, tp_host = host\<rparr>)"

lemma set_tracing_provider:
  "set_tracing new_provider url propagator =
     (case get_tracer_provider new_provider host url service of
        Inl e \<Rightarrow> ([], None, Some e)
      | Inr tp \<Rightarrow> ([SetTracerProvider (tp_exporter tp), SetPropagator (propagator = propagator_jaeger)], Some (tp_exporter tp), None))"
  by (simp add: set_tracing_def get_tracer_provider_def split: sum.split)

text \<open>
  \<^verbatim>\<open>flushTracer\<close> returns a function, which shuts the provider down; the stopper calls \<^verbatim>\<open>flushTracer\<close> and
  drops what it returns.  \<open>shutdown\<close> is the provider's \<^verbatim>\<open>Shutdown\<close>.
\<close>

definition flush_tracer :: "('tp \<Rightarrow> 'w \<Rightarrow> error option \<times> 'w) \<Rightarrow> 'tp \<Rightarrow> 'w \<Rightarrow> 'w" where
  "flush_tracer shutdown tp = (\<lambda>w. snd (shutdown tp w))"

definition stop_tracer :: "('tp \<Rightarrow> 'w \<Rightarrow> error option \<times> 'w) \<Rightarrow> 'tp \<Rightarrow> 'w \<Rightarrow> 'w" where
  "stop_tracer shutdown tp w = (let dropped = flush_tracer shutdown tp in w)"

lemma stop_tracer_flushes_nothing: "stop_tracer shutdown tp w = w"
  by (simp add: stop_tracer_def)

section \<open>Watching the configuration\<close>

definition telemetry_changed :: "config_spec \<Rightarrow> config_spec \<Rightarrow> bool" where
  "telemetry_changed cfg prev \<longleftrightarrow>
     ts_collector_endpoint (sp_telemetry cfg) \<noteq> ts_collector_endpoint (sp_telemetry prev)
     \<or> ts_propagator (sp_telemetry cfg) \<noteq> ts_propagator (sp_telemetry prev)"

definition telemetry_valid :: "config_spec \<Rightarrow> bool" where
  "telemetry_valid cfg \<longleftrightarrow>
     ts_collector_endpoint (sp_telemetry cfg) \<noteq> [] \<and> ts_propagator (sp_telemetry cfg) \<noteq> []"

text \<open>The loop over the configurations of the channel, until it is closed; the result is what it did.\<close>

fun watch_config :: "(string \<Rightarrow> error + nat) \<Rightarrow> config_spec list \<Rightarrow> config_spec \<Rightarrow> nat option \<Rightarrow> trace_event list" where
  "watch_config new_provider [] prev stopper = (case stopper of None \<Rightarrow> [] | Some tp \<Rightarrow> [StopTracer tp])"
| "watch_config new_provider (cfg # cfgs) prev stopper =
     (if telemetry_changed cfg prev then
        (let stops = (case stopper of None \<Rightarrow> [] | Some tp \<Rightarrow> [StopTracer tp]) in
         if telemetry_valid cfg then
           (case set_tracing new_provider (ts_collector_endpoint (sp_telemetry cfg)) (ts_propagator (sp_telemetry cfg)) of
              (evs, stopper1, err) \<Rightarrow> stops @ evs @ watch_config new_provider cfgs cfg stopper1)
         else stops @ watch_config new_provider cfgs cfg stopper)
      else watch_config new_provider cfgs cfg stopper)"

text \<open>The providers that were set and not stopped yet, along a run.\<close>

fun open_tracers :: "nat list \<Rightarrow> trace_event list \<Rightarrow> nat list" where
  "open_tracers ts [] = ts"
| "open_tracers ts (SetTracerProvider tp # es) = open_tracers (tp # ts) es"
| "open_tracers ts (StopTracer tp # es) = open_tracers (removeAll tp ts) es"
| "open_tracers ts (SetPropagator j # es) = open_tracers ts es"

lemma open_tracers_append: "open_tracers ts (as @ bs) = open_tracers (open_tracers ts as) bs"
  by (induction ts as rule: open_tracers.induct) auto

text \<open>At the end of the configuration channel no tracer is left running.\<close>

theorem watch_config_stops_all:
  "set ts \<subseteq> set_option stopper \<Longrightarrow> open_tracers ts (watch_config new_provider cfgs prev stopper) = []"
proof (induction cfgs arbitrary: prev stopper ts)
  case Nil
  then show ?case by (cases stopper) (auto simp: removeAll_filter_not_eq filter_empty_conv)
next
  case (Cons cfg cfgs)
  let ?stops = "case stopper of None \<Rightarrow> [] | Some tp \<Rightarrow> [StopTracer tp]"
  have stops: "open_tracers ts ?stops = []"
    using Cons.prems by (cases stopper) (auto simp: removeAll_filter_not_eq filter_empty_conv)
  show ?case
  proof (cases "telemetry_changed cfg prev")
    case True
    show ?thesis
    proof (cases "telemetry_valid cfg")
      case valid: True
      obtain evs stopper1 err where tr: "set_tracing new_provider (ts_collector_endpoint (sp_telemetry cfg))
          (ts_propagator (sp_telemetry cfg)) = (evs, stopper1, err)" by (rule prod_cases3)
      then have "set (open_tracers [] evs) \<subseteq> set_option stopper1"
        by (auto simp: set_tracing_def split: sum.split_asm)
      from Cons.IH [OF this] show ?thesis
        using True valid tr by (simp add: open_tracers_append stops Let_def)
    next
      case False
      have "open_tracers [] (watch_config new_provider cfgs cfg stopper) = []" by (rule Cons.IH) simp
      with True False show ?thesis by (simp add: open_tracers_append stops Let_def)
    qed
  next
    case False
    with Cons.IH [OF Cons.prems] show ?thesis by simp
  qed
qed

text \<open>
  After a change to a configuration without an endpoint the old stopper is kept, and called once more at
  the next change.
\<close>

definition telemetry_config :: "string \<Rightarrow> config_spec" where
  "telemetry_config url = zero_config\<lparr>sp_telemetry := \<lparr>ts_collector_endpoint = url, ts_propagator = ''w3c''\<rparr>\<rparr>"

theorem stale_stopper_called_again:
  "watch_config (\<lambda>u. Inr (length u)) [telemetry_config ''a'', telemetry_config [], telemetry_config ''bb''] zero_config None
   = [SetTracerProvider 1, SetPropagator False, StopTracer 1, StopTracer 1, SetTracerProvider 2, SetPropagator False,
      StopTracer 2]"
  by (simp add: telemetry_config_def zero_config_def telemetry_changed_def telemetry_valid_def set_tracing_def
      trim_scheme_def propagator_jaeger_def)

end
