(* ===== verification/Diagnostics_Server.thy ===== *)
theory Diagnostics_Server
  imports Prelude
begin

text \<open>
  The diagnostics server (\<^verbatim>\<open>internal/diagnostics/server.go\<close>): the call of \<^verbatim>\<open>Run\<close>, its goroutine, and the
  HTTP server between them, as a step relation.  Of \<^verbatim>\<open>net/http\<close> the steps use that \<^verbatim>\<open>ListenAndServe\<close>
  returns when it fails or once \<^verbatim>\<open>Shutdown\<close> was called, and that \<^verbatim>\<open>Shutdown\<close> with a deadline ends.
  The instruments of the metrics (\<^verbatim>\<open>internal/metrics/metrics.go\<close>) are made once, on first use.
\<close>

section \<open>Run\<close>

text \<open>\<open>Closing\<close> is between the return of \<^verbatim>\<open>ListenAndServe\<close> and \<^verbatim>\<open>close(doneCh)\<close>.\<close>

datatype main_pc = Serving | Closing error | Returned error

datatype stopper_pc = Waiting | ShuttingDown | Gone

record http_run =
  ht_cancelled :: bool
  ht_done_closed :: bool
  ht_shutdown :: bool
  ht_main :: main_pc
  ht_stopper :: stopper_pc

definition http_init :: "http_run \<Rightarrow> bool" where
  "http_init s \<longleftrightarrow> \<not> ht_done_closed s \<and> \<not> ht_shutdown s \<and> ht_main s = Serving \<and> ht_stopper s = Waiting"

definition server_closed :: error where
  "server_closed = ErrText ''http: Server closed''"

inductive http_step :: "http_run \<Rightarrow> http_run \<Rightarrow> bool" where
  cancel: "http_step s (s\<lparr>ht_cancelled := True\<rparr>)"
| stop_on_cancel: "ht_stopper s = Waiting \<Longrightarrow> ht_cancelled s
    \<Longrightarrow> http_step s (s\<lparr>ht_stopper := ShuttingDown, ht_shutdown := True\<rparr>)"
| stop_on_done: "ht_stopper s = Waiting \<Longrightarrow> ht_done_closed s \<Longrightarrow> http_step s (s\<lparr>ht_stopper := Gone\<rparr>)"
| shutdown_ends: "ht_stopper s = ShuttingDown \<Longrightarrow> http_step s (s\<lparr>ht_stopper := Gone\<rparr>)"
| serve_fails: "ht_main s = Serving \<Longrightarrow> e \<noteq> server_closed \<Longrightarrow> http_step s (s\<lparr>ht_main := Closing e\<rparr>)"
| serve_closed: "ht_main s = Serving \<Longrightarrow> ht_shutdown s \<Longrightarrow> http_step s (s\<lparr>ht_main := Closing server_closed\<rparr>)"
| close_done: "ht_main s = Closing e \<Longrightarrow> http_step s (s\<lparr>ht_main := Returned e, ht_done_closed := True\<rparr>)"

inductive_cases http_stepE: "http_step s t"

text \<open>
  The channel is closed exactly by the return, so never twice; a server that was shut down was cancelled,
  and reports it only then.
\<close>

definition http_inv :: "http_run \<Rightarrow> bool" where
  "http_inv s \<longleftrightarrow>
     (ht_done_closed s \<longleftrightarrow> (\<exists>e. ht_main s = Returned e))
     \<and> (ht_shutdown s \<longrightarrow> ht_cancelled s \<and> ht_stopper s \<noteq> Waiting)
     \<and> (ht_stopper s = ShuttingDown \<longrightarrow> ht_shutdown s)
     \<and> (ht_stopper s = Gone \<longrightarrow> ht_shutdown s \<or> ht_done_closed s)
     \<and> (ht_main s = Closing server_closed \<or> ht_main s = Returned server_closed \<longrightarrow> ht_shutdown s)"

lemma http_inv_step: "http_inv s \<Longrightarrow> http_step s t \<Longrightarrow> http_inv t"
  by (erule http_stepE) (auto simp: http_inv_def)

text \<open>Cancelled, or with its listener gone, a run can still reach its end, with nothing left running.\<close>

definition http_ending :: "http_run \<Rightarrow> bool" where
  "http_ending s \<longleftrightarrow> ht_cancelled s \<or> ht_main s \<noteq> Serving"

definition http_ended :: "http_run \<Rightarrow> bool" where
  "http_ended s \<longleftrightarrow> (\<exists>e. ht_main s = Returned e) \<and> ht_stopper s = Gone"

fun main_left :: "main_pc \<Rightarrow> nat" where
  "main_left Serving = 2" | "main_left (Closing e) = 1" | "main_left (Returned e) = 0"

fun stopper_left :: "stopper_pc \<Rightarrow> nat" where
  "stopper_left Waiting = 2" | "stopper_left ShuttingDown = 1" | "stopper_left Gone = 0"

definition http_distance :: "http_run \<Rightarrow> nat" where
  "http_distance s = main_left (ht_main s) + stopper_left (ht_stopper s)"

lemma http_progress:
  assumes "http_inv s" and "http_ending s" and "\<not> http_ended s"
  shows "\<exists>t. http_step s t \<and> http_ending t \<and> http_distance t < http_distance s"
proof (cases "ht_main s")
  case Serving
  then have c: "ht_cancelled s" using assms(2) by (simp add: http_ending_def)
  show ?thesis
  proof (cases "ht_stopper s = Waiting")
    case True
    with c http_step.stop_on_cancel [of s] show ?thesis
      by (intro exI [of _ "s\<lparr>ht_stopper := ShuttingDown, ht_shutdown := True\<rparr>"]) (simp add: http_ending_def http_distance_def)
  next
    case False
    then have "ht_shutdown s"
      using assms(1) Serving by (cases "ht_stopper s") (auto simp: http_inv_def)
    with Serving c http_step.serve_closed [of s] show ?thesis
      by (intro exI [of _ "s\<lparr>ht_main := Closing server_closed\<rparr>"]) (simp add: http_ending_def http_distance_def)
  qed
next
  case (Closing e)
  with http_step.close_done [of s e] show ?thesis
    by (intro exI [of _ "s\<lparr>ht_main := Returned e, ht_done_closed := True\<rparr>"]) (simp add: http_ending_def http_distance_def)
next
  case (Returned e)
  then have "ht_done_closed s" using assms(1) by (auto simp: http_inv_def)
  with Returned assms(3) http_step.stop_on_done [of s] http_step.shutdown_ends [of s] show ?thesis
    by (cases "ht_stopper s"; intro exI [of _ "s\<lparr>ht_stopper := Gone\<rparr>"])
      (auto simp: http_ended_def http_ending_def http_distance_def)
qed

interpretation http: progress_system http_step http_inv http_init http_ending http_ended http_distance
  by unfold_locales (fact http_inv_step, simp add: http_init_def http_inv_def, fact http_progress)

theorem diagnostics_server_ends:
  assumes "reachable http_init http_step s" and "http_ending s"
  shows "\<exists>t. http_step\<^sup>*\<^sup>* s t \<and> http_ended t"
  using http.final_reached [OF http.inv_reachable [OF assms(1)] assms(2)] by blast

theorem diagnostics_server_closed_only_cancelled:
  assumes "reachable http_init http_step s" and "ht_main s = Returned server_closed"
  shows "ht_cancelled s"
  using http.inv_reachable [OF assms(1)] assms(2) by (simp add: http_inv_def)

text \<open>The call can return while \<^verbatim>\<open>Shutdown\<close> is still waiting for the requests in progress.\<close>

definition fresh_run :: http_run where
  "fresh_run = \<lparr>ht_cancelled = True, ht_done_closed = False, ht_shutdown = False, ht_main = Serving, ht_stopper = Waiting\<rparr>"

theorem run_returns_before_shutdown_ends:
  "\<exists>s. reachable http_init http_step s \<and> ht_main s = Returned server_closed \<and> ht_stopper s = ShuttingDown"
proof -
  let ?s1 = "fresh_run\<lparr>ht_stopper := ShuttingDown, ht_shutdown := True\<rparr>"
  let ?s2 = "?s1\<lparr>ht_main := Closing server_closed\<rparr>"
  let ?s3 = "?s2\<lparr>ht_main := Returned server_closed, ht_done_closed := True\<rparr>"
  have "reachable http_init http_step fresh_run" by (rule reachable_init) (simp add: http_init_def fresh_run_def)
  then have "reachable http_init http_step ?s1"
    by (rule reachable_step) (rule http_step.stop_on_cancel; simp add: fresh_run_def)
  then have "reachable http_init http_step ?s2"
    by (rule reachable_step) (rule http_step.serve_closed; simp add: fresh_run_def)
  then have "reachable http_init http_step ?s3"
    by (rule reachable_step) (rule http_step.close_done; simp)
  then show ?thesis by (intro exI [of _ ?s3]) simp
qed

section \<open>The instruments\<close>

datatype instrument =
    Int64Counter string string
  | Int64Histogram string string string
  | Float64Histogram string string string "rat list"

record service_metrics =
  sm_meter :: string
  sm_publish_count :: instrument
  sm_subscribe_duration_ms :: instrument
  sm_subscribe_duration_sec :: instrument

definition new_service_metrics :: service_metrics where
  "new_service_metrics =
     \<lparr>sm_meter = ''rusi.io/pubsub'',
      sm_publish_count = Int64Counter ''rusi.pubsub.publish.count'' ''The number of publishes'',
      sm_subscribe_duration_ms = Int64Histogram ''rusi.pubsub.processing.duration''
        ''The duration of a message execution'' ''milliseconds'',
      sm_subscribe_duration_sec = Float64Histogram ''rusi.pubsub.processing.duration.seconds''
        ''The duration of a message execution'' ''seconds''
        [5/1000, 1/100, 25/1000, 5/100, 75/1000, 1/10, 1/4, 1/2, 3/4, 1, 5/2, 4, 5, 15/2, 10, 15, 20, 30, 35, 40]\<rparr>"

text \<open>\<^verbatim>\<open>initOnce.Do\<close>: \<open>made\<close> is what the first call left in \<open>s\<close>; \<open>create\<close> runs for it only.\<close>

definition default_pubsub_metrics :: "('w \<Rightarrow> 'm \<times> 'w) \<Rightarrow> 'm option \<Rightarrow> 'w \<Rightarrow> 'm \<times> 'm option \<times> 'w" where
  "default_pubsub_metrics create made w =
     (case made of
        Some m \<Rightarrow> (m, made, w)
      | None \<Rightarrow> (case create w of (m, w1) \<Rightarrow> (m, Some m, w1)))"

lemma default_pubsub_metrics_once:
  assumes "default_pubsub_metrics create made w = (m, made1, w1)"
  shows "default_pubsub_metrics create' made1 w2 = (m, made1, w2)"
  using assms by (auto simp: default_pubsub_metrics_def split: option.splits prod.splits)

lemma histogram_bounds_increase:
  "case sm_subscribe_duration_sec new_service_metrics of Float64Histogram n d u bs \<Rightarrow> sorted_wrt (<) bs | _ \<Rightarrow> False"
  by (simp add: new_service_metrics_def)

end
