(* ===== verification/Sidecar.thy ===== *)
theory Sidecar
  imports Runtime Runtime_Config
begin

text \<open>
  The start of the sidecar: \<^verbatim>\<open>main\<close> of \<^verbatim>\<open>cmd/rusid/sidecar.go\<close>, with the part of the standard library's
  \<^verbatim>\<open>flag\<close> package it calls (\<^verbatim>\<open>FlagSet.Parse\<close> with \<^verbatim>\<open>ExitOnError\<close>).  The flags of klog, which are not under
  the repository, are the parameter \<open>klog\<close>: for a name, whether it is a boolean flag and how a value is
  accepted.  The two ways of loading components and configurations are a record of parameters.
\<close>

section \<open>Integer flags: \<^verbatim>\<open>strconv.ParseInt(s, 0, 64)\<close>\<close>

text \<open>\<^verbatim>\<open>underscoreOK\<close>: underscores only between digits, or between a base prefix and a digit.\<close>

fun underscore_ok_from :: "bool \<Rightarrow> char \<Rightarrow> string \<Rightarrow> bool" where
  "underscore_ok_from hex last_kind [] \<longleftrightarrow> last_kind \<noteq> CHR ''_''"
| "underscore_ok_from hex last_kind (c # cs) \<longleftrightarrow>
     (if is_digit c \<or> hex \<and> CHR ''a'' \<le> lower_char c \<and> lower_char c \<le> CHR ''f''
      then underscore_ok_from hex (CHR ''0'') cs
      else if c = CHR ''_'' then last_kind = CHR ''0'' \<and> underscore_ok_from hex (CHR ''_'') cs
      else last_kind \<noteq> CHR ''_'' \<and> underscore_ok_from hex (CHR ''!'') cs)"

definition base_of_prefix :: "char \<Rightarrow> nat option" where
  "base_of_prefix c =
     (if lower_char c = CHR ''b'' then Some 2
      else if lower_char c = CHR ''o'' then Some 8
      else if lower_char c = CHR ''x'' then Some 16 else None)"

definition underscore_ok :: "string \<Rightarrow> bool" where
  "underscore_ok s =
     (if 2 \<le> length s \<and> s ! 0 = CHR ''0'' \<and> base_of_prefix (s ! 1) \<noteq> None
      then underscore_ok_from (base_of_prefix (s ! 1) = Some 16) (CHR ''0'') (drop 2 s)
      else underscore_ok_from False (CHR ''^'') s)"

definition split_base :: "string \<Rightarrow> nat \<times> string" where
  "split_base s =
     (if has_prefix ''0'' s then
        (case (if 3 \<le> length s then base_of_prefix (s ! 1) else None) of
           Some b \<Rightarrow> (b, drop 2 s)
         | None \<Rightarrow> (8, tl s))
      else (10, s))"

definition digit_in_base :: "nat \<Rightarrow> char \<Rightarrow> nat option" where
  "digit_in_base base c =
     (let d = (if is_digit c then digit_val c
               else if CHR ''a'' \<le> lower_char c \<and> lower_char c \<le> CHR ''z'' then of_char (lower_char c) - 87
               else base)
      in if d < base then Some d else None)"

fun parse_base_digits :: "nat \<Rightarrow> nat \<Rightarrow> nat \<Rightarrow> string \<Rightarrow> num_fail + nat" where
  "parse_base_digits base lim n [] = Inr n"
| "parse_base_digits base lim n (c # cs) =
     (if c = CHR ''_'' then parse_base_digits base lim n cs
      else case digit_in_base base c of
          None \<Rightarrow> Inl BadSyntax
        | Some d \<Rightarrow>
            (if n * base + d > lim then Inl OutOfRange
             else parse_base_digits base lim (n * base + d) cs))"

definition parse_int_flag :: "string \<Rightarrow> num_fail + int" where
  "parse_int_flag s =
     (let neg = has_prefix ''-'' s;
          body = (if neg \<or> has_prefix ''+'' s then tl s else s);
          (base, digits) = split_base body
      in if body = [] then Inl BadSyntax
         else case parse_base_digits base (2 ^ 64 - 1) 0 digits of
             Inl f \<Rightarrow> Inl f
           | Inr n \<Rightarrow>
               (if CHR ''_'' \<in> set digits \<and> \<not> underscore_ok body then Inl BadSyntax
                else if \<not> neg \<and> n \<ge> 2 ^ 63 then Inl OutOfRange
                else if neg \<and> n > 2 ^ 63 then Inl OutOfRange
                else Inr (if neg then - int n else int n)))"

text \<open>\<^verbatim>\<open>strconv.ParseBool\<close>\<close>

definition parse_bool :: "string \<Rightarrow> bool option" where
  "parse_bool s =
     (if s \<in> {''1'', ''t'', ''T'', ''TRUE'', ''true'', ''True''} then Some True
      else if s \<in> {''0'', ''f'', ''F'', ''FALSE'', ''false'', ''False''} then Some False else None)"

section \<open>The \<^verbatim>\<open>flag\<close> package\<close>

text \<open>Whether a flag is boolean (its value is optional), and its \<^verbatim>\<open>Set\<close>, which fails as \<open>None\<close>.\<close>

record 'c flag_def =
  fl_bool :: bool
  fl_set :: "string \<Rightarrow> 'c \<Rightarrow> 'c option"

datatype flag_error =
  HelpRequested
| BadFlagSyntax string
| FlagNotDefined string
| FlagNeedsArgument string
| InvalidFlagValue string string

definition flag_body :: "string \<Rightarrow> string option" where
  "flag_body s =
     (if length s < 2 \<or> s ! 0 \<noteq> CHR ''-'' then None
      else if s ! 1 = CHR ''-'' then Some (drop 2 s) else Some (tl s))"

definition flag_name :: "string \<Rightarrow> string" where
  "flag_name body = takeWhile (\<lambda>c. c \<noteq> CHR ''='') body"

definition flag_value :: "string \<Rightarrow> string option" where
  "flag_value body = (if CHR ''='' \<in> set body then Some (tl (dropWhile (\<lambda>c. c \<noteq> CHR ''='') body)) else None)"

text \<open>\<^verbatim>\<open>FlagSet.parseOne\<close>, until it stops: at the first argument that is not a flag, or after \<open>--\<close>.\<close>

fun parse_flags :: "(string \<Rightarrow> 'c flag_def option) \<Rightarrow> string list \<Rightarrow> 'c \<Rightarrow> flag_error + string list \<times> 'c" where
  "parse_flags flags [] c = Inr ([], c)"
| "parse_flags flags (s # rest) c =
     (case flag_body s of
        None \<Rightarrow> Inr (s # rest, c)
      | Some body \<Rightarrow>
          (if body = [] then Inr (rest, c)
           else if hd body = CHR ''-'' \<or> hd body = CHR ''='' then Inl (BadFlagSyntax s)
           else case flags (flag_name body) of
               None \<Rightarrow> Inl (if flag_name body = ''help'' \<or> flag_name body = ''h'' then HelpRequested
                           else FlagNotDefined (flag_name body))
             | Some f \<Rightarrow>
                 (case (if fl_bool f \<and> flag_value body = None then Some ''true'' else flag_value body) of
                    Some v \<Rightarrow>
                      (case fl_set f v c of
                         None \<Rightarrow> Inl (InvalidFlagValue v (flag_name body))
                       | Some c1 \<Rightarrow> parse_flags flags rest c1)
                  | None \<Rightarrow>
                      (case rest of
                         [] \<Rightarrow> Inl (FlagNeedsArgument (flag_name body))
                       | v # rest1 \<Rightarrow>
                           (case fl_set f v c of
                              None \<Rightarrow> Inl (InvalidFlagValue v (flag_name body))
                            | Some c1 \<Rightarrow> parse_flags flags rest1 c1)))))"

section \<open>The flags of the sidecar\<close>

definition string_flag :: "(string \<Rightarrow> 'c \<Rightarrow> 'c) \<Rightarrow> 'c flag_def" where
  "string_flag put = \<lparr>fl_bool = False, fl_set = (\<lambda>s c. Some (put s c))\<rparr>"

definition int_flag :: "(int \<Rightarrow> 'c \<Rightarrow> 'c) \<Rightarrow> 'c flag_def" where
  "int_flag put =
     \<lparr>fl_bool = False, fl_set = (\<lambda>s c. case parse_int_flag s of Inl f \<Rightarrow> None | Inr i \<Rightarrow> Some (put i c))\<rparr>"

definition bool_flag :: "(bool \<Rightarrow> 'c \<Rightarrow> 'c) \<Rightarrow> 'c flag_def" where
  "bool_flag put = \<lparr>fl_bool = True, fl_set = (\<lambda>s c. map_option (\<lambda>b. put b c) (parse_bool s))\<rparr>"

text \<open>The names of \<^verbatim>\<open>AttachCmdFlags\<close>; any other name is a flag of klog or unknown.\<close>

definition rusid_flags :: "(string \<Rightarrow> (bool \<times> (string \<Rightarrow> bool)) option) \<Rightarrow> string \<Rightarrow> config_builder flag_def option" where
  "rusid_flags klog name =
     (if name = ''mode'' then Some (string_flag (\<lambda>s c. c\<lparr>cb_mode := s\<rparr>))
      else if name = ''rusi-grpc-host'' then Some (string_flag (\<lambda>s c. c\<lparr>cb_grpc_host := s\<rparr>))
      else if name = ''rusi-grpc-port'' then Some (int_flag (\<lambda>i c. c\<lparr>cb_grpc_port := i\<rparr>))
      else if name = ''components-path'' then Some (string_flag (\<lambda>s c. c\<lparr>cb_components_path := s\<rparr>))
      else if name = ''config'' then Some (string_flag (\<lambda>s c. c\<lparr>cb_config := s\<rparr>))
      else if name = ''control-plane-address'' then Some (string_flag (\<lambda>s c. c\<lparr>cb_control_plane_address := s\<rparr>))
      else if name = ''app-id'' then Some (string_flag (\<lambda>s c. c\<lparr>cb_app_id := s\<rparr>))
      else if name = ''diagnostics-port'' then Some (int_flag (\<lambda>i c. c\<lparr>cb_diagnostics_port := i\<rparr>))
      else if name = ''enable-metrics'' then Some (bool_flag (\<lambda>b c. c\<lparr>cb_enable_metrics := b\<rparr>))
      else map_option (\<lambda>(is_bool, accepts). \<lparr>fl_bool = is_bool, fl_set = (\<lambda>s c. if accepts s then Some c else None)\<rparr>)
             (klog name))"

section \<open>\<^verbatim>\<open>main\<close>\<close>

text \<open>
  The loaders \<^verbatim>\<open>main\<close> chooses from.  A component loader is what calling it returns first, its error; a
  configuration loader gives its error or what is first received from its channel.
\<close>

record loaders =
  ld_local_components :: "string \<Rightarrow> error option"
  ld_watch_components :: "string \<Rightarrow> error option"
  ld_standalone_configuration :: "string \<Rightarrow> error + config_spec first_received"
  ld_watch_configuration :: "string \<Rightarrow> string \<Rightarrow> error + config_spec first_received"

text \<open>
  \<open>WaitsForConfiguration\<close> is a process that waits for ever before it serves anything: the health checks
  and the API are started after \<^verbatim>\<open>NewRuntime\<close>.
\<close>

datatype 'r startup = FlagExit int | StartError error | WaitsForConfiguration rusi_config | Running rusi_config 'r

definition rusid_main where
  "rusid_main klog setenv ks ld pubsubs middlewares args env =
     (case parse_flags (rusid_flags klog) args (attach_cmd_flags new_runtime_config_builder) of
        Inl e \<Rightarrow> (FlagExit (if e = HelpRequested then 0 else 2), env)
      | Inr (rest, cb) \<Rightarrow>
          (case build_config setenv ks cb env of
             (Inl e, env1) \<Rightarrow> (StartError e, env1)
           | (Inr cfg, env1) \<Rightarrow>
               (let in_kubernetes = rc_mode cfg = kubernetes_mode;
                    comps = (if in_kubernetes then ld_watch_components ld (rc_control_plane_address cfg)
                             else ld_local_components ld (rc_components_path cfg));
                    conf = (if in_kubernetes then ld_watch_configuration ld (rc_control_plane_address cfg) (rc_config cfg)
                            else ld_standalone_configuration ld (rc_config cfg))
                in case new_components_manager (rc_app_id cfg) comps pubsubs middlewares of
                     Inl e \<Rightarrow> (StartError e, env1)
                   | Inr m \<Rightarrow>
                       (case new_runtime (rc_app_id cfg) conf m of
                          Inl e \<Rightarrow> (StartError e, env1)
                        | Inr None \<Rightarrow> (WaitsForConfiguration cfg, env1)
                        | Inr (Some rt) \<Rightarrow> (Running cfg rt, env1)))))"

section \<open>Facts\<close>

text \<open>A decimal number that a program prints is read back by an integer flag.\<close>

lemma parse_int_flag_grpc_port: "parse_int_flag (itoa 50003) = Inr 50003"
  by (simp add: parse_int_flag_def itoa_def utoa.simps split_base_def digit_in_base_def is_digit_def
      digit_val_def less_eq_char_def)

text \<open>A flag given as \<open>--name\<close> takes the next argument, whatever it looks like.\<close>

lemma parse_flags_two_args:
  assumes "flags name = Some f" and "\<not> fl_bool f"
    and "name \<noteq> []" and "hd name \<noteq> CHR ''-''" and "CHR ''='' \<notin> set name"
  shows "parse_flags flags ((''--'' @ name) # v # rest) c =
    (case fl_set f v c of None \<Rightarrow> Inl (InvalidFlagValue v name) | Some c1 \<Rightarrow> parse_flags flags rest c1)"
proof -
  have "flag_name name = name" "flag_value name = None"
    using assms(5) by (auto simp: flag_name_def flag_value_def takeWhile_eq_all_conv)
  moreover have "hd name \<noteq> CHR ''=''" using assms(3,5) by (metis hd_in_set)
  ultimately show ?thesis using assms by (simp add: flag_body_def split: option.split)
qed

lemma rusid_flags_known:
  "rusid_flags klog ''mode'' = Some (string_flag (\<lambda>s c. c\<lparr>cb_mode := s\<rparr>))"
  "rusid_flags klog ''rusi-grpc-port'' = Some (int_flag (\<lambda>i c. c\<lparr>cb_grpc_port := i\<rparr>))"
  "rusid_flags klog ''config'' = Some (string_flag (\<lambda>s c. c\<lparr>cb_config := s\<rparr>))"
  "rusid_flags klog ''control-plane-address'' = Some (string_flag (\<lambda>s c. c\<lparr>cb_control_plane_address := s\<rparr>))"
  "rusid_flags klog ''app-id'' = Some (string_flag (\<lambda>s c. c\<lparr>cb_app_id := s\<rparr>))"
  "rusid_flags klog ''enable-metrics'' = Some (bool_flag (\<lambda>b c. c\<lparr>cb_enable_metrics := b\<rparr>))"
  "rusid_flags klog ''v'' =
     map_option (\<lambda>(is_bool, accepts). \<lparr>fl_bool = is_bool, fl_set = (\<lambda>s c. if accepts s then Some c else None)\<rparr>) (klog ''v'')"
  by (simp_all add: rusid_flags_def)

lemma flag_def_simps [simp]:
  "fl_bool (string_flag put) = False" "fl_set (string_flag put) s c = Some (put s c)"
  "fl_bool (int_flag puti) = False"
  "fl_set (int_flag puti) s c = (case parse_int_flag s of Inl f \<Rightarrow> None | Inr i \<Rightarrow> Some (puti i c))"
  "fl_bool (bool_flag putb) = True" "fl_set (bool_flag putb) s c = map_option (\<lambda>b. putb b c) (parse_bool s)"
  by (simp_all add: string_flag_def int_flag_def bool_flag_def)

lemma build_config_parts:
  assumes "\<forall>k v e. fst (setenv k v e) = None"
  shows "fst (build_config setenv ks c env) =
    (case validate_config c of
       Some e \<Rightarrow> Inl e
     | None \<Rightarrow>
         Inr \<lparr>rc_mode = cb_mode c, rc_grpc_host = cb_grpc_host c, rc_grpc_port = cb_grpc_port c,
              rc_diagnostics_port = cb_diagnostics_port c, rc_enable_metrics = cb_enable_metrics c,
              rc_components_path = cb_components_path c, rc_config = cb_config c,
              rc_control_plane_address = cb_control_plane_address c, rc_app_id = cb_app_id c\<rparr>)"
proof -
  have "fst (set_env_variables setenv vs ks' e) = None" for vs ks' e
    using assms by (induction ks' arbitrary: e) (auto split: option.split prod.split, metis fst_conv option.distinct(1))
  then have "\<exists>env1. set_env_variables setenv (config_variables c) ks env = (None, env1)"
    by (metis prod.collapse)
  then show ?thesis by (auto simp: build_config_def split: option.split)
qed

end
