(* ===== verification/Shutdown.thy ===== *)
theory Shutdown
  imports Grpc_Server
begin

text \<open>
  The gRPC API as the runtime sees it (\<^verbatim>\<open>grpcApi\<close> of \<^verbatim>\<open>pkg/api/runtime/grpc/grpc_api.go\<close>, with \<^verbatim>\<open>TestApi\<close>
  as the other implementation of \<^verbatim>\<open>pkg/api/runtime/api.go\<close>), and how the sidecar ends: the end of \<^verbatim>\<open>main\<close>,
  \<^verbatim>\<open>shutdownOnInterrupt\<close> and \<^verbatim>\<open>startDiagnosticsServer\<close> of \<^verbatim>\<open>cmd/rusid/sidecar.go\<close>, \<^verbatim>\<open>Serve\<close>, and
  \<^verbatim>\<open>Run\<close> of \<^verbatim>\<open>internal/diagnostics/server.go\<close>, as a step relation over their wait groups.

  Of the gRPC library the model uses what its documentation promises: after \<^verbatim>\<open>GracefulStop\<close> no call is
  accepted, and the server returns without an error when the pending ones have ended; if accepting
  connections fails it returns an error at once, and the open connections live on.
\<close>

section \<open>The API\<close>

text \<open>The server with the handlers \<^verbatim>\<open>newRusiServer\<close> is given.\<close>

record ('p, 's) api_server =
  sv_server :: server
  sv_publish :: "'p option"
  sv_subscribe :: "'s option"

record ('p, 's) grpc_api =
  ga_host :: string
  ga_port :: int
  ga_server :: "('p, 's) api_server option"
  ga_publish :: "'p option"
  ga_subscribe :: "'s option"

definition new_grpc_api :: "string \<Rightarrow> int \<Rightarrow> ('p, 's) grpc_api" where
  "new_grpc_api host port =
     \<lparr>ga_host = host, ga_port = port, ga_server = None, ga_publish = None, ga_subscribe = None\<rparr>"

definition set_publish_handler :: "'p \<Rightarrow> ('p, 's) grpc_api \<Rightarrow> ('p, 's) grpc_api" where
  "set_publish_handler h api = api\<lparr>ga_publish := Some h\<rparr>"

definition set_subscribe_handler :: "'s \<Rightarrow> ('p, 's) grpc_api \<Rightarrow> ('p, 's) grpc_api" where
  "set_subscribe_handler h api = api\<lparr>ga_subscribe := Some h\<rparr>"

text \<open>\<open>Refresh\<close> does nothing before the server exists; \<open>refresh\<close> is the server's own.\<close>

definition grpc_api_refresh :: "(server \<Rightarrow> 'w \<Rightarrow> error option \<times> 'w) \<Rightarrow> ('p, 's) grpc_api \<Rightarrow> 'w \<Rightarrow> error option \<times> 'w" where
  "grpc_api_refresh refresh api w = 
     (case ga_server api of None \<Rightarrow> (None, w) | Some srv \<Rightarrow> refresh (sv_server srv) w)"

text \<open>The first line of \<^verbatim>\<open>Serve\<close>: the new server has the handlers that were set before.\<close>

definition serve_begins :: "('p, 's) grpc_api \<Rightarrow> ('p, 's) grpc_api" where
  "serve_begins api =
     api\<lparr>ga_server := Some \<lparr>sv_server = new_rusi_server, sv_publish = ga_publish api, sv_subscribe = ga_subscribe api\<rparr>\<rparr>"

text \<open>The stub: \<open>ta_refreshes\<close> counts the values sent on its channel.\<close>

record ('p, 's) test_api =
  ta_publish :: "'p option"
  ta_subscribe :: "'s option"
  ta_refreshes :: nat

definition new_test_api :: "('p, 's) test_api" where
  "new_test_api = \<lparr>ta_publish = None, ta_subscribe = None, ta_refreshes = 0\<rparr>"

definition test_set_publish_handler :: "'p \<Rightarrow> ('p, 's) test_api \<Rightarrow> ('p, 's) test_api" where
  "test_set_publish_handler h api = api\<lparr>ta_publish := Some h\<rparr>"

definition test_set_subscribe_handler :: "'s \<Rightarrow> ('p, 's) test_api \<Rightarrow> ('p, 's) test_api" where
  "test_set_subscribe_handler h api = api\<lparr>ta_subscribe := Some h\<rparr>"

definition test_refresh :: "('p, 's) test_api \<Rightarrow> error option \<times> ('p, 's) test_api" where
  "test_refresh api = (None, api\<lparr>ta_refreshes := Suc (ta_refreshes api)\<rparr>)"

definition test_serve :: "('p, 's) test_api \<Rightarrow> error option \<times> ('p, 's) test_api" where
  "test_serve api = (None, api)"

text \<open>
  The interface \<^verbatim>\<open>Api\<close>: what \<^verbatim>\<open>NewRuntime\<close> relies on when it sets both handlers.
\<close>

locale runtime_api =
  fixes set_pub :: "'p \<Rightarrow> 'a \<Rightarrow> 'a"
    and set_sub :: "'s \<Rightarrow> 'a \<Rightarrow> 'a"
    and pub :: "'a \<Rightarrow> 'p option"
    and sub :: "'a \<Rightarrow> 's option"
  assumes pub_set: "pub (set_pub p a) = Some p"
    and sub_set: "sub (set_sub s a) = Some s"
    and pub_keep: "pub (set_sub s a) = pub a"
    and sub_keep: "sub (set_pub p a) = sub a"
begin

lemma handlers_attached: "pub (set_sub s (set_pub p a)) = Some p" "sub (set_sub s (set_pub p a)) = Some s"
  by (simp_all add: pub_set sub_set pub_keep)

lemma handlers_order: "pub (set_sub s (set_pub p a)) = pub (set_pub p (set_sub s a))"
    "sub (set_sub s (set_pub p a)) = sub (set_pub p (set_sub s a))"
  by (simp_all add: pub_set sub_set pub_keep sub_keep)

end

interpretation grpc: runtime_api set_publish_handler set_subscribe_handler ga_publish ga_subscribe
  by unfold_locales (simp_all add: set_publish_handler_def set_subscribe_handler_def)

interpretation stub: runtime_api test_set_publish_handler test_set_subscribe_handler ta_publish ta_subscribe
  by unfold_locales (simp_all add: test_set_publish_handler_def test_set_subscribe_handler_def)

text \<open>The server that \<^verbatim>\<open>Serve\<close> makes has the runtime's handlers.\<close>

theorem served_with_runtime_handlers:
  "ga_server (serve_begins (set_subscribe_handler s (set_publish_handler p api)))
   = Some \<lparr>sv_server = new_rusi_server, sv_publish = Some p, sv_subscribe = Some s\<rparr>"
  using grpc.handlers_attached [of s p api] by (simp add: serve_begins_def)

section \<open>The state of a sidecar that runs\<close>

text \<open>
  A task is a goroutine counted by the wait group of \<^verbatim>\<open>main\<close>: the diagnostics server and the watchers of
  the operator.  Each adds itself after it was launched.
\<close>

datatype task_kind = DiagnosticsServer | OperatorWatcher

datatype task_phase = Launched | Counted | Ended

text \<open>The server inside \<^verbatim>\<open>Serve\<close>; \<open>ApiReturned\<close> is the end of \<^verbatim>\<open>Serve\<close> itself, after its wait.\<close>

datatype server_phase = Accepting | Stopping | ServeReturned "error option" | ApiReturned "error option"

datatype main_phase = InRun | WaitingForTasks | Exited

text \<open>\<open>sc_accepted\<close> are the Subscribe calls before, \<open>sc_open\<close> those after they were added to \<open>sc_subs\<close>.\<close>

record sidecar =
  sc_cancelled :: bool
  sc_server :: server_phase
  sc_accepted :: "nat list"
  sc_open :: "nat list"
  sc_subs :: nat
  sc_tasks :: "(task_kind \<times> task_phase) list"
  sc_wg :: nat
  sc_main :: main_phase

definition sidecar_init :: "sidecar \<Rightarrow> bool" where
  "sidecar_init s \<longleftrightarrow>
     \<not> sc_cancelled s \<and> sc_server s = Accepting \<and> sc_accepted s = [] \<and> sc_open s = [] \<and> sc_subs s = 0
     \<and> (\<forall>t\<in>set (sc_tasks s). snd t = Launched) \<and> sc_wg s = 0 \<and> sc_main s = InRun"

definition set_task :: "nat \<Rightarrow> task_phase \<Rightarrow> sidecar \<Rightarrow> sidecar" where
  "set_task i p s = s\<lparr>sc_tasks := (sc_tasks s)[i := (fst (sc_tasks s ! i), p)]\<rparr>"

text \<open>Calls are accepted until the server stops, and on open connections after accepting has failed.\<close>

fun accepts_calls :: "server_phase \<Rightarrow> bool" where
  "accepts_calls Accepting \<longleftrightarrow> True"
| "accepts_calls Stopping \<longleftrightarrow> False"
| "accepts_calls (ServeReturned e) \<longleftrightarrow> e \<noteq> None"
| "accepts_calls (ApiReturned e) \<longleftrightarrow> e \<noteq> None"

section \<open>The steps\<close>

text \<open>\<^verbatim>\<open>Serve\<close> with the gRPC server it runs, the goroutine that stops it, and its wait for the Subscribe calls.\<close>

inductive serve_step :: "sidecar \<Rightarrow> sidecar \<Rightarrow> bool" where
  call: "accepts_calls (sc_server s) \<Longrightarrow> serve_step s (s\<lparr>sc_accepted := sc_accepted s @ [k]\<rparr>)"
| call_adds: "sc_accepted s = as @ k # bs
    \<Longrightarrow> serve_step s (s\<lparr>sc_accepted := as @ bs, sc_open := sc_open s @ [k], sc_subs := Suc (sc_subs s)\<rparr>)"
| call_ends: "sc_open s = as @ k # bs \<Longrightarrow> serve_step s (s\<lparr>sc_open := as @ bs, sc_subs := sc_subs s - 1\<rparr>)"
| graceful_stop: "sc_cancelled s \<Longrightarrow> sc_server s = Accepting \<Longrightarrow> serve_step s (s\<lparr>sc_server := Stopping\<rparr>)"
| drained: "sc_server s = Stopping \<Longrightarrow> sc_accepted s = [] \<Longrightarrow> sc_open s = []
    \<Longrightarrow> serve_step s (s\<lparr>sc_server := ServeReturned None\<rparr>)"
| accept_fails: "sc_server s = Accepting \<Longrightarrow> serve_step s (s\<lparr>sc_server := ServeReturned (Some e)\<rparr>)"
| unsubscribed: "sc_server s = ServeReturned r \<Longrightarrow> sc_subs s = 0
    \<Longrightarrow> serve_step s (s\<lparr>sc_server := ApiReturned r, sc_main := WaitingForTasks\<rparr>)"

text \<open>
  A task of the wait group of \<^verbatim>\<open>main\<close>: a watcher ends after the context, the diagnostics server also when it
  cannot listen.
\<close>

inductive task_step :: "sidecar \<Rightarrow> sidecar \<Rightarrow> bool" where
  task_adds: "i < length (sc_tasks s) \<Longrightarrow> snd (sc_tasks s ! i) = Launched
    \<Longrightarrow> task_step s (set_task i Counted (s\<lparr>sc_wg := Suc (sc_wg s)\<rparr>))"
| task_ends: "i < length (sc_tasks s) \<Longrightarrow> snd (sc_tasks s ! i) = Counted
    \<Longrightarrow> sc_cancelled s \<or> fst (sc_tasks s ! i) = DiagnosticsServer
    \<Longrightarrow> task_step s (set_task i Ended (s\<lparr>sc_wg := sc_wg s - 1\<rparr>))"

text \<open>The whole process, with the signal and the end of \<^verbatim>\<open>main\<close>, until it has exited.\<close>

inductive sidecar_step :: "sidecar \<Rightarrow> sidecar \<Rightarrow> bool" where
  interrupt: "sc_main s \<noteq> Exited \<Longrightarrow> sidecar_step s (s\<lparr>sc_cancelled := True\<rparr>)"
| serve: "sc_main s \<noteq> Exited \<Longrightarrow> serve_step s t \<Longrightarrow> sidecar_step s t"
| task: "sc_main s \<noteq> Exited \<Longrightarrow> task_step s t \<Longrightarrow> sidecar_step s t"
| exit: "sc_main s = WaitingForTasks \<Longrightarrow> sc_wg s = 0 \<Longrightarrow> sidecar_step s (s\<lparr>sc_main := Exited\<rparr>)"

inductive_cases serve_stepE: "serve_step s t"
inductive_cases task_stepE: "task_step s t"
inductive_cases sidecar_stepE: "sidecar_step s t"

section \<open>The invariant\<close>

definition counted :: "(task_kind \<times> task_phase) list \<Rightarrow> nat" where
  "counted ts = (\<Sum>t\<leftarrow>ts. if snd t = Counted then 1 else 0)"

text \<open>
  The wait groups count what they are to count; \<^verbatim>\<open>main\<close> is past \<^verbatim>\<open>Run\<close> exactly when \<^verbatim>\<open>Serve\<close> has returned;
  a server that stopped gracefully has no call; and \<^verbatim>\<open>main\<close> exits with no task counted.
\<close>

definition sidecar_inv :: "sidecar \<Rightarrow> bool" where
  "sidecar_inv s \<longleftrightarrow>
     sc_subs s = length (sc_open s) \<and> sc_wg s = counted (sc_tasks s)
     \<and> (sc_main s = InRun \<longleftrightarrow> (\<forall>r. sc_server s \<noteq> ApiReturned r))
     \<and> (sc_server s \<in> {ServeReturned None, ApiReturned None} \<longrightarrow> sc_accepted s = [] \<and> sc_open s = [] \<and> sc_cancelled s)
     \<and> (sc_server s = Stopping \<longrightarrow> sc_cancelled s)
     \<and> (sc_main s = Exited \<longrightarrow> sc_wg s = 0)"

lemma set_task_simps [simp]:
  "sc_cancelled (set_task i p s) = sc_cancelled s" "sc_server (set_task i p s) = sc_server s"
  "sc_accepted (set_task i p s) = sc_accepted s" "sc_open (set_task i p s) = sc_open s"
  "sc_subs (set_task i p s) = sc_subs s" "sc_wg (set_task i p s) = sc_wg s" "sc_main (set_task i p s) = sc_main s"
  "sc_tasks (set_task i p s) = (sc_tasks s)[i := (fst (sc_tasks s ! i), p)]"
  by (simp_all add: set_task_def)

lemma sum_list_set:
  "i < length ts \<Longrightarrow> (\<Sum>t\<leftarrow>ts[i := x]. f t) + f (ts ! i) = (\<Sum>t\<leftarrow>ts. f t) + (f x :: nat)"
proof (induction ts arbitrary: i)
  case (Cons t ts)
  then show ?case by (cases i) fastforce+
qed simp

lemma counted_set:
  assumes "i < length ts"
  shows "snd (ts ! i) = Launched \<Longrightarrow> counted (ts[i := (k, Counted)]) = Suc (counted ts)"
    and "snd (ts ! i) = Counted \<Longrightarrow> counted (ts[i := (k, Ended)]) = counted ts - 1"
  using sum_list_set [OF assms, of "\<lambda>t. if snd t = Counted then 1 else 0" "(k, Counted)"]
    sum_list_set [OF assms, of "\<lambda>t. if snd t = Counted then 1 else 0" "(k, Ended)"]
  by (simp_all add: counted_def)

lemma counted_zero: "counted ts = 0 \<longleftrightarrow> (\<forall>t\<in>set ts. snd t \<noteq> Counted)"
  by (auto simp: counted_def)

lemma serve_keeps_inv: "serve_step s t \<Longrightarrow> sidecar_inv s \<Longrightarrow> sc_main s \<noteq> Exited \<Longrightarrow> sidecar_inv t"
  by (erule serve_stepE) (auto simp: sidecar_inv_def)

lemma task_keeps_inv: "task_step s t \<Longrightarrow> sidecar_inv s \<Longrightarrow> sc_main s \<noteq> Exited \<Longrightarrow> sidecar_inv t"
  by (erule task_stepE) (simp_all add: sidecar_inv_def counted_set)

lemma sidecar_inv_step: "sidecar_inv s \<Longrightarrow> sidecar_step s t \<Longrightarrow> sidecar_inv t"
  by (erule sidecar_stepE) (auto intro: serve_keeps_inv task_keeps_inv, auto simp: sidecar_inv_def)

section \<open>Progress\<close>

text \<open>How far a sidecar that is shutting down is from its exit, at most.\<close>

fun server_weight :: "server_phase \<Rightarrow> nat" where
  "server_weight Accepting = 3"
| "server_weight Stopping = 2"
| "server_weight (ServeReturned r) = 1"
| "server_weight (ApiReturned r) = 0"

fun task_weight :: "task_phase \<Rightarrow> nat" where
  "task_weight Launched = 2"
| "task_weight Counted = 1"
| "task_weight Ended = 0"

definition exit_distance :: "sidecar \<Rightarrow> nat" where
  "exit_distance s =
     2 * length (sc_accepted s) + length (sc_open s) + server_weight (sc_server s)
     + (\<Sum>t\<leftarrow>sc_tasks s. task_weight (snd t)) + (if sc_main s = Exited then 0 else 1)"

text \<open>The end of a shutdown: every call and every task has ended, and \<^verbatim>\<open>main\<close> has exited.\<close>

definition shut_down :: "sidecar \<Rightarrow> bool" where
  "shut_down s \<longleftrightarrow> sc_main s = Exited \<and> sc_accepted s = [] \<and> sc_open s = [] \<and> (\<forall>t\<in>set (sc_tasks s). snd t = Ended)"

definition shutting_down :: "sidecar \<Rightarrow> bool" where
  "shutting_down s \<longleftrightarrow> sc_cancelled s \<and> (sc_main s = Exited \<longrightarrow> shut_down s)"

lemma task_progress:
  assumes "sc_main s \<noteq> Exited" and "sc_cancelled s" and "t \<in> set (sc_tasks s)" and "snd t \<noteq> Ended"
  shows "\<exists>s'. sidecar_step s s' \<and> shutting_down s' \<and> exit_distance s' < exit_distance s"
proof -
  from assms(3) obtain i where i: "i < length (sc_tasks s)" "sc_tasks s ! i = t" by (auto simp: in_set_conv_nth)
  show ?thesis
  proof (cases "snd t")
    case Launched
    let ?s' = "set_task i Counted (s\<lparr>sc_wg := Suc (sc_wg s)\<rparr>)"
    have "sidecar_step s ?s'" by (rule sidecar_step.task [OF assms(1) task_step.task_adds]) (use assms i Launched in auto)
    moreover have "exit_distance ?s' < exit_distance s"
      using sum_list_set [OF i(1), of "\<lambda>t. task_weight (snd t)" "(fst t, Counted)"] i(2) Launched
      by (simp add: exit_distance_def)
    ultimately show ?thesis using assms by (auto simp: shutting_down_def)
  next
    case Counted
    let ?s' = "set_task i Ended (s\<lparr>sc_wg := sc_wg s - 1\<rparr>)"
    have "sidecar_step s ?s'" by (rule sidecar_step.task [OF assms(1) task_step.task_ends]) (use assms i Counted in auto)
    moreover have "exit_distance ?s' < exit_distance s"
      using sum_list_set [OF i(1), of "\<lambda>t. task_weight (snd t)" "(fst t, Ended)"] i(2) Counted
      by (simp add: exit_distance_def)
    ultimately show ?thesis using assms by (auto simp: shutting_down_def)
  qed (use assms in simp)
qed

lemma call_progress:
  assumes "sc_main s \<noteq> Exited" and "sc_cancelled s" and "sc_accepted s \<noteq> [] \<or> sc_open s \<noteq> []"
  shows "\<exists>s'. sidecar_step s s' \<and> shutting_down s' \<and> exit_distance s' < exit_distance s"
proof (cases "sc_accepted s")
  case (Cons k bs)
  with sidecar_step.serve [OF assms(1) serve_step.call_adds [of s "[]" k bs]] assms show ?thesis
    by (intro exI conjI, simp) (simp_all add: shutting_down_def exit_distance_def)
next
  case Nil
  with assms(3) obtain k bs where "sc_open s = k # bs" by (cases "sc_open s") auto
  with sidecar_step.serve [OF assms(1) serve_step.call_ends [of s "[]" k bs]] assms Nil show ?thesis
    by (intro exI conjI, simp) (simp_all add: shutting_down_def exit_distance_def)
qed

lemma server_progress:
  assumes "sidecar_inv s" and "sc_main s \<noteq> Exited" and "sc_cancelled s"
    and "sc_accepted s = []" and "sc_open s = []" and "\<forall>t\<in>set (sc_tasks s). snd t = Ended"
  shows "\<exists>s'. sidecar_step s s' \<and> shutting_down s' \<and> exit_distance s' < exit_distance s"
proof (cases "sc_server s")
  case Accepting
  with sidecar_step.serve [OF assms(2) serve_step.graceful_stop [OF assms(3)]] assms show ?thesis
    by (intro exI conjI, simp) (simp_all add: shutting_down_def exit_distance_def)
next
  case Stopping
  with sidecar_step.serve [OF assms(2) serve_step.drained] assms show ?thesis
    by (intro exI conjI, simp) (simp_all add: shutting_down_def exit_distance_def)
next
  case (ServeReturned r)
  moreover have "sc_subs s = 0" using assms(1,5) by (simp add: sidecar_inv_def)
  ultimately show ?thesis using sidecar_step.serve [OF assms(2) serve_step.unsubscribed] assms
    by (intro exI conjI, simp) (simp_all add: shutting_down_def exit_distance_def)
next
  case (ApiReturned r)
  then have "sc_main s = WaitingForTasks" using assms(1,2) by (cases "sc_main s") (auto simp: sidecar_inv_def)
  moreover have "sc_wg s = 0" using assms(1,6) by (auto simp: sidecar_inv_def counted_zero)
  ultimately show ?thesis using sidecar_step.exit [of s] assms
    by (intro exI conjI, simp) (simp_all add: shutting_down_def exit_distance_def shut_down_def)
qed

interpretation shutdown: progress_system sidecar_step sidecar_inv sidecar_init shutting_down shut_down exit_distance
proof
  show "sidecar_inv t" if "sidecar_inv s" "sidecar_step s t" for s t
    using that by (rule sidecar_inv_step)
  show "sidecar_inv s" if "sidecar_init s" for s
    using that counted_zero [of "sc_tasks s"] by (auto simp: sidecar_init_def sidecar_inv_def)
  show "\<exists>t. sidecar_step s t \<and> shutting_down t \<and> exit_distance t < exit_distance s"
    if "sidecar_inv s" "shutting_down s" "\<not> shut_down s" for s
  proof -
    have live: "sc_main s \<noteq> Exited" "sc_cancelled s" using that by (auto simp: shutting_down_def)
    then show ?thesis
      using task_progress [OF live] call_progress [OF live] server_progress [OF that(1) live] by blast
  qed
qed

section \<open>Properties\<close>

text \<open>C21: \<^verbatim>\<open>Serve\<close> returns only when every Subscribe call that was counted has ended, and \<^verbatim>\<open>main\<close> exits only
  when every task that was counted has; after a graceful stop there is then no call at all.\<close>

theorem exit_waits_for_counted:
  assumes "reachable sidecar_init sidecar_step s" and "sidecar_step s t"
  shows "(sc_main s = InRun \<and> sc_main t \<noteq> InRun \<longrightarrow> sc_open t = [])
    \<and> (sc_main t = Exited \<longrightarrow> (\<forall>x\<in>set (sc_tasks t). snd x \<noteq> Counted)
         \<and> (sc_server t = ApiReturned None \<longrightarrow> sc_accepted t = [] \<and> sc_open t = []))"
proof -
  have inv: "sidecar_inv s" "sidecar_inv t"
    using shutdown.inv_reachable assms reachable_step [OF assms] by blast+
  have "sc_open t = []" if "sc_main s = InRun" "sc_main t \<noteq> InRun"
    using assms(2) that inv(1) by (auto elim!: sidecar_stepE serve_stepE task_stepE simp: sidecar_inv_def)
  moreover have "\<forall>x\<in>set (sc_tasks t). snd x \<noteq> Counted" if "sc_main t = Exited"
    using inv(2) that counted_zero [of "sc_tasks t"] by (simp add: sidecar_inv_def)
  moreover have "sc_accepted t = [] \<and> sc_open t = []" if "sc_server t = ApiReturned None"
    using inv(2) that by (simp add: sidecar_inv_def)
  ultimately show ?thesis by blast
qed

text \<open>C20: a shutdown is never stuck: from every state that a running sidecar can reach once its context is
  cancelled, provided that each call ends, there is a run to the exit of \<^verbatim>\<open>main\<close> with every call and
  every task ended.\<close>

theorem shutdown_completes:
  assumes "reachable sidecar_init sidecar_step s" and "sc_cancelled s" and "sc_main s \<noteq> Exited"
  shows "\<exists>t. sidecar_step\<^sup>*\<^sup>* s t \<and> sc_main t = Exited \<and> sc_accepted t = [] \<and> sc_open t = []
    \<and> (\<forall>x\<in>set (sc_tasks t). snd x = Ended)"
proof -
  have "shutting_down s" using assms(2,3) by (simp add: shutting_down_def)
  from shutdown.final_reached [OF shutdown.inv_reachable [OF assms(1)] this] show ?thesis
    unfolding shut_down_def by blast
qed

section \<open>A task that is not counted yet\<close>

definition sidecar_start :: "(task_kind \<times> task_phase) list \<Rightarrow> sidecar" where
  "sidecar_start ts =
     \<lparr>sc_cancelled = False, sc_server = Accepting, sc_accepted = [], sc_open = [], sc_subs = 0,
      sc_tasks = ts, sc_wg = 0, sc_main = InRun\<rparr>"

definition sample_start :: sidecar where
  "sample_start = sidecar_start [(DiagnosticsServer, Launched)]"

lemma sample_reached: "reachable sidecar_init sidecar_step sample_start"
  by (rule reachable_init) (simp add: sidecar_init_def sidecar_start_def sample_start_def)

text \<open>
  The goroutine calls \<^verbatim>\<open>wg.Add\<close> itself, so a \<^verbatim>\<open>main\<close> whose server fails at once does not wait for it.
\<close>

theorem exit_before_task_is_counted:
  "\<exists>s. reachable sidecar_init sidecar_step s \<and> sc_main s = Exited \<and> (DiagnosticsServer, Launched) \<in> set (sc_tasks s)"
proof -
  let ?s1 = "sample_start\<lparr>sc_server := ServeReturned (Some ErrEOF)\<rparr>"
  let ?s2 = "sample_start\<lparr>sc_server := ApiReturned (Some ErrEOF), sc_main := WaitingForTasks\<rparr>"
  let ?s3 = "sample_start\<lparr>sc_server := ApiReturned (Some ErrEOF), sc_main := Exited\<rparr>"
  have "sidecar_step sample_start ?s1"
    by (rule sidecar_step.serve [OF _ serve_step.accept_fails]) (simp_all add: sample_start_def sidecar_start_def)
  moreover have "sidecar_step ?s1 ?s2"
    using sidecar_step.serve [OF _ serve_step.unsubscribed [of ?s1 "Some ErrEOF"]] by (simp add: sample_start_def sidecar_start_def)
  moreover have "sidecar_step ?s2 ?s3"
    using sidecar_step.exit [of ?s2] by (simp add: sample_start_def sidecar_start_def)
  ultimately have "reachable sidecar_init sidecar_step ?s3" by (meson sample_reached reachable_step)
  then show ?thesis by (rule exI [of _ ?s3, OF conjI]) (simp add: sample_start_def sidecar_start_def)
qed

section \<open>Witnesses\<close>

lemma sample_steps:
  defines "cancelled \<equiv> sample_start\<lparr>sc_cancelled := True\<rparr>"
  defines "waiting \<equiv> cancelled\<lparr>sc_server := ServeReturned None\<rparr>"
  shows "reachable sidecar_init sidecar_step cancelled" and "reachable sidecar_init sidecar_step waiting"
proof -
  have "sidecar_step sample_start cancelled"
    unfolding cancelled_def by (rule sidecar_step.interrupt) (simp add: sample_start_def sidecar_start_def)
  then show c: "reachable sidecar_init sidecar_step cancelled" by (rule reachable_step [OF sample_reached])
  have "sidecar_step cancelled (cancelled\<lparr>sc_server := Stopping\<rparr>)"
    by (rule sidecar_step.serve [OF _ serve_step.graceful_stop]) (simp_all add: cancelled_def sample_start_def sidecar_start_def)
  moreover have "sidecar_step (cancelled\<lparr>sc_server := Stopping\<rparr>) waiting"
    using sidecar_step.serve [OF _ serve_step.drained [of "cancelled\<lparr>sc_server := Stopping\<rparr>"]]
    by (simp add: waiting_def cancelled_def sample_start_def sidecar_start_def)
  ultimately show "reachable sidecar_init sidecar_step waiting" by (meson c reachable_step)
qed

theorem exit_waits_for_counted_witness:
  "\<exists>s t. reachable sidecar_init sidecar_step s \<and> sidecar_step s t \<and> sc_main s = InRun \<and> sc_main t = WaitingForTasks
     \<and> sc_open t = []"
proof -
  let ?s = "sample_start\<lparr>sc_cancelled := True, sc_server := ServeReturned None\<rparr>"
  let ?t = "?s\<lparr>sc_server := ApiReturned None, sc_main := WaitingForTasks\<rparr>"
  have step: "sidecar_step ?s ?t"
    by (rule sidecar_step.serve [OF _ serve_step.unsubscribed]) (simp_all add: sample_start_def sidecar_start_def)
  have pcs: "sc_main ?s = InRun" "sc_main ?t = WaitingForTasks" by (simp_all add: sample_start_def sidecar_start_def)
  from exit_waits_for_counted [OF sample_steps(2) step] pcs have "sc_open ?t = []" by simp
  with sample_steps(2) step pcs show ?thesis by blast
qed

theorem shutdown_completes_witness:
  "\<exists>t. sidecar_step\<^sup>*\<^sup>* (sample_start\<lparr>sc_cancelled := True\<rparr>) t \<and> sc_main t = Exited
     \<and> (\<forall>x\<in>set (sc_tasks t). snd x = Ended)"
proof -
  have "sc_cancelled (sample_start\<lparr>sc_cancelled := True\<rparr>)" "sc_main (sample_start\<lparr>sc_cancelled := True\<rparr>) \<noteq> Exited"
    by (simp_all add: sample_start_def sidecar_start_def)
  from shutdown_completes [OF sample_steps(1) this] show ?thesis by blast
qed

end
