(* ===== verification/Go_Heap.thy ===== *)
theory Go_Heap
  imports Main
begin

text \<open>
  Slices share their arrays, so a claim about copies needs a store: arrays are cells at addresses below a
  limit, and a slice is an address or nil.  The locale \<open>deep_copy\<close> is what a \<^verbatim>\<open>DeepCopyInto\<close> promises;
  the lemmas build a deep copy of a slice and of a struct from those of their parts.
\<close>

section \<open>The store\<close>

record 'c store =
  st_limit :: nat
  st_cell :: "nat \<Rightarrow> 'c"

definition alloc :: "'c \<Rightarrow> 'c store \<Rightarrow> nat \<times> 'c store" where
  "alloc c h = (st_limit h, h\<lparr>st_limit := Suc (st_limit h), st_cell := (st_cell h)(st_limit h := c)\<rparr>)"

definition write_cell :: "nat \<Rightarrow> 'c \<Rightarrow> 'c store \<Rightarrow> 'c store" where
  "write_cell p c h = h\<lparr>st_cell := (st_cell h)(p := c)\<rparr>"

text \<open>Nothing that was allocated has changed.\<close>

definition extends :: "'c store \<Rightarrow> 'c store \<Rightarrow> bool" where
  "extends h h' \<longleftrightarrow> st_limit h \<le> st_limit h' \<and> (\<forall>p<st_limit h. st_cell h' p = st_cell h p)"

lemma alloc_simps [simp]:
  "fst (alloc c h) = st_limit h" "st_limit (snd (alloc c h)) = Suc (st_limit h)"
  "st_cell (snd (alloc c h)) = (st_cell h)(st_limit h := c)"
  by (simp_all add: alloc_def)

lemma write_cell_simps [simp]:
  "st_limit (write_cell p c h) = st_limit h" "st_cell (write_cell p c h) = (st_cell h)(p := c)"
  by (simp_all add: write_cell_def)

lemma extends_refl [simp]: "extends h h"
  by (simp add: extends_def)

lemma extends_trans: "extends h1 h2 \<Longrightarrow> extends h2 h3 \<Longrightarrow> extends h1 h3"
  by (auto simp: extends_def)

lemma extends_alloc: "extends h (snd (alloc c h))"
  by (simp add: extends_def)

lemma extends_write: "extends h h' \<Longrightarrow> st_limit h \<le> p \<Longrightarrow> extends h (write_cell p c h')"
  by (auto simp: extends_def)

section \<open>Deep copies\<close>

text \<open>
  \<open>val\<close> is what a value with slices stands for, \<open>foot\<close> are the cells it is read from.  A deep copy stands
  for the same and lives in new cells only.
\<close>

locale deep_copy =
  fixes copy :: "'a \<Rightarrow> 'c store \<Rightarrow> 'a \<times> 'c store"
    and val :: "'c store \<Rightarrow> 'a \<Rightarrow> 'v"
    and foot :: "'c store \<Rightarrow> 'a \<Rightarrow> nat set"
  assumes val_local: "\<forall>p\<in>foot h x. st_cell h' p = st_cell h p \<Longrightarrow> val h' x = val h x"
    and foot_local: "\<forall>p\<in>foot h x. st_cell h' p = st_cell h p \<Longrightarrow> foot h' x = foot h x"
    and copies: "foot h x \<subseteq> {..<st_limit h} \<Longrightarrow> copy x h = (y, h')
      \<Longrightarrow> extends h h' \<and> val h' y = val h x \<and> foot h' y \<subseteq> {st_limit h..<st_limit h'}"
begin

lemma kept:
  assumes "extends h h'" and "foot h x \<subseteq> {..<st_limit h}"
  shows "val h' x = val h x" "foot h' x = foot h x"
  using assms by (auto simp: extends_def intro!: val_local foot_local)

lemma copies_later:
  assumes "extends h0 h" and "foot h0 x \<subseteq> {..<st_limit h0}" and "copy x h = (y, h')"
  shows "extends h h'" "val h' y = val h0 x" "foot h' y \<subseteq> {st_limit h..<st_limit h'}"
proof -
  have "foot h x \<subseteq> {..<st_limit h}" using kept [OF assms(1,2)] assms(1,2) by (auto simp: extends_def)
  from copies [OF this assms(3)] kept [OF assms(1,2)]
  show "extends h h'" "val h' y = val h0 x" "foot h' y \<subseteq> {st_limit h..<st_limit h'}" by auto
qed

lemma unchanged_by:
  assumes "foot h x \<subseteq> A" and "\<forall>p\<in>A. st_cell h' p = st_cell h p"
  shows "val h' x = val h x" "foot h' x = foot h x"
  using assms by (auto intro!: val_local foot_local)

text \<open>Whatever is written to the old cells is not seen through the copy, nor the converse.\<close>

lemma copy_independent:
  assumes "foot h x \<subseteq> {..<st_limit h}" and "copy x h = (y, h')"
  shows "val h' y = val h x"
    and "\<forall>p\<ge>st_limit h. st_cell h2 p = st_cell h' p \<Longrightarrow> val h2 y = val h x"
    and "\<forall>p<st_limit h. st_cell h2 p = st_cell h p \<Longrightarrow> val h2 x = val h x"
proof -
  note c = copies [OF assms]
  then show eq: "val h' y = val h x" by simp
  show "val h2 y = val h x" if "\<forall>p\<ge>st_limit h. st_cell h2 p = st_cell h' p"
    using unchanged_by(1) [of h' y "{st_limit h..}" h2] c that eq by fastforce
  show "val h2 x = val h x" if "\<forall>p<st_limit h. st_cell h2 p = st_cell h p"
    using unchanged_by(1) [of h x "{..<st_limit h}" h2] assms(1) that by simp
qed

end

section \<open>Values without slices\<close>

definition copy_plain :: "'a \<Rightarrow> 'c store \<Rightarrow> 'a \<times> 'c store" where
  "copy_plain x h = (x, h)"

lemma deep_copy_plain: "deep_copy copy_plain (\<lambda>h x. x) (\<lambda>h x. {})"
  by unfold_locales (simp_all add: copy_plain_def)

section \<open>Slices\<close>

text \<open>\<open>wrap\<close> and \<open>unwrap\<close> put an array into a cell and read it.\<close>

definition slice_val :: "('c \<Rightarrow> 'a list) \<Rightarrow> ('c store \<Rightarrow> 'a \<Rightarrow> 'v) \<Rightarrow> 'c store \<Rightarrow> nat option \<Rightarrow> 'v list option" where
  "slice_val unwrap val h s = map_option (\<lambda>p. map (val h) (unwrap (st_cell h p))) s"

definition slice_foot :: "('c \<Rightarrow> 'a list) \<Rightarrow> ('c store \<Rightarrow> 'a \<Rightarrow> nat set) \<Rightarrow> 'c store \<Rightarrow> nat option \<Rightarrow> nat set" where
  "slice_foot unwrap foot h s =
     (case s of None \<Rightarrow> {} | Some p \<Rightarrow> insert p (\<Union>x\<in>set (unwrap (st_cell h p)). foot h x))"

text \<open>\<^verbatim>\<open>for i := range *in { (*in)[i].DeepCopyInto(&(*out)[i]) }\<close>, with \<open>*out\<close> at \<open>p\<close>.\<close>

fun copy_loop :: "('c \<Rightarrow> 'a list) \<Rightarrow> ('a list \<Rightarrow> 'c) \<Rightarrow> ('a \<Rightarrow> 'c store \<Rightarrow> 'a \<times> 'c store) \<Rightarrow> nat \<Rightarrow> 'a list \<Rightarrow> nat
    \<Rightarrow> 'c store \<Rightarrow> 'c store" where
  "copy_loop unwrap wrap copy p [] i h = h"
| "copy_loop unwrap wrap copy p (x # xs) i h =
     (case copy x h of (y, h1) \<Rightarrow>
        copy_loop unwrap wrap copy p xs (Suc i) (write_cell p (wrap ((unwrap (st_cell h1 p))[i := y])) h1))"

text \<open>\<^verbatim>\<open>if in.Items != nil { *out = make(...); for ... }\<close>: \<open>zero\<close> is the element \<^verbatim>\<open>make\<close> fills in.\<close>

definition copy_slice :: "('c \<Rightarrow> 'a list) \<Rightarrow> ('a list \<Rightarrow> 'c) \<Rightarrow> 'a \<Rightarrow> ('a \<Rightarrow> 'c store \<Rightarrow> 'a \<times> 'c store) \<Rightarrow> nat option
    \<Rightarrow> 'c store \<Rightarrow> nat option \<times> 'c store" where
  "copy_slice unwrap wrap zero copy s h =
     (case s of
        None \<Rightarrow> (None, h)
      | Some q \<Rightarrow>
          (let xs = unwrap (st_cell h q);
               (p, h1) = alloc (wrap (replicate (length xs) zero)) h
           in (Some p, copy_loop unwrap wrap copy p xs 0 h1)))"

text \<open>\<^verbatim>\<open>copy(*out, *in)\<close> for elements without slices.\<close>

definition copy_flat_slice :: "('c \<Rightarrow> 'a list) \<Rightarrow> ('a list \<Rightarrow> 'c) \<Rightarrow> 'a \<Rightarrow> nat option \<Rightarrow> 'c store
    \<Rightarrow> nat option \<times> 'c store" where
  "copy_flat_slice unwrap wrap zero s h =
     (case s of
        None \<Rightarrow> (None, h)
      | Some q \<Rightarrow>
          (let xs = unwrap (st_cell h q);
               (p, h1) = alloc (wrap (replicate (length xs) zero)) h
           in (Some p, write_cell p (wrap xs) h1)))"

lemma slice_val_simps [simp]:
  "slice_val unwrap val h None = None"
  "slice_val unwrap val h (Some p) = Some (map (val h) (unwrap (st_cell h p)))"
  by (simp_all add: slice_val_def)

lemma slice_foot_simps [simp]:
  "slice_foot unwrap foot h None = {}"
  "slice_foot unwrap foot h (Some p) = insert p (\<Union>x\<in>set (unwrap (st_cell h p)). foot h x)"
  by (simp_all add: slice_foot_def)

text \<open>
  The state of the loop: the first elements of the new array are copies, with cells of their own between
  the array's and the limit.
\<close>

definition copied_until :: "('c \<Rightarrow> 'a list) \<Rightarrow> ('c store \<Rightarrow> 'a \<Rightarrow> 'v) \<Rightarrow> ('c store \<Rightarrow> 'a \<Rightarrow> nat set) \<Rightarrow> 'c store \<Rightarrow> nat
    \<Rightarrow> 'v list \<Rightarrow> 'a list \<Rightarrow> 'c store \<Rightarrow> bool" where
  "copied_until unwrap val foot h0 p vs rest h \<longleftrightarrow>
     extends h0 h \<and> st_limit h0 = p \<and> p < st_limit h
     \<and> (\<exists>ys. unwrap (st_cell h p) = ys @ rest \<and> map (val h) ys = vs \<and> (\<forall>y\<in>set ys. foot h y \<subseteq> {Suc p..<st_limit h}))"

context deep_copy
begin

lemma copy_loop_step:
  assumes "copied_until unwrap val foot h0 p vs (z # zs) h" and "foot h0 x \<subseteq> {..<st_limit h0}"
    and "copy x h = (y, h1)" and wrap: "\<And>xs. unwrap (wrap xs) = xs"
  shows "copied_until unwrap val foot h0 p (vs @ [val h0 x]) zs
    (write_cell p (wrap ((unwrap (st_cell h1 p))[length vs := y])) h1)"
proof -
  let ?h2 = "write_cell p (wrap ((unwrap (st_cell h1 p))[length vs := y])) h1"
  from assms(1) obtain ys where h: "extends h0 h" "st_limit h0 = p" "p < st_limit h"
    and ys: "unwrap (st_cell h p) = ys @ z # zs" "map (val h) ys = vs" "\<forall>y\<in>set ys. foot h y \<subseteq> {Suc p..<st_limit h}"
    by (auto simp: copied_until_def)
  note c = copies_later [OF h(1) assms(2,3)]
  have cell: "st_cell h1 p = st_cell h p" using c(1) h(3) by (simp add: extends_def)
  have len: "length vs = length ys" using ys(2) by auto
  have old: "val ?h2 y' = val h y'" "foot ?h2 y' = foot h y'" if "y' \<in> set ys" for y'
  proof -
    have "\<forall>q\<in>foot h y'. st_cell ?h2 q = st_cell h q"
      using ys(3) that c(1) by (fastforce simp: extends_def)
    then show "val ?h2 y' = val h y'" "foot ?h2 y' = foot h y'" by (rule val_local, rule foot_local)
  qed
  have "\<forall>q\<in>foot h1 y. st_cell ?h2 q = st_cell h1 q" using c(3) h(3) by fastforce
  then have new: "val ?h2 y = val h0 x" "foot ?h2 y = foot h1 y"
    using c(2) val_local [of h1 y ?h2] foot_local [of h1 y ?h2] by simp_all
  have "extends h0 ?h2" using extends_write [OF extends_trans [OF h(1) c(1)]] h(2) by simp
  moreover have lim: "p < st_limit ?h2" "st_limit h \<le> st_limit ?h2" using h(3) c(1) by (auto simp: extends_def)
  moreover have "unwrap (st_cell ?h2 p) = (ys @ [y]) @ zs" using cell ys(1) len by (simp add: wrap)
  moreover have "map (val ?h2) (ys @ [y]) = vs @ [val h0 x]" using old(1) new(1) ys(2) by (simp cong: map_cong)
  moreover have "\<forall>y'\<in>set (ys @ [y]). foot ?h2 y' \<subseteq> {Suc p..<st_limit ?h2}"
    using old(2) new(2) ys(3) c(3) h(3) lim(2) by fastforce
  ultimately show ?thesis using h(2) unfolding copied_until_def by blast
qed

lemma copy_loop_copies:
  assumes "copied_until unwrap val foot h0 p vs zs h" and "length zs = length xs"
    and "\<forall>x\<in>set xs. foot h0 x \<subseteq> {..<st_limit h0}" and wrap: "\<And>xs. unwrap (wrap xs) = xs"
  shows "copied_until unwrap val foot h0 p (vs @ map (val h0) xs) [] (copy_loop unwrap wrap copy p xs (length vs) h)"
  using assms(1-3)
proof (induction xs arbitrary: vs zs h)
  case (Cons x xs)
  from Cons.prems(2) obtain z zs' where zs: "zs = z # zs'" by (cases zs) auto
  obtain y h1 where c: "copy x h = (y, h1)" by (rule prod.exhaust)
  from copy_loop_step [OF Cons.prems(1) [unfolded zs] _ c wrap] Cons.prems(3)
  have step: "copied_until unwrap val foot h0 p (vs @ [val h0 x]) zs'
      (write_cell p (wrap ((unwrap (st_cell h1 p))[length vs := y])) h1)" by simp
  from Cons.IH [OF step] Cons.prems(2,3) show ?case by (simp add: zs c)
qed simp

end

lemma deep_copy_slice:
  assumes "deep_copy copy val foot" and wrap: "\<And>xs. unwrap (wrap xs) = xs"
  shows "deep_copy (copy_slice unwrap wrap zero copy) (slice_val unwrap val) (slice_foot unwrap foot)"
proof
  note deep = assms(1)
  fix h h' s
  show "slice_val unwrap val h' s = slice_val unwrap val h s"
    if "\<forall>p\<in>slice_foot unwrap foot h s. st_cell h' p = st_cell h p"
    using that by (cases s) (auto intro!: deep_copy.val_local [OF deep])
  show "slice_foot unwrap foot h' s = slice_foot unwrap foot h s"
    if "\<forall>p\<in>slice_foot unwrap foot h s. st_cell h' p = st_cell h p"
  proof (cases s)
    case (Some p)
    with that have "foot h' x = foot h x" if "x \<in> set (unwrap (st_cell h p))" for x
      using that by (intro deep_copy.foot_local [OF deep]) auto
    with that Some show ?thesis by simp
  qed simp
  fix t
  assume old: "slice_foot unwrap foot h s \<subseteq> {..<st_limit h}" and c: "copy_slice unwrap wrap zero copy s h = (t, h')"
  show "extends h h' \<and> slice_val unwrap val h' t = slice_val unwrap val h s
      \<and> slice_foot unwrap foot h' t \<subseteq> {st_limit h..<st_limit h'}"
  proof (cases s)
    case None
    with c show ?thesis by (simp add: copy_slice_def)
  next
    case (Some q)
    let ?xs = "unwrap (st_cell h q)" and ?p = "st_limit h"
    let ?h1 = "snd (alloc (wrap (replicate (length ?xs) zero)) h)"
    have start: "copied_until unwrap val foot h ?p [] (replicate (length ?xs) zero) ?h1"
      by (simp add: copied_until_def extends_alloc wrap)
    have h': "h' = copy_loop unwrap wrap copy ?p ?xs 0 ?h1" "t = Some ?p"
      using c Some by (auto simp: copy_slice_def Let_def alloc_def)
    have "copied_until unwrap val foot h ?p (map (val h) ?xs) [] h'"
      using deep_copy.copy_loop_copies [OF deep start, of ?xs wrap] old Some wrap h'(1) by auto
    then show ?thesis using Some h'(2) unfolding copied_until_def by fastforce
  qed
qed

lemma deep_copy_flat_slice:
  assumes wrap: "\<And>xs. unwrap (wrap xs) = xs"
  shows "deep_copy (copy_flat_slice unwrap wrap zero) (slice_val unwrap (\<lambda>h x. x)) (slice_foot unwrap (\<lambda>h x. {}))"
proof
  fix h h' s t
  show "slice_val unwrap (\<lambda>h x. x) h' s = slice_val unwrap (\<lambda>h x. x) h s"
    "slice_foot unwrap (\<lambda>h x. {}) h' s = slice_foot unwrap (\<lambda>h x. {}) h s"
    if "\<forall>p\<in>slice_foot unwrap (\<lambda>h x. {}) h s. st_cell h' p = st_cell h p"
    using that by (cases s; simp)+
  show "extends h h' \<and> slice_val unwrap (\<lambda>h x. x) h' t = slice_val unwrap (\<lambda>h x. x) h s
      \<and> slice_foot unwrap (\<lambda>h x. {}) h' t \<subseteq> {st_limit h..<st_limit h'}"
    if "slice_foot unwrap (\<lambda>h x. {}) h s \<subseteq> {..<st_limit h}" "copy_flat_slice unwrap wrap zero s h = (t, h')"
    using that by (cases s) (auto simp: copy_flat_slice_def alloc_def Let_def extends_def write_cell_def wrap)
qed

section \<open>Structs\<close>

text \<open>Two parts one after the other; and a struct whose parts are read by \<open>parts\<close> and replaced by \<open>put\<close>.\<close>

definition copy_pair :: "('a \<Rightarrow> 'c store \<Rightarrow> 'a \<times> 'c store) \<Rightarrow> ('b \<Rightarrow> 'c store \<Rightarrow> 'b \<times> 'c store) \<Rightarrow> 'a \<times> 'b
    \<Rightarrow> 'c store \<Rightarrow> ('a \<times> 'b) \<times> 'c store" where
  "copy_pair copy1 copy2 xy h =
     (case copy1 (fst xy) h of (x1, h1) \<Rightarrow> case copy2 (snd xy) h1 of (y1, h2) \<Rightarrow> ((x1, y1), h2))"

definition copy_parts :: "('r \<Rightarrow> 'a) \<Rightarrow> ('r \<Rightarrow> 'a \<Rightarrow> 'r) \<Rightarrow> ('a \<Rightarrow> 'c store \<Rightarrow> 'a \<times> 'c store) \<Rightarrow> 'r \<Rightarrow> 'c store
    \<Rightarrow> 'r \<times> 'c store" where
  "copy_parts parts put copy r h = (case copy (parts r) h of (x, h1) \<Rightarrow> (put r x, h1))"

definition pair_val where
  "pair_val val1 val2 h xy = (val1 h (fst xy), val2 h (snd xy))"

definition pair_foot where
  "pair_foot foot1 foot2 h xy = foot1 h (fst xy) \<union> foot2 h (snd xy)"

lemma deep_copy_pair:
  assumes "deep_copy copy1 val1 foot1" and "deep_copy copy2 val2 foot2"
  shows "deep_copy (copy_pair copy1 copy2) (pair_val val1 val2) (pair_foot foot1 foot2)"
proof
  fix h h' x y
  show "pair_val val1 val2 h' x = pair_val val1 val2 h x" "pair_foot foot1 foot2 h' x = pair_foot foot1 foot2 h x"
    if "\<forall>p\<in>pair_foot foot1 foot2 h x. st_cell h' p = st_cell h p"
    using that deep_copy.val_local [OF assms(1), of h "fst x" h'] deep_copy.val_local [OF assms(2), of h "snd x" h']
      deep_copy.foot_local [OF assms(1), of h "fst x" h'] deep_copy.foot_local [OF assms(2), of h "snd x" h']
    by (simp_all add: pair_val_def pair_foot_def)
  assume old: "pair_foot foot1 foot2 h x \<subseteq> {..<st_limit h}" and c: "copy_pair copy1 copy2 x h = (y, h')"
  from c obtain h1 where c1: "copy1 (fst x) h = (fst y, h1)" and c2: "copy2 (snd x) h1 = (snd y, h')"
    by (auto simp: copy_pair_def split: prod.splits)
  have old1: "foot1 h (fst x) \<subseteq> {..<st_limit h}" and old2: "foot2 h (snd x) \<subseteq> {..<st_limit h}"
    using old by (simp_all add: pair_foot_def)
  from deep_copy.copies [OF assms(1) old1 c1]
  have first: "extends h h1" "val1 h1 (fst y) = val1 h (fst x)" "foot1 h1 (fst y) \<subseteq> {st_limit h..<st_limit h1}" by auto
  note second = deep_copy.copies_later [OF assms(2) first(1) old2 c2]
  have "foot1 h1 (fst y) \<subseteq> {..<st_limit h1}" using first(3) by auto
  note kept = deep_copy.kept [OF assms(1) second(1) this]
  have "extends h h'" by (rule extends_trans [OF first(1) second(1)])
  moreover have "pair_val val1 val2 h' y = pair_val val1 val2 h x"
    using first(2) second(2) kept(1) by (simp add: pair_val_def)
  moreover have "foot1 h' (fst y) \<subseteq> {st_limit h..<st_limit h'}"
    using first(3) second(1) unfolding kept(2) extends_def by fastforce
  moreover have "foot2 h' (snd y) \<subseteq> {st_limit h..<st_limit h'}"
    using second(3) first(1) unfolding extends_def by fastforce
  ultimately show "extends h h' \<and> pair_val val1 val2 h' y = pair_val val1 val2 h x
      \<and> pair_foot foot1 foot2 h' y \<subseteq> {st_limit h..<st_limit h'}"
    by (simp add: pair_foot_def)
qed

text \<open>The rest of the struct is copied by the assignment \<^verbatim>\<open>*out = *in\<close>.\<close>

lemma deep_copy_parts:
  assumes "deep_copy copy val foot" and "\<And>r x. parts (put r x) = x" and "\<And>r x. rest (put r x) = rest r"
  shows "deep_copy (copy_parts parts put copy) (\<lambda>h r. (rest r, val h (parts r))) (\<lambda>h r. foot h (parts r))"
proof
  fix h h' x y
  show "(rest x, val h' (parts x)) = (rest x, val h (parts x))" "foot h' (parts x) = foot h (parts x)"
    if "\<forall>p\<in>foot h (parts x). st_cell h' p = st_cell h p"
    using deep_copy.val_local [OF assms(1) that] deep_copy.foot_local [OF assms(1) that] by simp_all
  assume old: "foot h (parts x) \<subseteq> {..<st_limit h}" and c: "copy_parts parts put copy x h = (y, h')"
  from c obtain z where z: "copy (parts x) h = (z, h')" "y = put x z" by (auto simp: copy_parts_def split: prod.splits)
  from deep_copy.copies [OF assms(1) old z(1)]
  show "extends h h' \<and> (rest y, val h' (parts y)) = (rest x, val h (parts x))
      \<and> foot h' (parts y) \<subseteq> {st_limit h..<st_limit h'}"
    by (simp add: z(2) assms(2,3))
qed

section \<open>Pointers to structs\<close>

text \<open>\<^verbatim>\<open>DeepCopy\<close>: nil for nil, else a new struct that \<^verbatim>\<open>DeepCopyInto\<close> fills; the pointer is an option.\<close>

definition copy_pointer :: "('a \<Rightarrow> 'c store \<Rightarrow> 'a \<times> 'c store) \<Rightarrow> 'a option \<Rightarrow> 'c store \<Rightarrow> 'a option \<times> 'c store" where
  "copy_pointer copy p h = (case p of None \<Rightarrow> (None, h) | Some x \<Rightarrow> (case copy x h of (y, h1) \<Rightarrow> (Some y, h1)))"

definition pointer_foot :: "('c store \<Rightarrow> 'a \<Rightarrow> nat set) \<Rightarrow> 'c store \<Rightarrow> 'a option \<Rightarrow> nat set" where
  "pointer_foot foot h p = (case p of None \<Rightarrow> {} | Some x \<Rightarrow> foot h x)"

lemma pointer_foot_simps [simp]: "pointer_foot foot h None = {}" "pointer_foot foot h (Some x) = foot h x"
  by (simp_all add: pointer_foot_def)

lemma deep_copy_pointer:
  assumes "deep_copy copy val foot"
  shows "deep_copy (copy_pointer copy) (\<lambda>h. map_option (val h)) (pointer_foot foot)"
proof
  fix h h' p q
  show "map_option (val h') p = map_option (val h) p" "pointer_foot foot h' p = pointer_foot foot h p"
    if same: "\<forall>a\<in>pointer_foot foot h p. st_cell h' a = st_cell h a"
  proof -
    have "val h' x = val h x \<and> foot h' x = foot h x" if "p = Some x" for x
      using deep_copy.val_local [OF assms, of h x h'] deep_copy.foot_local [OF assms, of h x h'] same that by simp
    then show "map_option (val h') p = map_option (val h) p" "pointer_foot foot h' p = pointer_foot foot h p"
      by (cases p; simp)+
  qed
  assume old: "pointer_foot foot h p \<subseteq> {..<st_limit h}" and c: "copy_pointer copy p h = (q, h')"
  show "extends h h' \<and> map_option (val h') q = map_option (val h) p
      \<and> pointer_foot foot h' q \<subseteq> {st_limit h..<st_limit h'}"
  proof (cases p)
    case None
    with c show ?thesis by (simp add: copy_pointer_def)
  next
    case (Some x)
    with c obtain y where y: "copy x h = (y, h')" "q = Some y" by (auto simp: copy_pointer_def split: prod.splits)
    have "foot h x \<subseteq> {..<st_limit h}" using old Some by simp
    from deep_copy.copies [OF assms this y(1)] show ?thesis by (simp add: Some y(2))
  qed
qed

lemmas deep_copy_intros = deep_copy_plain deep_copy_flat_slice deep_copy_slice deep_copy_pair deep_copy_parts
  deep_copy_pointer

end
