(* ===== verification/Deepcopy.thy ===== *)
theory Deepcopy
  imports Go_Heap Operator_Wire
begin

text \<open>
  The deep copies of the custom resources (\<^verbatim>\<open>pkg/operator/apis/rusi/v1alpha1/zz_generated.deepcopy.go\<close>) over
  a store of arrays: for each type its \<^verbatim>\<open>DeepCopyInto\<close>, \<^verbatim>\<open>DeepCopy\<close> and \<^verbatim>\<open>DeepCopyObject\<close>.  The metadata
  of objects and lists (\<open>'m\<close>, \<open>'l\<close>) and raw JSON (\<open>'j\<close>) are types of the Kubernetes libraries; their own
  \<^verbatim>\<open>DeepCopyInto\<close> are parameters, and may use cells \<open>COther\<close>.
\<close>

section \<open>The types\<close>

record secret_key_ref =
  sk_name :: string
  sk_key :: string

record 'j metadata_item =
  mi_name :: string
  mi_value :: 'j
  mi_secret_key_ref :: secret_key_ref

record component_spec_ref =
  rc_type :: string
  rc_version :: string
  rc_ignore_errors :: bool
  rc_metadata :: "nat option"
  rc_init_timeout :: string

record type_meta =
  tm_kind :: string
  tm_api_version :: string

record 'm component_ref =
  co_type_meta :: type_meta
  co_object_meta :: 'm
  co_spec :: component_spec_ref
  co_secret_store :: string
  co_scopes :: "nat option"

record configuration_spec_ref =
  rf_subscriber_handlers :: "nat option"
  rf_publisher_handlers :: "nat option"
  rf_telemetry :: telemetry_spec
  rf_features :: "nat option"
  rf_pubsub_name :: string
  rf_min_runtime_version :: string

record 'm configuration_ref =
  cf_type_meta :: type_meta
  cf_object_meta :: 'm
  cf_spec :: configuration_spec_ref

record 'l list_ref =
  li_type_meta :: type_meta
  li_list_meta :: 'l
  li_items :: "nat option"

datatype ('m, 'j, 'x) cell =
    CStrings "string list"
  | CItems "'j metadata_item list"
  | CHandlers "crd_handler_spec list"
  | CFeatures "feature_spec list"
  | CComponents "'m component_ref list"
  | CConfigurations "'m configuration_ref list"
  | COther 'x

fun the_strings where "the_strings (CStrings xs) = xs" | "the_strings c = []"
fun the_items where "the_items (CItems xs) = xs" | "the_items c = []"
fun the_handlers where "the_handlers (CHandlers xs) = xs" | "the_handlers c = []"
fun the_features where "the_features (CFeatures xs) = xs" | "the_features c = []"
fun the_components where "the_components (CComponents xs) = xs" | "the_components c = []"
fun the_configurations where "the_configurations (CConfigurations xs) = xs" | "the_configurations c = []"

section \<open>Types without slices\<close>

definition secret_key_ref_deep_copy_into :: "secret_key_ref \<Rightarrow> 'c store \<Rightarrow> secret_key_ref \<times> 'c store" where
  "secret_key_ref_deep_copy_into x h = (x, h)"

definition secret_key_ref_deep_copy :: "secret_key_ref option \<Rightarrow> 'c store \<Rightarrow> secret_key_ref option \<times> 'c store" where
  "secret_key_ref_deep_copy = copy_pointer secret_key_ref_deep_copy_into"

definition auth_deep_copy_into :: "string \<Rightarrow> 'c store \<Rightarrow> string \<times> 'c store" where
  "auth_deep_copy_into x h = (x, h)"

definition auth_deep_copy :: "string option \<Rightarrow> 'c store \<Rightarrow> string option \<times> 'c store" where
  "auth_deep_copy = copy_pointer auth_deep_copy_into"

definition handler_deep_copy_into :: "crd_handler_spec \<Rightarrow> 'c store \<Rightarrow> crd_handler_spec \<times> 'c store" where
  "handler_deep_copy_into x h = (x, h)"

definition handler_deep_copy :: "crd_handler_spec option \<Rightarrow> 'c store \<Rightarrow> crd_handler_spec option \<times> 'c store" where
  "handler_deep_copy = copy_pointer handler_deep_copy_into"

definition feature_deep_copy_into :: "feature_spec \<Rightarrow> 'c store \<Rightarrow> feature_spec \<times> 'c store" where
  "feature_deep_copy_into x h = (x, h)"

definition feature_deep_copy :: "feature_spec option \<Rightarrow> 'c store \<Rightarrow> feature_spec option \<times> 'c store" where
  "feature_deep_copy = copy_pointer feature_deep_copy_into"

definition pubsub_spec_deep_copy_into :: "string \<Rightarrow> 'c store \<Rightarrow> string \<times> 'c store" where
  "pubsub_spec_deep_copy_into x h = (x, h)"

definition pubsub_spec_deep_copy :: "string option \<Rightarrow> 'c store \<Rightarrow> string option \<times> 'c store" where
  "pubsub_spec_deep_copy = copy_pointer pubsub_spec_deep_copy_into"

definition tracing_deep_copy_into :: "string \<Rightarrow> 'c store \<Rightarrow> string \<times> 'c store" where
  "tracing_deep_copy_into x h = (x, h)"

definition tracing_deep_copy :: "string option \<Rightarrow> 'c store \<Rightarrow> string option \<times> 'c store" where
  "tracing_deep_copy = copy_pointer tracing_deep_copy_into"

definition telemetry_deep_copy_into :: "telemetry_spec \<Rightarrow> 'c store \<Rightarrow> telemetry_spec \<times> 'c store" where
  "telemetry_deep_copy_into x h = (x\<lparr>ts_propagator := ts_propagator x\<rparr>, h)"

definition telemetry_deep_copy :: "telemetry_spec option \<Rightarrow> 'c store \<Rightarrow> telemetry_spec option \<times> 'c store" where
  "telemetry_deep_copy = copy_pointer telemetry_deep_copy_into"

section \<open>Components\<close>

definition zero_item :: "'j \<Rightarrow> 'j metadata_item" where
  "zero_item j = \<lparr>mi_name = [], mi_value = j, mi_secret_key_ref = \<lparr>sk_name = [], sk_key = []\<rparr>\<rparr>"

definition item_deep_copy_into :: "('j \<Rightarrow> 'c store \<Rightarrow> 'j \<times> 'c store) \<Rightarrow> 'j metadata_item \<Rightarrow> 'c store
    \<Rightarrow> 'j metadata_item \<times> 'c store" where
  "item_deep_copy_into json_copy x h =
     (case json_copy (mi_value x) h of (v, h1) \<Rightarrow>
        (x\<lparr>mi_value := v, mi_secret_key_ref := mi_secret_key_ref x\<rparr>, h1))"

definition item_deep_copy :: "('j \<Rightarrow> 'c store \<Rightarrow> 'j \<times> 'c store) \<Rightarrow> 'j metadata_item option \<Rightarrow> 'c store
    \<Rightarrow> 'j metadata_item option \<times> 'c store" where
  "item_deep_copy json_copy = copy_pointer (item_deep_copy_into json_copy)"

text \<open>\<open>json_zero\<close> is the zero value of \<^verbatim>\<open>apiextensionsv1.JSON\<close>.\<close>

definition component_spec_deep_copy_into :: "'j \<Rightarrow> ('j \<Rightarrow> ('m, 'j, 'x) cell store \<Rightarrow> 'j \<times> ('m, 'j, 'x) cell store)
    \<Rightarrow> component_spec_ref \<Rightarrow> ('m, 'j, 'x) cell store \<Rightarrow> component_spec_ref \<times> ('m, 'j, 'x) cell store" where
  "component_spec_deep_copy_into json_zero json_copy x h =
     (case copy_slice the_items CItems (zero_item json_zero) (item_deep_copy_into json_copy) (rc_metadata x) h of
        (s, h1) \<Rightarrow> (x\<lparr>rc_metadata := s\<rparr>, h1))"

definition component_spec_deep_copy where
  "component_spec_deep_copy json_zero json_copy = copy_pointer (component_spec_deep_copy_into json_zero json_copy)"

definition component_deep_copy_into :: "('m \<Rightarrow> ('m, 'j, 'x) cell store \<Rightarrow> 'm \<times> ('m, 'j, 'x) cell store) \<Rightarrow> 'j
    \<Rightarrow> ('j \<Rightarrow> ('m, 'j, 'x) cell store \<Rightarrow> 'j \<times> ('m, 'j, 'x) cell store)
    \<Rightarrow> 'm component_ref \<Rightarrow> ('m, 'j, 'x) cell store \<Rightarrow> 'm component_ref \<times> ('m, 'j, 'x) cell store" where
  "component_deep_copy_into meta_copy json_zero json_copy x h =
     (case meta_copy (co_object_meta x) h of (m, h1) \<Rightarrow>
        case component_spec_deep_copy_into json_zero json_copy (co_spec x) h1 of (s, h2) \<Rightarrow>
          case copy_flat_slice the_strings CStrings [] (co_scopes x) h2 of (sc, h3) \<Rightarrow>
            (x\<lparr>co_type_meta := co_type_meta x, co_object_meta := m, co_spec := s,
               co_secret_store := co_secret_store x, co_scopes := sc\<rparr>, h3))"

definition component_deep_copy where
  "component_deep_copy meta_copy json_zero json_copy = copy_pointer (component_deep_copy_into meta_copy json_zero json_copy)"

text \<open>\<open>meta_zero\<close> is the zero value of \<^verbatim>\<open>metav1.ObjectMeta\<close>.\<close>

definition zero_type_meta :: type_meta where
  "zero_type_meta = \<lparr>tm_kind = [], tm_api_version = []\<rparr>"

definition zero_component_ref :: "'m \<Rightarrow> 'm component_ref" where
  "zero_component_ref meta_zero =
     \<lparr>co_type_meta = zero_type_meta, co_object_meta = meta_zero,
      co_spec = \<lparr>rc_type = [], rc_version = [], rc_ignore_errors = False, rc_metadata = None, rc_init_timeout = []\<rparr>,
      co_secret_store = [], co_scopes = None\<rparr>"

definition component_list_deep_copy_into where
  "component_list_deep_copy_into list_meta_copy meta_zero meta_copy json_zero json_copy x h =
     (case list_meta_copy (li_list_meta x) h of (m, h1) \<Rightarrow>
        case copy_slice the_components CComponents (zero_component_ref meta_zero)
            (component_deep_copy_into meta_copy json_zero json_copy) (li_items x) h1 of
          (s, h2) \<Rightarrow> (x\<lparr>li_type_meta := li_type_meta x, li_list_meta := m, li_items := s\<rparr>, h2))"

definition component_list_deep_copy where
  "component_list_deep_copy list_meta_copy meta_zero meta_copy json_zero json_copy =
     copy_pointer (component_list_deep_copy_into list_meta_copy meta_zero meta_copy json_zero json_copy)"

section \<open>Configurations\<close>

definition pipeline_deep_copy_into :: "nat option \<Rightarrow> ('m, 'j, 'x) cell store \<Rightarrow> nat option \<times> ('m, 'j, 'x) cell store" where
  "pipeline_deep_copy_into = copy_flat_slice the_handlers CHandlers \<lparr>ch_name = [], ch_type = []\<rparr>"

definition pipeline_deep_copy where
  "pipeline_deep_copy = copy_pointer pipeline_deep_copy_into"

definition configuration_spec_deep_copy_into :: "configuration_spec_ref \<Rightarrow> ('m, 'j, 'x) cell store
    \<Rightarrow> configuration_spec_ref \<times> ('m, 'j, 'x) cell store" where
  "configuration_spec_deep_copy_into x h =
     (case pipeline_deep_copy_into (rf_subscriber_handlers x) h of (s, h1) \<Rightarrow>
        case pipeline_deep_copy_into (rf_publisher_handlers x) h1 of (p, h2) \<Rightarrow>
          case copy_flat_slice the_features CFeatures \<lparr>fs_name = [], fs_enabled = False\<rparr> (rf_features x) h2 of (f, h3) \<Rightarrow>
            (x\<lparr>rf_subscriber_handlers := s, rf_publisher_handlers := p, rf_telemetry := rf_telemetry x,
               rf_features := f, rf_pubsub_name := rf_pubsub_name x\<rparr>, h3))"

definition configuration_spec_deep_copy where
  "configuration_spec_deep_copy = copy_pointer configuration_spec_deep_copy_into"

definition configuration_deep_copy_into :: "('m \<Rightarrow> ('m, 'j, 'x) cell store \<Rightarrow> 'm \<times> ('m, 'j, 'x) cell store)
    \<Rightarrow> 'm configuration_ref \<Rightarrow> ('m, 'j, 'x) cell store \<Rightarrow> 'm configuration_ref \<times> ('m, 'j, 'x) cell store" where
  "configuration_deep_copy_into meta_copy x h =
     (case meta_copy (cf_object_meta x) h of (m, h1) \<Rightarrow>
        case configuration_spec_deep_copy_into (cf_spec x) h1 of (s, h2) \<Rightarrow>
          (x\<lparr>cf_type_meta := cf_type_meta x, cf_object_meta := m, cf_spec := s\<rparr>, h2))"

definition configuration_deep_copy where
  "configuration_deep_copy meta_copy = copy_pointer (configuration_deep_copy_into meta_copy)"

definition zero_configuration_ref :: "'m \<Rightarrow> 'm configuration_ref" where
  "zero_configuration_ref meta_zero =
     \<lparr>cf_type_meta = zero_type_meta, cf_object_meta = meta_zero,
      cf_spec = \<lparr>rf_subscriber_handlers = None, rf_publisher_handlers = None,
                 rf_telemetry = \<lparr>ts_collector_endpoint = [], ts_propagator = []\<rparr>, rf_features = None,
                 rf_pubsub_name = [], rf_min_runtime_version = []\<rparr>\<rparr>"

definition configuration_list_deep_copy_into where
  "configuration_list_deep_copy_into list_meta_copy meta_zero meta_copy x h =
     (case list_meta_copy (li_list_meta x) h of (m, h1) \<Rightarrow>
        case copy_slice the_configurations CConfigurations (zero_configuration_ref meta_zero)
            (configuration_deep_copy_into meta_copy) (li_items x) h1 of
          (s, h2) \<Rightarrow> (x\<lparr>li_type_meta := li_type_meta x, li_list_meta := m, li_items := s\<rparr>, h2))"

definition configuration_list_deep_copy where
  "configuration_list_deep_copy list_meta_copy meta_zero meta_copy =
     copy_pointer (configuration_list_deep_copy_into list_meta_copy meta_zero meta_copy)"

section \<open>Objects\<close>

text \<open>The interface \<^verbatim>\<open>runtime.Object\<close>: a pointer to one of the types; \<^term>\<open>None\<close> is the nil interface.\<close>

datatype ('m, 'l) runtime_object =
    ObjComponent "'m component_ref"
  | ObjComponentList "'l list_ref"
  | ObjConfiguration "'m configuration_ref"
  | ObjConfigurationList "'l list_ref"

definition as_object :: "('a \<Rightarrow> 'o) \<Rightarrow> 'a option \<times> 'c store \<Rightarrow> 'o option \<times> 'c store" where
  "as_object tag r = (case r of (Some c, h) \<Rightarrow> (Some (tag c), h) | (None, h) \<Rightarrow> (None, h))"

definition component_deep_copy_object where
  "component_deep_copy_object meta_copy json_zero json_copy p h =
     as_object ObjComponent (component_deep_copy meta_copy json_zero json_copy p h)"

definition component_list_deep_copy_object where
  "component_list_deep_copy_object list_meta_copy meta_zero meta_copy json_zero json_copy p h =
     as_object ObjComponentList (component_list_deep_copy list_meta_copy meta_zero meta_copy json_zero json_copy p h)"

definition configuration_deep_copy_object where
  "configuration_deep_copy_object meta_copy p h = as_object ObjConfiguration (configuration_deep_copy meta_copy p h)"

definition configuration_list_deep_copy_object where
  "configuration_list_deep_copy_object list_meta_copy meta_zero meta_copy p h =
     as_object ObjConfigurationList (configuration_list_deep_copy list_meta_copy meta_zero meta_copy p h)"

section \<open>Every copy is deep\<close>

text \<open>What the values stand for: the fields, with the contents of the arrays in place of the slices.\<close>

definition item_val where
  "item_val json_val = (\<lambda>h x. ((mi_name x, mi_secret_key_ref x), json_val h (mi_value x)))"

definition item_foot where
  "item_foot json_foot = (\<lambda>h x. json_foot h (mi_value x))"

definition component_spec_val where
  "component_spec_val json_val =
     (\<lambda>h x. ((rc_type x, rc_version x, rc_ignore_errors x, rc_init_timeout x),
            slice_val the_items (item_val json_val) h (rc_metadata x)))"

definition component_spec_foot where
  "component_spec_foot json_foot = (\<lambda>h x. slice_foot the_items (item_foot json_foot) h (rc_metadata x))"

definition component_val where
  "component_val meta_val json_val =
     (\<lambda>h x. ((co_type_meta x, co_secret_store x),
       pair_val meta_val (pair_val (component_spec_val json_val) (slice_val the_strings (\<lambda>h s. s))) h
         (co_object_meta x, co_spec x, co_scopes x)))"

definition component_foot where
  "component_foot meta_foot json_foot =
     (\<lambda>h x. pair_foot meta_foot (pair_foot (component_spec_foot json_foot) (slice_foot the_strings (\<lambda>h s. {}))) h
       (co_object_meta x, co_spec x, co_scopes x))"

definition list_val where
  "list_val list_meta_val unwrap val =
     (\<lambda>h x. (li_type_meta x, pair_val list_meta_val (slice_val unwrap val) h (li_list_meta x, li_items x)))"

definition list_foot where
  "list_foot list_meta_foot unwrap foot =
     (\<lambda>h x. pair_foot list_meta_foot (slice_foot unwrap foot) h (li_list_meta x, li_items x))"

definition configuration_spec_val where
  "configuration_spec_val =
     (\<lambda>h x. ((rf_telemetry x, rf_pubsub_name x, rf_min_runtime_version x),
       pair_val (slice_val the_handlers (\<lambda>h s. s))
         (pair_val (slice_val the_handlers (\<lambda>h s. s)) (slice_val the_features (\<lambda>h s. s))) h
         (rf_subscriber_handlers x, rf_publisher_handlers x, rf_features x)))"

definition configuration_spec_foot where
  "configuration_spec_foot =
     (\<lambda>h x. pair_foot (slice_foot the_handlers (\<lambda>h s. {}))
       (pair_foot (slice_foot the_handlers (\<lambda>h s. {})) (slice_foot the_features (\<lambda>h s. {}))) h
       (rf_subscriber_handlers x, rf_publisher_handlers x, rf_features x))"

definition configuration_val where
  "configuration_val meta_val =
     (\<lambda>h x. (cf_type_meta x, pair_val meta_val configuration_spec_val h (cf_object_meta x, cf_spec x)))"

definition configuration_foot where
  "configuration_foot meta_foot = (\<lambda>h x. pair_foot meta_foot configuration_spec_foot h (cf_object_meta x, cf_spec x))"

text \<open>The copy functions as combinations of the copies of the parts.\<close>

named_theorems copy_parts_eqs \<open>DeepCopyInto functions by their parts\<close>

lemma plain_copies [copy_parts_eqs]:
  "secret_key_ref_deep_copy_into = copy_plain" "auth_deep_copy_into = copy_plain" "handler_deep_copy_into = copy_plain"
  "feature_deep_copy_into = copy_plain" "pubsub_spec_deep_copy_into = copy_plain" "tracing_deep_copy_into = copy_plain"
  "telemetry_deep_copy_into = copy_plain"
  by (intro ext, simp add: copy_plain_def secret_key_ref_deep_copy_into_def auth_deep_copy_into_def
      handler_deep_copy_into_def feature_deep_copy_into_def pubsub_spec_deep_copy_into_def tracing_deep_copy_into_def
      telemetry_deep_copy_into_def)+

lemma item_copy_eq [copy_parts_eqs]:
  "item_deep_copy_into json_copy = copy_parts mi_value (\<lambda>x v. x\<lparr>mi_value := v\<rparr>) json_copy"
  by (intro ext) (simp add: item_deep_copy_into_def copy_parts_def split: prod.split)

lemma component_spec_copy_eq [copy_parts_eqs]:
  "component_spec_deep_copy_into json_zero json_copy =
     copy_parts rc_metadata (\<lambda>x s. x\<lparr>rc_metadata := s\<rparr>)
       (copy_slice the_items CItems (zero_item json_zero) (item_deep_copy_into json_copy))"
  by (intro ext) (simp add: component_spec_deep_copy_into_def copy_parts_def)

lemma component_copy_eq [copy_parts_eqs]:
  "component_deep_copy_into meta_copy json_zero json_copy =
     copy_parts (\<lambda>x. (co_object_meta x, co_spec x, co_scopes x))
       (\<lambda>x (m, s, sc). x\<lparr>co_object_meta := m, co_spec := s, co_scopes := sc\<rparr>)
       (copy_pair meta_copy (copy_pair (component_spec_deep_copy_into json_zero json_copy)
          (copy_flat_slice the_strings CStrings [])))"
  by (intro ext) (simp add: component_deep_copy_into_def copy_parts_def copy_pair_def split: prod.split)

lemma component_list_copy_eq [copy_parts_eqs]:
  "component_list_deep_copy_into list_meta_copy meta_zero meta_copy json_zero json_copy =
     copy_parts (\<lambda>x. (li_list_meta x, li_items x)) (\<lambda>x (m, s). x\<lparr>li_list_meta := m, li_items := s\<rparr>)
       (copy_pair list_meta_copy (copy_slice the_components CComponents (zero_component_ref meta_zero)
          (component_deep_copy_into meta_copy json_zero json_copy)))"
  by (intro ext) (simp add: component_list_deep_copy_into_def copy_parts_def copy_pair_def split: prod.split)

lemma configuration_spec_copy_eq [copy_parts_eqs]:
  "configuration_spec_deep_copy_into =
     copy_parts (\<lambda>x. (rf_subscriber_handlers x, rf_publisher_handlers x, rf_features x))
       (\<lambda>x (s, p, f). x\<lparr>rf_subscriber_handlers := s, rf_publisher_handlers := p, rf_features := f\<rparr>)
       (copy_pair pipeline_deep_copy_into (copy_pair pipeline_deep_copy_into
          (copy_flat_slice the_features CFeatures \<lparr>fs_name = [], fs_enabled = False\<rparr>)))"
  by (intro ext) (simp add: configuration_spec_deep_copy_into_def copy_parts_def copy_pair_def split: prod.split)

lemma configuration_copy_eq [copy_parts_eqs]:
  "configuration_deep_copy_into meta_copy =
     copy_parts (\<lambda>x. (cf_object_meta x, cf_spec x)) (\<lambda>x (m, s). x\<lparr>cf_object_meta := m, cf_spec := s\<rparr>)
       (copy_pair meta_copy configuration_spec_deep_copy_into)"
  by (intro ext) (simp add: configuration_deep_copy_into_def copy_parts_def copy_pair_def split: prod.split)

lemma configuration_list_copy_eq [copy_parts_eqs]:
  "configuration_list_deep_copy_into list_meta_copy meta_zero meta_copy =
     copy_parts (\<lambda>x. (li_list_meta x, li_items x)) (\<lambda>x (m, s). x\<lparr>li_list_meta := m, li_items := s\<rparr>)
       (copy_pair list_meta_copy (copy_slice the_configurations CConfigurations (zero_configuration_ref meta_zero)
          (configuration_deep_copy_into meta_copy)))"
  by (intro ext) (simp add: configuration_list_deep_copy_into_def copy_parts_def copy_pair_def split: prod.split)

lemma item_deep: "deep_copy json_copy json_val json_foot
   \<Longrightarrow> deep_copy (item_deep_copy_into json_copy) (item_val json_val) (item_foot json_foot)"
  unfolding item_copy_eq item_val_def item_foot_def by (rule deep_copy_parts) simp_all

lemma component_spec_deep: "deep_copy json_copy json_val json_foot
   \<Longrightarrow> deep_copy (component_spec_deep_copy_into json_zero json_copy) (component_spec_val json_val) (component_spec_foot json_foot)"
  unfolding component_spec_copy_eq component_spec_val_def component_spec_foot_def
  by (intro deep_copy_parts deep_copy_slice item_deep) simp_all

lemma component_deep:
  assumes "deep_copy meta_copy meta_val meta_foot" and "deep_copy json_copy json_val json_foot"
  shows "deep_copy (component_deep_copy_into meta_copy json_zero json_copy) (component_val meta_val json_val)
    (component_foot meta_foot json_foot)"
  unfolding component_copy_eq component_val_def component_foot_def
  by (intro deep_copy_parts deep_copy_pair deep_copy_flat_slice component_spec_deep assms) auto

lemma component_list_deep:
  assumes "deep_copy list_meta_copy list_meta_val list_meta_foot" and "deep_copy meta_copy meta_val meta_foot"
    and "deep_copy json_copy json_val json_foot"
  shows "deep_copy (component_list_deep_copy_into list_meta_copy meta_zero meta_copy json_zero json_copy)
    (list_val list_meta_val the_components (component_val meta_val json_val))
    (list_foot list_meta_foot the_components (component_foot meta_foot json_foot))"
  unfolding component_list_copy_eq list_val_def list_foot_def
  by (intro deep_copy_parts deep_copy_pair deep_copy_slice component_deep assms) auto

interpretation pipeline: deep_copy pipeline_deep_copy_into "slice_val the_handlers (\<lambda>h x. x)"
  "slice_foot the_handlers (\<lambda>h x. {})"
  unfolding pipeline_deep_copy_into_def by (rule deep_copy_flat_slice) simp

lemmas pipeline_deep = pipeline.deep_copy_axioms

interpretation configuration_spec: deep_copy configuration_spec_deep_copy_into configuration_spec_val configuration_spec_foot
  unfolding configuration_spec_copy_eq configuration_spec_val_def configuration_spec_foot_def
  by (intro deep_copy_parts deep_copy_pair deep_copy_flat_slice pipeline_deep) auto

lemma configuration_deep:
  "deep_copy meta_copy meta_val meta_foot \<Longrightarrow> deep_copy (configuration_deep_copy_into meta_copy)
     (configuration_val meta_val) (configuration_foot meta_foot)"
  unfolding configuration_copy_eq configuration_val_def configuration_foot_def
  by (intro deep_copy_parts deep_copy_pair configuration_spec.deep_copy_axioms) auto

lemma configuration_list_deep:
  assumes "deep_copy list_meta_copy list_meta_val list_meta_foot" and "deep_copy meta_copy meta_val meta_foot"
  shows "deep_copy (configuration_list_deep_copy_into list_meta_copy meta_zero meta_copy)
    (list_val list_meta_val the_configurations (configuration_val meta_val))
    (list_foot list_meta_foot the_configurations (configuration_foot meta_foot))"
  unfolding configuration_list_copy_eq list_val_def list_foot_def
  by (intro deep_copy_parts deep_copy_pair deep_copy_slice configuration_deep assms) auto

text \<open>\<^verbatim>\<open>DeepCopyObject\<close> is the nil interface for a nil pointer only, never an interface that holds a nil pointer.\<close>

lemma as_object_nil: "fst (as_object tag r) = None \<longleftrightarrow> fst r = None"
  by (simp add: as_object_def split: prod.split option.split)

lemma component_deep_copy_object_nil:
  "fst (component_deep_copy_object meta_copy json_zero json_copy p h) = None \<longleftrightarrow> p = None"
  by (cases p)
    (simp_all add: component_deep_copy_object_def as_object_nil component_deep_copy_def copy_pointer_def split: prod.split)

section \<open>Properties\<close>

text \<open>C28: the deep copy of a list of components stands for the same list, and shares nothing with it: no
  write to the arrays that existed before is seen through the copy, and no write to other arrays changes
  the original.  The copies of the metadata and of raw JSON, which are library functions, must be deep.\<close>

theorem deep_copied_list_independent:
  assumes "deep_copy list_meta_copy list_meta_val list_meta_foot" and "deep_copy meta_copy meta_val meta_foot"
    and "deep_copy json_copy json_val json_foot"
    and "pointer_foot (list_foot list_meta_foot the_components (component_foot meta_foot json_foot)) h p \<subseteq> {..<st_limit h}"
    and "component_list_deep_copy list_meta_copy meta_zero meta_copy json_zero json_copy p h = (q, h')"
    and "val = list_val list_meta_val the_components (component_val meta_val json_val)"
  shows "map_option (val h') q = map_option (val h) p
    \<and> (\<forall>h2. (\<forall>a\<ge>st_limit h. st_cell h2 a = st_cell h' a) \<longrightarrow> map_option (val h2) q = map_option (val h) p)
    \<and> (\<forall>h2. (\<forall>a < st_limit h. st_cell h2 a = st_cell h a) \<longrightarrow> map_option (val h2) p = map_option (val h) p)"
proof -
  note deep = deep_copy_pointer [OF component_list_deep [OF assms(1-3)]]
  note same = deep_copy.copy_independent [OF deep assms(4) assms(5) [unfolded component_list_deep_copy_def]]
  show ?thesis unfolding assms(6) by (intro conjI allI impI same) simp_all
qed

section \<open>Witness\<close>

definition plain_list_copy :: "unit list_ref option \<Rightarrow> (unit, string, unit) cell store \<Rightarrow> unit list_ref option \<times> (unit, string, unit) cell store" where
  "plain_list_copy = component_list_deep_copy copy_plain () copy_plain [] copy_plain"

text \<open>A list of one component, whose scopes are in cell 0 and whose metadata are in cell 1.\<close>

definition sample_store :: "(unit, string, unit) cell store" where
  "sample_store =
     \<lparr>st_limit = 3, st_cell = (\<lambda>a. COther ())
        (0 := CStrings [''app''],
         1 := CItems [\<lparr>mi_name = ''url'', mi_value = ''nats'', mi_secret_key_ref = \<lparr>sk_name = [], sk_key = []\<rparr>\<rparr>],
         2 := CComponents [(zero_component_ref ())\<lparr>co_scopes := Some 0,
           co_spec := \<lparr>rc_type = ''pubsub.nats'', rc_version = ''v1'', rc_ignore_errors = False, rc_metadata = Some 1,
                       rc_init_timeout = []\<rparr>\<rparr>])\<rparr>"

definition sample_list :: "unit list_ref" where
  "sample_list = \<lparr>li_type_meta = zero_type_meta, li_list_meta = (), li_items = Some 2\<rparr>"

definition plain_list_val :: "(unit, string, unit) cell store \<Rightarrow> unit list_ref \<Rightarrow> _" where
  "plain_list_val = list_val (\<lambda>h x. x) the_components (component_val (\<lambda>h x. x) (\<lambda>h x. x))"

text \<open>The struct assignment \<^verbatim>\<open>*comp\<close> the operator makes is no deep copy: it shares the arrays.\<close>

theorem struct_assignment_shares:
  "\<exists>x h. plain_list_val (write_cell 0 (CStrings []) h) (fst (copy_plain x h)) \<noteq> plain_list_val h x"
  by (rule exI [of _ sample_list], rule exI [of _ sample_store])
    (simp add: plain_list_val_def list_val_def component_val_def pair_val_def copy_plain_def sample_list_def
      sample_store_def zero_component_ref_def)

theorem deep_copied_list_independent_witness:
  "case plain_list_copy (Some sample_list) sample_store of (q, h') \<Rightarrow>
     map_option (plain_list_val (write_cell 0 (CStrings []) h')) q = Some (plain_list_val sample_store sample_list)
     \<and> plain_list_val sample_store sample_list \<noteq> plain_list_val (write_cell 0 (CStrings []) sample_store) sample_list"
proof -
  obtain q h' where c: "plain_list_copy (Some sample_list) sample_store = (q, h')" by (rule prod.exhaust)
  have "pointer_foot (list_foot (\<lambda>h x. {}) the_components (component_foot (\<lambda>h x. {}) (\<lambda>h x. {}))) sample_store (Some sample_list)
      \<subseteq> {..<st_limit sample_store}"
    by (simp add: list_foot_def component_foot_def component_spec_foot_def item_foot_def pair_foot_def sample_list_def
        sample_store_def zero_component_ref_def)
  note result = deep_copied_list_independent [OF deep_copy_plain deep_copy_plain deep_copy_plain this
      c [unfolded plain_list_copy_def] plain_list_val_def]
  have "\<forall>h2. (\<forall>a\<ge>st_limit sample_store. st_cell h2 a = st_cell h' a) \<longrightarrow>
      map_option (plain_list_val h2) q = Some (plain_list_val sample_store sample_list)"
    using conjunct1 [OF conjunct2 [OF result]] by (simp only: option.map)
  moreover have "\<forall>a\<ge>st_limit sample_store. st_cell (write_cell 0 (CStrings []) h') a = st_cell h' a"
    by (simp add: sample_store_def)
  moreover have "plain_list_val sample_store sample_list \<noteq> plain_list_val (write_cell 0 (CStrings []) sample_store) sample_list"
    by (simp add: plain_list_val_def list_val_def component_val_def pair_val_def sample_list_def
      sample_store_def zero_component_ref_def)
  ultimately show ?thesis by (simp add: c)
qed

end
