(* ===== verification/Rest_Client.thy ===== *)
theory Rest_Client
  imports Operator Deepcopy
begin

text \<open>
  The typed clients of the custom resources (\<^verbatim>\<open>pkg/operator/client/clientset/versioned/typed/rusi/v1alpha1\<close>)
  and their fakes.  \<^verbatim>\<open>client-go\<close> is a record of parameters: a request is the sequence of calls made on
  its builder, handed to \<^verbatim>\<open>Do\<close> or \<^verbatim>\<open>Watch\<close>; a fake hands an action to \<^verbatim>\<open>Invokes\<close>.

  The two clients differ in the name of their resource, which is an argument here.
\<close>

section \<open>Names of the API\<close>

record group_version =
  gv_group :: string
  gv_version :: string

record group_version_resource =
  gvr_group :: string
  gvr_version :: string
  gvr_resource :: string

definition group_name :: string where
  "group_name = ''rusi.io''"

definition scheme_group_version :: group_version where
  "scheme_group_version = \<lparr>gv_group = group_name, gv_version = ''v1alpha1''\<rparr>"

text \<open>\<^verbatim>\<open>WithResource\<close> and \<^verbatim>\<open>GroupResource\<close> of the library put the parts of a name together.\<close>

definition with_resource :: "group_version \<Rightarrow> string \<Rightarrow> group_version_resource" where
  "with_resource gv res = \<lparr>gvr_group = gv_group gv, gvr_version = gv_version gv, gvr_resource = res\<rparr>"

definition group_resource :: "group_version_resource \<Rightarrow> string \<times> string" where
  "group_resource r = (gvr_group r, gvr_resource r)"

definition api_resource :: "string \<Rightarrow> string \<times> string" where
  "api_resource res = group_resource (with_resource scheme_group_version res)"

definition api_kind :: "string \<Rightarrow> string \<times> string" where
  "api_kind k = (gv_group scheme_group_version, k)"

section \<open>Requests\<close>

record 'l list_options =
  lo_timeout_seconds :: "64 word option"
  lo_watch :: bool
  lo_other :: 'l

datatype verb = VGet | VPost | VPut | VDelete | VPatch string

text \<open>The other option structs (\<open>'o\<close>) are only passed on.\<close>

datatype ('o, 'l) params = Params 'o | ListParams "'l list_options"

datatype ('o, 'c) body = BodyObject 'c | BodyOptions 'o | BodyData string

datatype ('o, 'l, 'c) builder_call =
    CNamespace string
  | CResource string
  | CName string
  | CSubResource "string list"
  | CVersionedParams "('o, 'l) params"
  | CTimeout "64 word"
  | CBody "('o, 'c) body"

record ('o, 'l, 'c) request =
  rq_verb :: verb
  rq_calls :: "('o, 'l, 'c) builder_call list"

text \<open>\<open>'r\<close> is \<^verbatim>\<open>rest.Result\<close>, \<open>'t\<close> the list type, \<open>'s\<close> \<^verbatim>\<open>watch.Interface\<close>, \<open>'x\<close> a context, \<open>'w\<close> the server.\<close>

record ('x, 'o, 'l, 'c, 'r, 't, 's, 'w) rest_interface =
  rest_do :: "'x \<Rightarrow> ('o, 'l, 'c) request \<Rightarrow> 'w \<Rightarrow> 'r \<times> 'w"
  rest_watch :: "'x \<Rightarrow> ('o, 'l, 'c) request \<Rightarrow> 'w \<Rightarrow> ('s option \<times> error option) \<times> 'w"
  rest_into :: "'r \<Rightarrow> 'c \<Rightarrow> 'c \<times> error option"
  rest_into_list :: "'r \<Rightarrow> 't \<Rightarrow> 't \<times> error option"
  rest_error :: "'r \<Rightarrow> error option"

record ('x, 'o, 'l, 'c, 'r, 't, 's, 'w) typed_client =
  tc_client :: "('x, 'o, 'l, 'c, 'r, 't, 's, 'w) rest_interface"
  tc_ns :: string

section \<open>The typed client\<close>

text \<open>\<^verbatim>\<open>time.Duration(*opts.TimeoutSeconds) * time.Second\<close>, on 64 bits.\<close>

definition list_timeout :: "'l list_options \<Rightarrow> 64 word" where
  "list_timeout opts = (case lo_timeout_seconds opts of None \<Rightarrow> 0 | Some t \<Rightarrow> t * 1000000000)"

text \<open>\<open>zero\<close> is the \<^verbatim>\<open>&v1alpha1.Component{}\<close> the answer is read into.\<close>

definition typed_get where
  "typed_get res zero c ctx name options w =
     (case rest_do (tc_client c) ctx
         \<lparr>rq_verb = VGet, rq_calls = [CNamespace (tc_ns c), CResource res, CName name, CVersionedParams (Params options)]\<rparr> w of
        (r, w') \<Rightarrow> (rest_into (tc_client c) r zero, w'))"

definition typed_list where
  "typed_list res zero_list c ctx opts w =
     (let timeout = list_timeout opts
      in case rest_do (tc_client c) ctx
         \<lparr>rq_verb = VGet, rq_calls = [CNamespace (tc_ns c), CResource res, CVersionedParams (ListParams opts), CTimeout timeout]\<rparr> w of
        (r, w') \<Rightarrow> (rest_into_list (tc_client c) r zero_list, w'))"

definition typed_watch where
  "typed_watch res c ctx opts w =
     (let timeout = list_timeout opts; opts1 = opts\<lparr>lo_watch := True\<rparr>
      in rest_watch (tc_client c) ctx
         \<lparr>rq_verb = VGet, rq_calls = [CNamespace (tc_ns c), CResource res, CVersionedParams (ListParams opts1), CTimeout timeout]\<rparr> w)"

definition typed_create where
  "typed_create res zero c ctx obj opts w =
     (case rest_do (tc_client c) ctx
         \<lparr>rq_verb = VPost, rq_calls = [CNamespace (tc_ns c), CResource res, CVersionedParams (Params opts), CBody (BodyObject obj)]\<rparr> w of
        (r, w') \<Rightarrow> (rest_into (tc_client c) r zero, w'))"

definition typed_update where
  "typed_update res zero c ctx obj opts w =
     (case rest_do (tc_client c) ctx
         \<lparr>rq_verb = VPut, rq_calls = [CNamespace (tc_ns c), CResource res, CName (ob_name obj), CVersionedParams (Params opts),
            CBody (BodyObject obj)]\<rparr> w of
        (r, w') \<Rightarrow> (rest_into (tc_client c) r zero, w'))"

definition typed_delete where
  "typed_delete res c ctx name opts w =
     (case rest_do (tc_client c) ctx
         \<lparr>rq_verb = VDelete, rq_calls = [CNamespace (tc_ns c), CResource res, CName name, CBody (BodyOptions opts)]\<rparr> w of
        (r, w') \<Rightarrow> (rest_error (tc_client c) r, w'))"

definition typed_delete_collection where
  "typed_delete_collection res c ctx opts list_opts w =
     (let timeout = list_timeout list_opts
      in case rest_do (tc_client c) ctx
         \<lparr>rq_verb = VDelete, rq_calls = [CNamespace (tc_ns c), CResource res, CVersionedParams (ListParams list_opts),
            CTimeout timeout, CBody (BodyOptions opts)]\<rparr> w of
        (r, w') \<Rightarrow> (rest_error (tc_client c) r, w'))"

definition typed_patch where
  "typed_patch res zero c ctx name pt data opts subresources w =
     (case rest_do (tc_client c) ctx
         \<lparr>rq_verb = VPatch pt, rq_calls = [CNamespace (tc_ns c), CResource res, CName name, CSubResource subresources,
            CVersionedParams (Params opts), CBody (BodyData data)]\<rparr> w of
        (r, w') \<Rightarrow> (rest_into (tc_client c) r zero, w'))"

section \<open>The fake client\<close>

datatype ('l, 'c) action =
    GetAction group_version_resource string string
  | ListAction group_version_resource string string "'l list_options"
  | WatchAction group_version_resource string "'l list_options"
  | CreateAction group_version_resource string 'c
  | UpdateAction group_version_resource string 'c
  | DeleteAction group_version_resource string string
  | DeleteCollectionAction group_version_resource string "'l list_options"
  | PatchSubresourceAction group_version_resource string string string string "string list"

text \<open>What a reactor may answer: an object or a list of the client's types, or something else.\<close>

datatype ('c, 't) reaction = ReactObject 'c | ReactList 't | ReactOther

record ('l, 'c, 't, 's, 'w) fake_library =
  fk_invokes :: "('l, 'c) action \<Rightarrow> ('c, 't) reaction \<Rightarrow> 'w \<Rightarrow> (('c, 't) reaction option \<times> error option) \<times> 'w"
  fk_invokes_watch :: "('l, 'c) action \<Rightarrow> 'w \<Rightarrow> ('s option \<times> error option) \<times> 'w"

record ('l, 'c, 't, 's, 'w) fake_client =
  fc_fake :: "('l, 'c, 't, 's, 'w) fake_library"
  fc_ns :: string

definition fake_resource :: "string \<Rightarrow> group_version_resource" where
  "fake_resource res = \<lparr>gvr_group = ''rusi.io'', gvr_version = ''v1alpha1'', gvr_resource = res\<rparr>"

definition type_assertion :: string where
  "type_assertion = ''interface conversion''"

text \<open>\<^verbatim>\<open>if obj == nil { return nil, err }; return obj.(*v1alpha1.Component), err\<close>\<close>

fun as_result :: "('c, 't) reaction option \<times> error option \<Rightarrow> ('c option \<times> error option) outcome" where
  "as_result (None, err) = Returns (None, err)"
| "as_result (Some (ReactObject c), err) = Returns (Some c, err)"
| "as_result (Some (ReactList t), err) = Panics type_assertion"
| "as_result (Some ReactOther, err) = Panics type_assertion"

definition fake_get where
  "fake_get res zero c name options w =
     (case fk_invokes (fc_fake c) (GetAction (fake_resource res) (fc_ns c) name) (ReactObject zero) w of
        (r, w') \<Rightarrow> (as_result r, w'))"

text \<open>The metadata and the items of a list (\<^verbatim>\<open>ListMeta\<close>, \<^verbatim>\<open>Items\<close>), with its type.\<close>

record ('y, 'c) object_list =
  ol_type_meta :: type_meta
  ol_list_meta :: 'y
  ol_items :: "'c list"

text \<open>The loop that keeps the items whose labels match.\<close>

fun append_matching :: "('c \<Rightarrow> bool) \<Rightarrow> 'c list \<Rightarrow> 'c list \<Rightarrow> 'c list" where
  "append_matching matches items [] = items"
| "append_matching matches items (item # rest) =
     append_matching matches (if matches item then items @ [item] else items) rest"

definition fake_list :: "(_ \<Rightarrow> 'lb option) \<Rightarrow> 'lb \<Rightarrow> ('lb \<Rightarrow> 'c \<Rightarrow> bool) \<Rightarrow> string \<Rightarrow> string \<Rightarrow> _" where
  "fake_list extract_label everything matches res kind zero_list c opts w =
     (case fk_invokes (fc_fake c) (ListAction (fake_resource res) kind (fc_ns c) opts) (ReactList zero_list) w of
        ((None, err), w') \<Rightarrow> (Returns (None, err), w')
      | ((Some (ReactList t), err), w') \<Rightarrow>
          (let label = (case extract_label opts of None \<Rightarrow> everything | Some l \<Rightarrow> l)
           in (Returns (Some \<lparr>ol_type_meta = zero_type_meta, ol_list_meta = ol_list_meta t,
                              ol_items = append_matching (matches label) [] (ol_items t)\<rparr>, err), w'))
      | ((Some other, err), w') \<Rightarrow> (Panics type_assertion, w'))"

definition fake_watch where
  "fake_watch res c opts w = fk_invokes_watch (fc_fake c) (WatchAction (fake_resource res) (fc_ns c) opts) w"

definition fake_create where
  "fake_create res zero c obj opts w =
     (case fk_invokes (fc_fake c) (CreateAction (fake_resource res) (fc_ns c) obj) (ReactObject zero) w of
        (r, w') \<Rightarrow> (as_result r, w'))"

definition fake_update where
  "fake_update res zero c obj opts w =
     (case fk_invokes (fc_fake c) (UpdateAction (fake_resource res) (fc_ns c) obj) (ReactObject zero) w of
        (r, w') \<Rightarrow> (as_result r, w'))"

definition fake_delete where
  "fake_delete res zero c name opts w =
     (case fk_invokes (fc_fake c) (DeleteAction (fake_resource res) (fc_ns c) name) (ReactObject zero) w of
        ((obj, err), w') \<Rightarrow> (err, w'))"

definition fake_delete_collection where
  "fake_delete_collection res zero_list c opts list_opts w =
     (case fk_invokes (fc_fake c) (DeleteCollectionAction (fake_resource res) (fc_ns c) list_opts) (ReactList zero_list) w of
        ((obj, err), w') \<Rightarrow> (err, w'))"

definition fake_patch where
  "fake_patch res zero c name pt data opts subresources w =
     (case fk_invokes (fc_fake c) (PatchSubresourceAction (fake_resource res) (fc_ns c) name pt data subresources)
         (ReactObject zero) w of
        (r, w') \<Rightarrow> (as_result r, w'))"

section \<open>The clients of configurations\<close>

definition configurations_get where "configurations_get = typed_get ''configurations''"
definition configurations_list where "configurations_list = typed_list ''configurations''"
definition configurations_watch where "configurations_watch = typed_watch ''configurations''"
definition configurations_create where "configurations_create = typed_create ''configurations''"
definition configurations_update where "configurations_update = typed_update ''configurations''"
definition configurations_delete where "configurations_delete = typed_delete ''configurations''"
definition configurations_delete_collection where "configurations_delete_collection = typed_delete_collection ''configurations''"
definition configurations_patch where "configurations_patch = typed_patch ''configurations''"

definition fake_configurations_get where "fake_configurations_get = fake_get ''configurations''"
definition fake_configurations_list where "fake_configurations_list extract_label everything matches =
  fake_list extract_label everything matches ''configurations'' ''Configuration''"
definition fake_configurations_watch where "fake_configurations_watch = fake_watch ''configurations''"
definition fake_configurations_create where "fake_configurations_create = fake_create ''configurations''"
definition fake_configurations_update where "fake_configurations_update = fake_update ''configurations''"
definition fake_configurations_delete where "fake_configurations_delete = fake_delete ''configurations''"
definition fake_configurations_delete_collection where "fake_configurations_delete_collection = fake_delete_collection ''configurations''"
definition fake_configurations_patch where "fake_configurations_patch = fake_patch ''configurations''"

section \<open>The fake stands for the client\<close>

text \<open>\<^verbatim>\<open>ComponentInterface\<close> and \<^verbatim>\<open>ConfigurationInterface\<close>: the calls both implement.\<close>

datatype ('o, 'l, 'c) client_operation =
    OpGet string 'o
  | OpList "'l list_options"
  | OpWatch "'l list_options"
  | OpCreate 'c 'o
  | OpUpdate 'c 'o
  | OpDelete string 'o
  | OpDeleteCollection 'o "'l list_options"
  | OpPatch string string string 'o "string list"

fun run_typed where
  "run_typed res zero zero_list c ctx (OpGet n opts) w = snd (typed_get res zero c ctx n opts w)"
| "run_typed res zero zero_list c ctx (OpList opts) w = snd (typed_list res zero_list c ctx opts w)"
| "run_typed res zero zero_list c ctx (OpWatch opts) w = snd (typed_watch res c ctx opts w)"
| "run_typed res zero zero_list c ctx (OpCreate x opts) w = snd (typed_create res zero c ctx x opts w)"
| "run_typed res zero zero_list c ctx (OpUpdate x opts) w = snd (typed_update res zero c ctx x opts w)"
| "run_typed res zero zero_list c ctx (OpDelete n opts) w = snd (typed_delete res c ctx n opts w)"
| "run_typed res zero zero_list c ctx (OpDeleteCollection opts lopts) w = snd (typed_delete_collection res c ctx opts lopts w)"
| "run_typed res zero zero_list c ctx (OpPatch n pt d opts subs) w = snd (typed_patch res zero c ctx n pt d opts subs w)"

fun run_fake where
  "run_fake ex ev ma res kind zero zero_list c (OpGet n opts) w = snd (fake_get res zero c n opts w)"
| "run_fake ex ev ma res kind zero zero_list c (OpList opts) w = snd (fake_list ex ev ma res kind zero_list c opts w)"
| "run_fake ex ev ma res kind zero zero_list c (OpWatch opts) w = snd (fake_watch res c opts w)"
| "run_fake ex ev ma res kind zero zero_list c (OpCreate x opts) w = snd (fake_create res zero c x opts w)"
| "run_fake ex ev ma res kind zero zero_list c (OpUpdate x opts) w = snd (fake_update res zero c x opts w)"
| "run_fake ex ev ma res kind zero zero_list c (OpDelete n opts) w = snd (fake_delete res zero c n opts w)"
| "run_fake ex ev ma res kind zero zero_list c (OpDeleteCollection opts lopts) w =
     snd (fake_delete_collection res zero_list c opts lopts w)"
| "run_fake ex ev ma res kind zero zero_list c (OpPatch n pt d opts subs) w = snd (fake_patch res zero c n pt d opts subs w)"

text \<open>What a request and what an action ask for.  A \<^verbatim>\<open>GET\<close> of a collection is a watch when its parameters say so.\<close>

record 'c call_view =
  cv_verb :: string
  cv_resource :: string
  cv_namespace :: string
  cv_name :: "string option"
  cv_subresources :: "string list"
  cv_object :: "'c option"
  cv_patch :: "(string \<times> string) option"

definition plain_view :: "string \<Rightarrow> string \<Rightarrow> string \<Rightarrow> string option \<Rightarrow> 'c call_view" where
  "plain_view v res ns n = \<lparr>cv_verb = v, cv_resource = res, cv_namespace = ns, cv_name = n, cv_subresources = [],
     cv_object = None, cv_patch = None\<rparr>"

fun action_view :: "('l, 'b object) action \<Rightarrow> 'b object call_view" where
  "action_view (GetAction r ns n) = plain_view ''get'' (gvr_resource r) ns (Some n)"
| "action_view (ListAction r k ns opts) = plain_view ''list'' (gvr_resource r) ns None"
| "action_view (WatchAction r ns opts) = plain_view ''watch'' (gvr_resource r) ns None"
| "action_view (CreateAction r ns x) = (plain_view ''create'' (gvr_resource r) ns None)\<lparr>cv_object := Some x\<rparr>"
| "action_view (UpdateAction r ns x) = (plain_view ''update'' (gvr_resource r) ns (Some (ob_name x)))\<lparr>cv_object := Some x\<rparr>"
| "action_view (DeleteAction r ns n) = plain_view ''delete'' (gvr_resource r) ns (Some n)"
| "action_view (DeleteCollectionAction r ns opts) = plain_view ''delete-collection'' (gvr_resource r) ns None"
| "action_view (PatchSubresourceAction r ns n pt d subs) =
     (plain_view ''patch'' (gvr_resource r) ns (Some n))\<lparr>cv_subresources := subs, cv_patch := Some (pt, d)\<rparr>"

fun view_call :: "('o, 'l, 'c) builder_call \<Rightarrow> 'c call_view \<Rightarrow> 'c call_view" where
  "view_call (CNamespace ns) v = v\<lparr>cv_namespace := ns\<rparr>"
| "view_call (CResource res) v = v\<lparr>cv_resource := res\<rparr>"
| "view_call (CName n) v = v\<lparr>cv_name := Some n\<rparr>"
| "view_call (CSubResource subs) v = v\<lparr>cv_subresources := subs\<rparr>"
| "view_call (CVersionedParams ps) v = v"
| "view_call (CTimeout t) v = v"
| "view_call (CBody (BodyObject x)) v = v\<lparr>cv_object := Some x\<rparr>"
| "view_call (CBody (BodyOptions opts)) v = v"
| "view_call (CBody (BodyData d)) v = v\<lparr>cv_patch := map_option (\<lambda>p. (fst p, d)) (cv_patch v)\<rparr>"

fun asks_to_watch :: "('o, 'l, 'c) builder_call list \<Rightarrow> bool" where
  "asks_to_watch [] = False"
| "asks_to_watch (CVersionedParams (ListParams opts) # cs) = lo_watch opts"
| "asks_to_watch (c # cs) = asks_to_watch cs"

definition api_verb :: "('o, 'l, 'c) request \<Rightarrow> string option \<Rightarrow> string" where
  "api_verb q n = (case rq_verb q of
     VGet \<Rightarrow> (if n \<noteq> None then ''get'' else if asks_to_watch (rq_calls q) then ''watch'' else ''list'')
   | VPost \<Rightarrow> ''create'' | VPut \<Rightarrow> ''update''
   | VDelete \<Rightarrow> (if n \<noteq> None then ''delete'' else ''delete-collection'') | VPatch pt \<Rightarrow> ''patch'')"

definition request_view :: "('o, 'l, 'c) request \<Rightarrow> 'c call_view" where
  "request_view q =
     (let v = fold view_call (rq_calls q) ((plain_view [] [] [] None)\<lparr>cv_patch := (case rq_verb q of VPatch pt \<Rightarrow> Some (pt, []) | _ \<Rightarrow> None)\<rparr>)
      in v\<lparr>cv_verb := api_verb q (cv_name v)\<rparr>)"

text \<open>Clients whose server is the list of what it was asked.\<close>

definition logging_client where
  "logging_client answer watching into into_list err ns =
     \<lparr>tc_client = \<lparr>rest_do = (\<lambda>ctx q w. (answer ctx q w, w @ [q])), rest_watch = (\<lambda>ctx q w. (watching ctx q w, w @ [q])),
        rest_into = into, rest_into_list = into_list, rest_error = err\<rparr>, tc_ns = ns\<rparr>"

definition logging_fake where
  "logging_fake reaction watching ns =
     \<lparr>fc_fake = \<lparr>fk_invokes = (\<lambda>a d w. (reaction a d w, w @ [a])), fk_invokes_watch = (\<lambda>a w. (watching a w, w @ [a]))\<rparr>,
      fc_ns = ns\<rparr>"

lemma snd_case_prod_pair: "snd (case x of (a, b) \<Rightarrow> (f a, b)) = snd x"
  by (simp split: prod.split)

lemma snd_fake_list:
  "snd (fake_list ex ev ma res kind zero_list c opts w) =
     snd (fk_invokes (fc_fake c) (ListAction (fake_resource res) kind (fc_ns c) opts) (ReactList zero_list) w)"
  by (auto simp: fake_list_def Let_def split: prod.split option.split reaction.split)

text \<open>
  The contract of the interface: a call sends one message, which asks for what the operation says.  A list
  whose options ask to watch is excluded: the server takes it for a watch.
\<close>

fun operation_view :: "string \<Rightarrow> string \<Rightarrow> ('o, 'l, 'b object) client_operation \<Rightarrow> 'b object call_view" where
  "operation_view res ns (OpGet n opts) = plain_view ''get'' res ns (Some n)"
| "operation_view res ns (OpList opts) = plain_view ''list'' res ns None"
| "operation_view res ns (OpWatch opts) = plain_view ''watch'' res ns None"
| "operation_view res ns (OpCreate x opts) = (plain_view ''create'' res ns None)\<lparr>cv_object := Some x\<rparr>"
| "operation_view res ns (OpUpdate x opts) = (plain_view ''update'' res ns (Some (ob_name x)))\<lparr>cv_object := Some x\<rparr>"
| "operation_view res ns (OpDelete n opts) = plain_view ''delete'' res ns (Some n)"
| "operation_view res ns (OpDeleteCollection opts lopts) = plain_view ''delete-collection'' res ns None"
| "operation_view res ns (OpPatch n pt d opts subs) =
     (plain_view ''patch'' res ns (Some n))\<lparr>cv_subresources := subs, cv_patch := Some (pt, d)\<rparr>"

fun no_watching_list :: "('o, 'l, 'c) client_operation \<Rightarrow> bool" where
  "no_watching_list (OpList opts) = (\<not> lo_watch opts)"
| "no_watching_list op = True"

locale resource_client =
  fixes run :: "('o, 'l, 'b object) client_operation \<Rightarrow> 'm list \<Rightarrow> 'm list"
    and view :: "'m \<Rightarrow> 'b object call_view"
    and res :: string and ns :: string
  assumes sends: "no_watching_list op \<Longrightarrow> \<exists>m. run op w = w @ [m] \<and> view m = operation_view res ns op"
begin

lemma sent_views:
  assumes "\<forall>op\<in>set ops. no_watching_list op"
  shows "map view (fold run ops w) = map view w @ map (operation_view res ns) ops"
  using assms
proof (induction ops arbitrary: w)
  case (Cons op ops)
  obtain m where "run op w = w @ [m]" "view m = operation_view res ns op"
    using sends [of op w] Cons.prems by auto
  with Cons show ?case by simp
qed simp

end

interpretation typed: resource_client
  "run_typed res zero zero_list (logging_client answer watching into into_list err ns) ctx" request_view res ns
  for res zero zero_list answer watching into into_list err ns ctx
proof (unfold_locales, goal_cases)
  case (1 op w)
  then show ?case
    by (cases op)
      (auto simp: typed_get_def typed_list_def typed_watch_def typed_create_def typed_update_def typed_delete_def
        typed_delete_collection_def typed_patch_def logging_client_def request_view_def api_verb_def plain_view_def
        Let_def split: prod.split)
qed

interpretation fake: resource_client
  "run_fake ex ev ma res kind zero zero_list (logging_fake reaction watching ns)" action_view res ns
  for ex ev ma res kind zero zero_list reaction watching ns
proof (unfold_locales, goal_cases)
  case (1 op w)
  then show ?case
    by (cases op)
      (auto simp: snd_fake_list fake_get_def fake_watch_def fake_create_def fake_update_def fake_delete_def
        fake_delete_collection_def fake_patch_def logging_fake_def plain_view_def fake_resource_def split: prod.split)
qed

text \<open>Over any sequence of calls the fake is asked for what the server would be asked for.\<close>

theorem typed_and_fake_agree:
  assumes "\<forall>op\<in>set ops. no_watching_list op"
  shows "map request_view (fold (run_typed res zero zero_list (logging_client answer watching into into_list err ns) ctx) ops [])
    = map action_view (fold (run_fake ex ev ma res kind zero' zero_list' (logging_fake reaction watching' ns)) ops [])"
  by (simp add: typed.sent_views [OF assms] fake.sent_views [OF assms])

lemma append_matching_filter: "append_matching matches items xs = items @ filter matches xs"
  by (induction xs arbitrary: items) auto

text \<open>The duration of a list call is exact up to 9223372036 seconds, and wraps above.\<close>

theorem list_timeout_exact:
  assumes "lo_timeout_seconds opts = Some t" and "- 9223372036 \<le> sint t" and "sint t \<le> 9223372036"
  shows "sint (list_timeout opts) = sint t * 1000000000"
proof -
  have "sint (t * 1000000000) = signed_take_bit 63 (sint t * 1000000000)"
    by (simp add: sint_word_ariths)
  also have "\<dots> = sint t * 1000000000"
    using assms(2,3) by (intro signed_take_bit_int_eq_self) simp_all
  finally show ?thesis using assms(1) by (simp add: list_timeout_def)
qed

lemma list_timeout_wraps:
  "sint (list_timeout \<lparr>lo_timeout_seconds = Some 9223372037, lo_watch = False, lo_other = ()\<rparr>) < 0"
  by (simp add: list_timeout_def)

end
