(* ===== verification/Listers.thy ===== *)
theory Listers
  imports Rest_Client
begin

text \<open>
  The listers of the custom resources (\<^verbatim>\<open>pkg/operator/client/listers/rusi/v1alpha1\<close>), which read the
  cache of an informer.  The cache (\<^verbatim>\<open>cache.Indexer\<close>) is a record of parameters; it holds values of any
  type, so every read ends in a type assertion.

  The two listers differ in the type of their objects and in the name they report, here arguments.
\<close>

section \<open>The cache\<close>

text \<open>
  The values of a cache and of its events: a pointer to one of the two types, or the mark of a deletion
  that was missed (\<^verbatim>\<open>cache.DeletedFinalStateUnknown\<close>, with the key of the object).
\<close>

datatype 'c raw_object = RawObject kind 'c | RawTombstone string

fun assert_kind :: "kind \<Rightarrow> 'c raw_object \<Rightarrow> 'c outcome" where
  "assert_kind k (RawObject k' x) = (if k' = k then Returns x else Panics type_assertion)"
| "assert_kind k (RawTombstone key) = Panics type_assertion"

text \<open>\<^verbatim>\<open>ListAll\<close> calls its last argument on the values of the list, and returns the error.\<close>

record ('c, 'sel, 'i) indexer =
  ix_store :: 'i
  ix_get_by_key :: "'i \<Rightarrow> string \<Rightarrow> 'c raw_object option \<times> error option"
  ix_list_all :: "'i \<Rightarrow> 'sel \<Rightarrow> 'c raw_object list \<times> error option"
  ix_list_by_namespace :: "'i \<Rightarrow> string \<Rightarrow> 'sel \<Rightarrow> 'c raw_object list \<times> error option"

section \<open>The listers\<close>

text \<open>\<^verbatim>\<open>func(m interface{}) { ret = append(ret, m.(*v1alpha1.Component)) }\<close> on the values one after the other.\<close>

fun append_asserted :: "kind \<Rightarrow> 'c list \<Rightarrow> 'c raw_object list \<Rightarrow> 'c list outcome" where
  "append_asserted k ret [] = Returns ret"
| "append_asserted k ret (m # ms) =
     (case assert_kind k m of Panics e \<Rightarrow> Panics e | Returns x \<Rightarrow> append_asserted k (ret @ [x]) ms)"

definition lister_list :: "kind \<Rightarrow> ('c, 'sel, 'i) indexer \<Rightarrow> 'sel \<Rightarrow> ('c list \<times> error option) outcome" where
  "lister_list k s selector =
     (case ix_list_all s (ix_store s) selector of (ms, err) \<Rightarrow>
        case append_asserted k [] ms of Panics e \<Rightarrow> Panics e | Returns ret \<Rightarrow> Returns (ret, err))"

record ('c, 'sel, 'i) namespace_lister =
  nl_indexer :: "('c, 'sel, 'i) indexer"
  nl_namespace :: string

definition lister_of_namespace :: "('c, 'sel, 'i) indexer \<Rightarrow> string \<Rightarrow> ('c, 'sel, 'i) namespace_lister" where
  "lister_of_namespace s ns = \<lparr>nl_indexer = s, nl_namespace = ns\<rparr>"

definition namespace_lister_list :: "kind \<Rightarrow> ('c, 'sel, 'i) namespace_lister \<Rightarrow> 'sel \<Rightarrow> ('c list \<times> error option) outcome" where
  "namespace_lister_list k s selector =
     (case ix_list_by_namespace (nl_indexer s) (ix_store (nl_indexer s)) (nl_namespace s) selector of (ms, err) \<Rightarrow>
        case append_asserted k [] ms of Panics e \<Rightarrow> Panics e | Returns ret \<Rightarrow> Returns (ret, err))"

text \<open>\<open>not_found\<close> is \<^verbatim>\<open>errors.NewNotFound\<close>, on the resource and the name.\<close>

definition resource_singular :: "kind \<Rightarrow> string" where
  "resource_singular k = (case k of KComponent \<Rightarrow> ''component'' | KConfiguration \<Rightarrow> ''configuration'')"

definition namespace_lister_get :: "(string \<times> string \<Rightarrow> string \<Rightarrow> error) \<Rightarrow> kind \<Rightarrow> ('c, 'sel, 'i) namespace_lister
    \<Rightarrow> string \<Rightarrow> ('c option \<times> error option) outcome" where
  "namespace_lister_get not_found k s name =
     (case ix_get_by_key (nl_indexer s) (ix_store (nl_indexer s)) (nl_namespace s @ ''/'' @ name) of
        (_, Some err) \<Rightarrow> Returns (None, Some err)
      | (None, None) \<Rightarrow> Returns (None, Some (not_found (api_resource (resource_singular k)) name))
      | (Some obj, None) \<Rightarrow>
          (case assert_kind k obj of Panics e \<Rightarrow> Panics e | Returns x \<Rightarrow> Returns (Some x, None)))"

text \<open>The lister of configurations.\<close>

definition configuration_lister_list where "configuration_lister_list = lister_list KConfiguration"
definition configuration_lister_of_namespace where "configuration_lister_of_namespace = lister_of_namespace"
definition configuration_namespace_lister_list where
  "configuration_namespace_lister_list = namespace_lister_list KConfiguration"
definition configuration_namespace_lister_get where
  "configuration_namespace_lister_get not_found = namespace_lister_get not_found KConfiguration"

section \<open>What the listers return\<close>

lemma append_asserted_typed: "append_asserted k ret (map (RawObject k) xs) = Returns (ret @ xs)"
  by (induction xs arbitrary: ret) auto

lemma append_asserted_panics:
  "append_asserted k ret ms = Panics type_assertion \<or> (\<exists>xs. ms = map (RawObject k) xs)"
proof (induction ms arbitrary: ret)
  case (Cons m ms)
  show ?case
  proof (cases "assert_kind k m")
    case (Returns x)
    then have "m = RawObject k x" by (cases m) (auto split: if_splits)
    with Returns Cons.IH [of "ret @ [x]"] show ?thesis by (auto intro: exI [of _ "x # _"])
  next
    case (Panics e)
    then have "e = type_assertion" by (cases m) (auto split: if_splits)
    with Panics show ?thesis by simp
  qed
qed simp

lemma slash_key_injective:
  assumes "a @ ''/'' @ n = b @ ''/'' @ m" and "CHR ''/'' \<notin> set a" and "CHR ''/'' \<notin> set b"
  shows "a = b \<and> n = m"
proof -
  have take: "takeWhile (\<lambda>c. c \<noteq> CHR ''/'') (z @ ''/'' @ y) = z" if "CHR ''/'' \<notin> set z" for z y
    using that by (subst takeWhile_append2) auto
  from take [OF assms(2), of n] take [OF assms(3), of m] assms(1) have "a = b" by simp
  with assms(1) show ?thesis by simp
qed

text \<open>
  A cache that holds objects under the keys of \<^verbatim>\<open>MetaNamespaceKeyFunc\<close> (\<open>key\<close>), the key function of every informer.
\<close>

definition holds :: "('b object \<Rightarrow> string) \<Rightarrow> kind \<Rightarrow> 'b object list \<Rightarrow> ('b object, 'sel, 'i) indexer \<Rightarrow> bool" where
  "holds key k items ix \<longleftrightarrow> distinct (map key items)
     \<and> (\<forall>u. ix_get_by_key ix (ix_store ix) u = (map_of (map (\<lambda>x. (key x, RawObject k x)) items) u, None))"

lemma namespace_lister_get_cases:
  assumes "ix_get_by_key ix (ix_store ix) (ns @ ''/'' @ n) = (r, None)"
  shows "namespace_lister_get not_found k (lister_of_namespace ix ns) n =
     (case r of None \<Rightarrow> Returns (None, Some (not_found (api_resource (resource_singular k)) n))
      | Some obj \<Rightarrow> (case assert_kind k obj of Panics e \<Rightarrow> Panics e | Returns x \<Rightarrow> Returns (Some x, None)))"
  unfolding namespace_lister_get_def lister_of_namespace_def namespace_lister.select_convs assms prod.case
  by (cases r) simp_all

lemma namespace_lister_get_found:
  assumes "holds key k items ix"
    and "\<forall>x. ob_namespace x \<noteq> [] \<longrightarrow> key x = ob_namespace x @ ''/'' @ ob_name x"
    and "\<forall>x\<in>set items. ob_namespace x \<noteq> [] \<and> CHR ''/'' \<notin> set (ob_namespace x)"
    and "CHR ''/'' \<notin> set ns"
  shows "namespace_lister_get not_found k (lister_of_namespace ix ns) n = Returns (Some x, None)
    \<longleftrightarrow> x \<in> set items \<and> ob_namespace x = ns \<and> ob_name x = n"
proof -
  let ?u = "ns @ ''/'' @ n"
  have get: "ix_get_by_key ix (ix_store ix) ?u = (map_of (map (\<lambda>x. (key x, RawObject k x)) items) ?u, None)"
    using assms(1) by (simp add: holds_def)
  have keyed: "key y = ?u \<longleftrightarrow> ob_namespace y = ns \<and> ob_name y = n" if "y \<in> set items" for y
    using assms(2,3,4) that slash_key_injective [of "ob_namespace y" "ob_name y" ns n] by auto
  have dist: "distinct (map fst (map (\<lambda>x. (key x, RawObject k x)) items))"
    using assms(1) by (simp add: holds_def comp_def)
  let ?found = "map_of (map (\<lambda>x. (key x, RawObject k x)) items) ?u"
  have found: "?found = Some r \<longleftrightarrow> (\<exists>y\<in>set items. key y = ?u \<and> r = RawObject k y)" for r
    using map_of_eq_Some_iff [OF dist, of ?u r] by (simp add: image_iff) metis
  have "namespace_lister_get not_found k (lister_of_namespace ix ns) n = Returns (Some x, None)
      \<longleftrightarrow> ?found = Some (RawObject k x)"
    unfolding namespace_lister_get_cases [OF get]
  proof (cases ?found)
    case (Some r)
    with found obtain y where "r = RawObject k y" by metis
    with Some show "(case ?found of None \<Rightarrow> Returns (None, Some (not_found (api_resource (resource_singular k)) n))
      | Some obj \<Rightarrow> (case assert_kind k obj of Panics e \<Rightarrow> Panics e | Returns x \<Rightarrow> Returns (Some x, None))) = Returns (Some x, None)
      \<longleftrightarrow> ?found = Some (RawObject k x)" by simp
  qed simp
  then show ?thesis unfolding found using keyed by auto
qed

end
