(* ===== verification/Kube_Client.thy ===== *)
theory Kube_Client
  imports Rest_Client Utils
begin

text \<open>
  The making of the clients of Kubernetes: the configuration and the client that a process keeps
  (\<^verbatim>\<open>internal/kube/client.go\<close>), and the client set of the custom resources
  (\<^verbatim>\<open>pkg/operator/client/clientset/versioned/clientset.go\<close> and \<^verbatim>\<open>typed/rusi/v1alpha1/rusi_client.go\<close>).
  The constructors of \<^verbatim>\<open>client-go\<close> are parameters.
\<close>

section \<open>The client of a process\<close>

text \<open>A call that may panic or end the process through \<^verbatim>\<open>klog.Fatal\<close>.\<close>

datatype 'a attempt = Value 'a | PanicsWith error | FatalExit error

text \<open>The package variables and the flags registered on \<^verbatim>\<open>flag.CommandLine\<close>, by name.\<close>

record ('cfg, 'cs) kube_state =
  ks_client_set :: "'cs option"
  ks_config :: "'cfg option"
  ks_config_path :: string
  ks_flags :: "string list"

record ('cfg, 'cs) kube_library =
  kl_in_cluster_config :: "error + 'cfg"
  kl_build_config :: "string \<Rightarrow> error + 'cfg"
  kl_new_for_config :: "'cfg \<Rightarrow> error + 'cs"

definition kube_get_config :: "('cfg, 'cs) kube_library \<Rightarrow> ('cfg, 'cs) kube_state \<Rightarrow> 'cfg attempt" where
  "kube_get_config lib st =
     (case ks_config st of
        Some c \<Rightarrow> Value c
      | None \<Rightarrow>
          (case kl_in_cluster_config lib of
             Inr c \<Rightarrow> Value c
           | Inl _ \<Rightarrow> (case kl_build_config lib (ks_config_path st) of Inr c \<Rightarrow> Value c | Inl e \<Rightarrow> PanicsWith e)))"

definition init_kube_config :: "('cfg, 'cs) kube_library \<Rightarrow> ('cfg, 'cs) kube_state
    \<Rightarrow> unit attempt \<times> ('cfg, 'cs) kube_state" where
  "init_kube_config lib st =
     (case kube_get_config lib st of
        PanicsWith e \<Rightarrow> (PanicsWith e, st)
      | FatalExit e \<Rightarrow> (FatalExit e, st)
      | Value c \<Rightarrow>
          (let st1 = st\<lparr>ks_config := Some c\<rparr>
           in case kl_new_for_config lib c of
                Inl e \<Rightarrow> (FatalExit e, st1)
              | Inr cs \<Rightarrow> (Value (), st1\<lparr>ks_client_set := Some cs\<rparr>)))"

definition get_kube_client :: "('cfg, 'cs) kube_library \<Rightarrow> ('cfg, 'cs) kube_state
    \<Rightarrow> 'cs option attempt \<times> ('cfg, 'cs) kube_state" where
  "get_kube_client lib st =
     (if ks_client_set st = None then
        (case init_kube_config lib st of
           (PanicsWith e, st1) \<Rightarrow> (PanicsWith e, st1)
         | (FatalExit e, st1) \<Rightarrow> (FatalExit e, st1)
         | (Value u, st1) \<Rightarrow> (Value (ks_client_set st1), st1))
      else (Value (ks_client_set st), st))"

text \<open>
  \<^verbatim>\<open>flag.StringVar\<close> panics for a name that is registered already, and sets the variable to the default.
  \<open>join\<close> is \<^verbatim>\<open>filepath.Join(home, ".kube", "config")\<close>.  The argument of \<^verbatim>\<open>InitFlags\<close> is overwritten when it is
  nil and not used otherwise.
\<close>

definition command_line_string_var :: "string \<Rightarrow> string \<Rightarrow> ('cfg, 'cs) kube_state \<Rightarrow> ('cfg, 'cs) kube_state attempt" where
  "command_line_string_var name value st =
     (if string_slice_contains name (ks_flags st) then PanicsWith (ErrText (''flag redefined: '' @ name))
      else Value (st\<lparr>ks_flags := ks_flags st @ [name], ks_config_path := value\<rparr>))"

definition kube_init_flags :: "(string \<Rightarrow> string) \<Rightarrow> string \<Rightarrow> 'fs option \<Rightarrow> ('cfg, 'cs) kube_state
    \<Rightarrow> ('cfg, 'cs) kube_state attempt" where
  "kube_init_flags join home flagset st =
     (if home \<noteq> [] then command_line_string_var ''kubeconfig'' (join home) st
      else command_line_string_var ''kubeconfig'' [] st)"

lemma get_kube_client_Value:
  assumes "get_kube_client lib st = (Value r, st1)"
  obtains "ks_client_set st \<noteq> None" "st1 = st" "r = ks_client_set st"
  | c cs where "ks_client_set st = None" "kube_get_config lib st = Value c" "kl_new_for_config lib c = Inr cs"
      "r = Some cs" "st1 = st\<lparr>ks_config := Some c, ks_client_set := Some cs\<rparr>"
proof (cases "ks_client_set st = None")
  case True
  with assms obtain c where c: "kube_get_config lib st = Value c"
    by (cases "kube_get_config lib st") (auto simp: get_kube_client_def init_kube_config_def)
  with assms True obtain cs where cs: "kl_new_for_config lib c = Inr cs"
    by (cases "kl_new_for_config lib c") (auto simp: get_kube_client_def init_kube_config_def Let_def)
  from assms True c cs have "r = Some cs" "st1 = st\<lparr>ks_config := Some c, ks_client_set := Some cs\<rparr>"
    by (auto simp: get_kube_client_def init_kube_config_def Let_def)
  with True c cs show ?thesis by (rule that(2))
qed (use assms that(1) in \<open>auto simp: get_kube_client_def\<close>)

text \<open>The client is made once; later calls return it, and its configuration, whatever the library would answer.\<close>

lemma get_kube_client_memoised:
  assumes "get_kube_client lib st = (Value r, st1)"
  shows "get_kube_client lib' st1 = (Value r, st1)"
  using assms by (rule get_kube_client_Value) (auto simp: get_kube_client_def)

lemma get_kube_client_keeps_config:
  assumes "get_kube_client lib st = (Value r, st1)" and "ks_client_set st = None"
  shows "\<exists>c. kube_get_config lib st = Value c \<and> kube_get_config lib' st1 = Value c"
  using assms(1) by (rule get_kube_client_Value) (use assms(2) in \<open>simp_all add: kube_get_config_def\<close>)

text \<open>A failed \<^verbatim>\<open>NewForConfig\<close> ends the process with the configuration stored.\<close>

lemma get_kube_client_fatal:
  assumes "ks_client_set st = None" and "kube_get_config lib st = Value c" and "kl_new_for_config lib c = Inl e"
  shows "get_kube_client lib st = (FatalExit e, st\<lparr>ks_config := Some c\<rparr>)"
  using assms by (simp add: get_kube_client_def init_kube_config_def)

lemma init_flags_ignores_flagset: "kube_init_flags join home fs = kube_init_flags join home fs'"
  by (intro ext) (simp add: kube_init_flags_def)

lemma init_flags_twice_panics:
  assumes "kube_init_flags join home fs st = Value st1"
  shows "\<exists>e. kube_init_flags join home fs' st1 = PanicsWith e"
proof -
  have "ks_flags st1 = ks_flags st @ [''kubeconfig'']"
    using assms by (auto simp: kube_init_flags_def command_line_string_var_def split: if_splits)
  then have "string_slice_contains ''kubeconfig'' (ks_flags st1)"
    by (simp add: string_slice_contains_iff)
  then show ?thesis by (simp add: kube_init_flags_def command_line_string_var_def)
qed

section \<open>The client set\<close>

text \<open>
  \<^verbatim>\<open>rest.Config\<close>, the parts the code reads or writes: \<open>'q\<close> is \<^verbatim>\<open>float32\<close>, \<open>'lim\<close> a rate limiter, \<open>'o\<close> the
  rest.  A configuration is passed by pointer and copied first, so the caller's is not changed.
\<close>

record ('q, 'lim, 'o) rest_config =
  rg_rate_limiter :: "'lim option"
  rg_qps :: 'q
  rg_burst :: int
  rg_group_version :: "group_version option"
  rg_api_path :: string
  rg_user_agent :: string
  rg_negotiated_serializer :: bool
  rg_other :: 'o

record ('rest, 'disc) client_set =
  cl_rusi :: "'rest option"
  cl_discovery :: "'disc option"

record ('q, 'lim, 'o, 'rest, 'disc) client_library =
  ll_rest_client_for :: "('q, 'lim, 'o) rest_config \<Rightarrow> error + 'rest"
  ll_discovery_for_config :: "('q, 'lim, 'o) rest_config \<Rightarrow> error + 'disc"
  ll_token_bucket :: "'q \<Rightarrow> int \<Rightarrow> 'lim"
  ll_default_user_agent :: string

definition set_config_defaults :: "('q, 'lim, 'o, 'rest, 'disc) client_library \<Rightarrow> ('q, 'lim, 'o) rest_config
    \<Rightarrow> ('q, 'lim, 'o) rest_config" where
  "set_config_defaults lib config =
     (let config1 = config\<lparr>rg_group_version := Some scheme_group_version, rg_api_path := ''/apis'',
                           rg_negotiated_serializer := True\<rparr>
      in if rg_user_agent config1 = [] then config1\<lparr>rg_user_agent := ll_default_user_agent lib\<rparr> else config1)"

definition rusi_client_for_config :: "('q, 'lim, 'o, 'rest, 'disc) client_library \<Rightarrow> ('q, 'lim, 'o) rest_config
    \<Rightarrow> error + 'rest" where
  "rusi_client_for_config lib c = ll_rest_client_for lib (set_config_defaults lib c)"

definition rusi_client_for_config_or_die :: "('q, 'lim, 'o, 'rest, 'disc) client_library \<Rightarrow> ('q, 'lim, 'o) rest_config
    \<Rightarrow> 'rest attempt" where
  "rusi_client_for_config_or_die lib c =
     (case rusi_client_for_config lib c of Inl e \<Rightarrow> PanicsWith e | Inr r \<Rightarrow> Value r)"

text \<open>\<^verbatim>\<open>RESTClient\<close> is nil for a nil client.\<close>

definition rusi_rest_client :: "'rest option \<Rightarrow> 'rest option" where
  "rusi_rest_client c = (case c of None \<Rightarrow> None | Some r \<Rightarrow> Some r)"

definition burst_required :: string where
  "burst_required = ''burst is required to be greater than 0 when RateLimiter is not set and QPS is set to greater than 0''"

definition clientset_for_config :: "('q::{zero,ord}, 'lim, 'o, 'rest, 'disc) client_library \<Rightarrow> ('q, 'lim, 'o) rest_config
    \<Rightarrow> error + ('rest, 'disc) client_set" where
  "clientset_for_config lib c =
     try_then
       (if rg_rate_limiter c = None \<and> 0 < rg_qps c then
          (if rg_burst c \<le> 0 then Inl (ErrText burst_required)
           else Inr (c\<lparr>rg_rate_limiter := Some (ll_token_bucket lib (rg_qps c) (rg_burst c))\<rparr>))
        else Inr c)
       (\<lambda>copy. try_then (rusi_client_for_config lib copy)
          (\<lambda>r. try_then (ll_discovery_for_config lib copy)
             (\<lambda>d. Inr \<lparr>cl_rusi = Some r, cl_discovery = Some d\<rparr>)))"

text \<open>The constructors that panic, which set no rate limiter, and those from a REST client (\<open>discovery\<close> is the library's).\<close>

definition clientset_for_config_or_die :: "('q, 'lim, 'o, 'rest, 'disc) client_library \<Rightarrow> ('q, 'lim, 'o) rest_config
    \<Rightarrow> ('rest, 'disc) client_set attempt" where
  "clientset_for_config_or_die lib c =
     (case rusi_client_for_config_or_die lib c of
        PanicsWith e \<Rightarrow> PanicsWith e
      | FatalExit e \<Rightarrow> FatalExit e
      | Value r \<Rightarrow>
          (case ll_discovery_for_config lib c of
             Inl e \<Rightarrow> PanicsWith e
           | Inr d \<Rightarrow> Value \<lparr>cl_rusi = Some r, cl_discovery = Some d\<rparr>))"

definition rusi_client_new :: "'rest \<Rightarrow> 'rest" where
  "rusi_client_new c = c"

definition clientset_new :: "('rest \<Rightarrow> 'disc) \<Rightarrow> 'rest \<Rightarrow> ('rest, 'disc) client_set" where
  "clientset_new discovery c = \<lparr>cl_rusi = Some (rusi_client_new c), cl_discovery = Some (discovery c)\<rparr>"

text \<open>With a rate limiter, or without a positive rate, the two constructors agree up to panics.\<close>

lemma clientset_or_die_agrees:
  assumes "rg_rate_limiter c \<noteq> None \<or> \<not> 0 < rg_qps c"
  shows "clientset_for_config_or_die lib c =
    (case clientset_for_config lib c of Inl e \<Rightarrow> PanicsWith e | Inr cs \<Rightarrow> Value cs)"
  using assms
  by (auto simp: clientset_for_config_or_die_def clientset_for_config_def rusi_client_for_config_or_die_def
      split: sum.split attempt.split)

text \<open>The accessors: a nil \<^verbatim>\<open>*Clientset\<close> has no discovery client, and reading its typed client is a nil dereference.\<close>

definition clientset_discovery :: "('rest, 'disc) client_set option \<Rightarrow> 'disc option" where
  "clientset_discovery c = (case c of None \<Rightarrow> None | Some cs \<Rightarrow> cl_discovery cs)"

definition nil_pointer :: string where
  "nil_pointer = ''invalid memory address or nil pointer dereference''"

definition clientset_rusi :: "('rest, 'disc) client_set option \<Rightarrow> 'rest option outcome" where
  "clientset_rusi c = (case c of None \<Rightarrow> Panics nil_pointer | Some cs \<Rightarrow> Returns (cl_rusi cs))"

text \<open>Both clients of a set share one rate limiter, and speak to the group and version of the custom resources.\<close>

lemma defaults_keep_limiter: "rg_rate_limiter (set_config_defaults lib c) = rg_rate_limiter c"
  by (simp add: set_config_defaults_def Let_def)

lemma clientset_for_config_ok:
  assumes "clientset_for_config lib c = Inr cs"
  shows "\<exists>copy r d. cs = \<lparr>cl_rusi = Some r, cl_discovery = Some d\<rparr>
    \<and> ll_rest_client_for lib (set_config_defaults lib copy) = Inr r \<and> ll_discovery_for_config lib copy = Inr d
    \<and> rg_rate_limiter (set_config_defaults lib copy) = rg_rate_limiter copy
    \<and> (rg_rate_limiter c \<noteq> None \<longrightarrow> copy = c) \<and> (0 < rg_qps c \<longrightarrow> rg_rate_limiter copy \<noteq> None)"
proof -
  from assms obtain copy r d where copy: "(if rg_rate_limiter c = None \<and> 0 < rg_qps c then
      (if rg_burst c \<le> 0 then Inl (ErrText burst_required)
       else Inr (c\<lparr>rg_rate_limiter := Some (ll_token_bucket lib (rg_qps c) (rg_burst c))\<rparr>)) else Inr c) = Inr copy"
    and "rusi_client_for_config lib copy = Inr r" "ll_discovery_for_config lib copy = Inr d"
    and "cs = \<lparr>cl_rusi = Some r, cl_discovery = Some d\<rparr>"
    unfolding clientset_for_config_def try_then_Inr by blast
  moreover have "rg_rate_limiter c \<noteq> None \<longrightarrow> copy = c" "0 < rg_qps c \<longrightarrow> rg_rate_limiter copy \<noteq> None"
    using copy by (auto split: if_splits)
  ultimately show ?thesis unfolding rusi_client_for_config_def defaults_keep_limiter by blast
qed

lemma clientset_burst_error:
  "rg_rate_limiter c = None \<Longrightarrow> 0 < rg_qps c \<Longrightarrow> rg_burst c \<le> 0 \<Longrightarrow> clientset_for_config lib c = Inl (ErrText burst_required)"
  by (simp add: clientset_for_config_def)

end
