(* ===== verification/Informers.thy ===== *)
theory Informers
  imports Listers Kube_Client
begin

text \<open>
  The shared informers of the operator (\<^verbatim>\<open>pkg/operator/client/informers/externalversions\<close>) and what
  \<^verbatim>\<open>operator.Run\<close> does with them.  An informer is a pointer: a position in the list of all informers that
  were made.  \<^verbatim>\<open>cache.NewSharedIndexInformer\<close> keeps its arguments; \<^verbatim>\<open>Run\<close> and \<^verbatim>\<open>AddEventHandler\<close> are
  recorded in the informer.
\<close>

section \<open>Informers\<close>

text \<open>\<^verbatim>\<open>reflect.Type\<close> of a pointer.\<close>

datatype object_type = TypeOf kind | OtherType string

type_synonym 'l tweak = "('l list_options \<Rightarrow> 'l list_options) option"

record ('cl, 'l) informer =
  in_kind :: kind
  in_client :: 'cl
  in_namespace :: string
  in_tweak :: "'l tweak"
  in_resync :: int
  in_indexers :: "string list"
  in_handlers :: "kind list"
  in_runs :: nat

definition new_filtered_informer :: "kind \<Rightarrow> 'cl \<Rightarrow> string \<Rightarrow> int \<Rightarrow> string list \<Rightarrow> 'l tweak \<Rightarrow> ('cl, 'l) informer" where
  "new_filtered_informer k client ns resync indexers tweak =
     \<lparr>in_kind = k, in_client = client, in_namespace = ns, in_tweak = tweak, in_resync = resync, in_indexers = indexers,
      in_handlers = [], in_runs = 0\<rparr>"

definition new_informer :: "kind \<Rightarrow> 'cl \<Rightarrow> string \<Rightarrow> int \<Rightarrow> string list \<Rightarrow> ('cl, 'l) informer" where
  "new_informer k client ns resync indexers = new_filtered_informer k client ns resync indexers None"

section \<open>The factory\<close>

record ('cl, 'l) informer_factory =
  fa_client :: 'cl
  fa_namespace :: string
  fa_tweak :: "'l tweak"
  fa_default_resync :: int
  fa_custom_resync :: "(object_type, int) fmap"
  fa_informers :: "(object_type, nat) fmap"
  fa_started :: "(object_type, bool) fmap"

record ('cl, 'l) informer_state =
  is_factory :: "('cl, 'l) informer_factory"
  is_heap :: "('cl, 'l) informer list"

text \<open>The options; a resync configuration is the list of its entries in the order of the map's range.\<close>

datatype 'l informer_option =
    WithCustomResyncConfig "(object_type \<times> int) list"
  | WithTweakListOptions "'l tweak"
  | WithNamespace string

fun with_custom_resync_config :: "(object_type \<times> int) list \<Rightarrow> ('cl, 'l) informer_factory \<Rightarrow> ('cl, 'l) informer_factory" where
  "with_custom_resync_config [] factory = factory"
| "with_custom_resync_config ((k, v) # rest) factory =
     with_custom_resync_config rest (factory\<lparr>fa_custom_resync := fmupd k v (fa_custom_resync factory)\<rparr>)"

definition with_tweak_list_options :: "'l tweak \<Rightarrow> ('cl, 'l) informer_factory \<Rightarrow> ('cl, 'l) informer_factory" where
  "with_tweak_list_options tweak factory = factory\<lparr>fa_tweak := tweak\<rparr>"

definition with_namespace :: "string \<Rightarrow> ('cl, 'l) informer_factory \<Rightarrow> ('cl, 'l) informer_factory" where
  "with_namespace ns factory = factory\<lparr>fa_namespace := ns\<rparr>"

fun apply_option :: "'l informer_option \<Rightarrow> ('cl, 'l) informer_factory \<Rightarrow> ('cl, 'l) informer_factory" where
  "apply_option (WithCustomResyncConfig c) = with_custom_resync_config c"
| "apply_option (WithTweakListOptions t) = with_tweak_list_options t"
| "apply_option (WithNamespace ns) = with_namespace ns"

definition namespace_all :: string where
  "namespace_all = []"

definition new_factory_with_options :: "'cl \<Rightarrow> int \<Rightarrow> 'l informer_option list \<Rightarrow> ('cl, 'l) informer_factory" where
  "new_factory_with_options client resync options =
     fold apply_option options
       \<lparr>fa_client = client, fa_namespace = namespace_all, fa_tweak = None, fa_default_resync = resync,
        fa_custom_resync = fmempty, fa_informers = fmempty, fa_started = fmempty\<rparr>"

definition new_shared_informer_factory :: "'cl \<Rightarrow> int \<Rightarrow> ('cl, 'l) informer_factory" where
  "new_shared_informer_factory client resync = new_factory_with_options client resync []"

definition new_filtered_factory :: "'cl \<Rightarrow> int \<Rightarrow> string \<Rightarrow> 'l tweak \<Rightarrow> ('cl, 'l) informer_factory" where
  "new_filtered_factory client resync ns tweak =
     new_factory_with_options client resync [WithNamespace ns, WithTweakListOptions tweak]"

text \<open>\<^verbatim>\<open>InformerFor\<close>, under the lock of the factory.\<close>

definition informer_for :: "object_type \<Rightarrow> ('cl \<Rightarrow> int \<Rightarrow> ('cl, 'l) informer) \<Rightarrow> ('cl, 'l) informer_state
    \<Rightarrow> nat \<times> ('cl, 'l) informer_state" where
  "informer_for t new_func st =
     (let f = is_factory st
      in case fmlookup (fa_informers f) t of
           Some p \<Rightarrow> (p, st)
         | None \<Rightarrow>
             (let resync = (case fmlookup (fa_custom_resync f) t of None \<Rightarrow> fa_default_resync f | Some d \<Rightarrow> d);
                  p = length (is_heap st)
              in (p, st\<lparr>is_heap := is_heap st @ [new_func (fa_client f) resync],
                        is_factory := f\<lparr>fa_informers := fmupd t p (fa_informers f)\<rparr>\<rparr>)))"

text \<open>\<^verbatim>\<open>Start\<close>, with the order in which the range visits the informers.\<close>

definition go_run :: "nat \<Rightarrow> ('cl, 'l) informer_state \<Rightarrow> ('cl, 'l) informer_state" where
  "go_run p st = st\<lparr>is_heap := (is_heap st)[p := (is_heap st ! p)\<lparr>in_runs := Suc (in_runs (is_heap st ! p))\<rparr>]\<rparr>"

fun start_loop :: "object_type list \<Rightarrow> ('cl, 'l) informer_state \<Rightarrow> ('cl, 'l) informer_state" where
  "start_loop [] st = st"
| "start_loop (t # ts) st =
     (if fmlookup (fa_started (is_factory st)) t = Some True then start_loop ts st
      else
        let st1 = go_run (the (fmlookup (fa_informers (is_factory st)) t)) st
        in start_loop ts (st1\<lparr>is_factory := (is_factory st1)\<lparr>fa_started := fmupd t True (fa_started (is_factory st1))\<rparr>\<rparr>))"

definition factory_start :: "object_type list \<Rightarrow> ('cl, 'l) informer_state \<Rightarrow> ('cl, 'l) informer_state" where
  "factory_start = start_loop"

text \<open>\<open>wait\<close> is \<^verbatim>\<open>cache.WaitForCacheSync\<close> on the informer.\<close>

fun wait_loop :: "(nat \<Rightarrow> bool) \<Rightarrow> object_type list \<Rightarrow> ('cl, 'l) informer_factory \<Rightarrow> (object_type, bool) fmap
    \<Rightarrow> (object_type, bool) fmap" where
  "wait_loop wait [] f res = res"
| "wait_loop wait (t # ts) f res =
     wait_loop wait ts f
       (if fmlookup (fa_started f) t = Some True then fmupd t (wait (the (fmlookup (fa_informers f) t))) res else res)"

definition wait_for_cache_sync :: "(nat \<Rightarrow> bool) \<Rightarrow> object_type list \<Rightarrow> ('cl, 'l) informer_state \<Rightarrow> (object_type, bool) fmap" where
  "wait_for_cache_sync wait ts st = wait_loop wait ts (is_factory st) fmempty"

section \<open>Access by group, version and kind\<close>

text \<open>The structs \<^verbatim>\<open>group\<close>, \<^verbatim>\<open>version\<close>, \<^verbatim>\<open>componentInformer\<close> and \<^verbatim>\<open>configurationInformer\<close> have the same fields.\<close>

record 'l accessor =
  ac_namespace :: string
  ac_tweak :: "'l tweak"

definition group_new :: "string \<Rightarrow> 'l tweak \<Rightarrow> 'l accessor" where
  "group_new ns tweak = \<lparr>ac_namespace = ns, ac_tweak = tweak\<rparr>"

definition version_new :: "string \<Rightarrow> 'l tweak \<Rightarrow> 'l accessor" where
  "version_new ns tweak = \<lparr>ac_namespace = ns, ac_tweak = tweak\<rparr>"

definition factory_rusi :: "('cl, 'l) informer_factory \<Rightarrow> 'l accessor" where
  "factory_rusi f = group_new (fa_namespace f) (fa_tweak f)"

definition group_v1alpha1 :: "'l accessor \<Rightarrow> 'l accessor" where
  "group_v1alpha1 g = version_new (ac_namespace g) (ac_tweak g)"

definition version_components :: "'l accessor \<Rightarrow> 'l accessor" where
  "version_components v = \<lparr>ac_namespace = ac_namespace v, ac_tweak = ac_tweak v\<rparr>"

definition version_configurations :: "'l accessor \<Rightarrow> 'l accessor" where
  "version_configurations v = \<lparr>ac_namespace = ac_namespace v, ac_tweak = ac_tweak v\<rparr>"

definition default_informer :: "kind \<Rightarrow> 'l accessor \<Rightarrow> 'cl \<Rightarrow> int \<Rightarrow> ('cl, 'l) informer" where
  "default_informer k f client resync = new_filtered_informer k client (ac_namespace f) resync [''namespace''] (ac_tweak f)"

definition accessor_informer :: "kind \<Rightarrow> 'l accessor \<Rightarrow> ('cl, 'l) informer_state \<Rightarrow> nat \<times> ('cl, 'l) informer_state" where
  "accessor_informer k f st = informer_for (TypeOf k) (default_informer k f) st"

text \<open>A lister is made of the indexer of the informer (\<open>indexer_of\<close>).\<close>

definition accessor_lister :: "(nat \<Rightarrow> 'i) \<Rightarrow> kind \<Rightarrow> 'l accessor \<Rightarrow> ('cl, 'l) informer_state \<Rightarrow> 'i \<times> ('cl, 'l) informer_state" where
  "accessor_lister indexer_of k f st = (case accessor_informer k f st of (p, st1) \<Rightarrow> (indexer_of p, st1))"

text \<open>\<open>show\<close> is the text \<^verbatim>\<open>%v\<close> makes of a resource.\<close>

definition for_resource :: "(group_version_resource \<Rightarrow> string) \<Rightarrow> group_version_resource \<Rightarrow> ('cl, 'l) informer_state
    \<Rightarrow> (error + ((string \<times> string) \<times> nat)) \<times> ('cl, 'l) informer_state" where
  "for_resource show_resource res st =
     (let v = group_v1alpha1 (factory_rusi (is_factory st))
      in if res = with_resource scheme_group_version ''components'' then
           (case accessor_informer KComponent (version_components v) st of (p, st1) \<Rightarrow> (Inr (group_resource res, p), st1))
         else if res = with_resource scheme_group_version ''configurations'' then
           (case accessor_informer KConfiguration (version_configurations v) st of (p, st1) \<Rightarrow> (Inr (group_resource res, p), st1))
         else (Inl (ErrText (''no informer found for '' @ show_resource res)), st))"

text \<open>The informers of configurations.\<close>

definition new_configuration_informer where "new_configuration_informer = new_informer KConfiguration"
definition new_filtered_configuration_informer where
  "new_filtered_configuration_informer = new_filtered_informer KConfiguration"
definition configuration_default_informer where "configuration_default_informer = default_informer KConfiguration"
definition configuration_informer where "configuration_informer = accessor_informer KConfiguration"
definition configuration_lister where "configuration_lister indexer_of = accessor_lister indexer_of KConfiguration"

section \<open>What an informer asks the server\<close>

definition resource_plural :: "kind \<Rightarrow> string" where
  "resource_plural k = (case k of KComponent \<Rightarrow> ''components'' | KConfiguration \<Rightarrow> ''configurations'')"

text \<open>
  \<^verbatim>\<open>newComponents\<close> takes the REST client, which may be nil; the first call on a nil client panics.
\<close>

definition with_typed_client where
  "with_typed_client client ns call =
     (case clientset_rusi client of
        Panics e \<Rightarrow> Panics e
      | Returns c \<Rightarrow>
          (case rusi_rest_client c of
             None \<Rightarrow> Panics nil_pointer
           | Some rest \<Rightarrow> Returns (call \<lparr>tc_client = rest, tc_ns = ns\<rparr>)))"

definition tweaked :: "'l tweak \<Rightarrow> 'l list_options \<Rightarrow> 'l list_options" where
  "tweaked tweak options = (case tweak of None \<Rightarrow> options | Some f \<Rightarrow> f options)"

definition informer_list where
  "informer_list zero_list todo i options w =
     with_typed_client (in_client i) (in_namespace i)
       (\<lambda>c. typed_list (resource_plural (in_kind i)) zero_list c todo (tweaked (in_tweak i) options) w)"

definition informer_watch where
  "informer_watch todo i options w =
     with_typed_client (in_client i) (in_namespace i)
       (\<lambda>c. typed_watch (resource_plural (in_kind i)) c todo (tweaked (in_tweak i) options) w)"

section \<open>The events of the operator\<close>

text \<open>The event handlers of \<^verbatim>\<open>operator.go\<close> get values of any type.\<close>

datatype 'b raw_event =
    RawAdd "'b object raw_object"
  | RawUpdate "'b object raw_object" "'b object raw_object"
  | RawDelete "'b object raw_object"

fun handle_raw :: "kind \<Rightarrow> 'b raw_event \<Rightarrow> 'b object_watcher \<Rightarrow> 'b object_watcher outcome" where
  "handle_raw k (RawAdd r) ow = (case assert_kind k r of Panics e \<Rightarrow> Panics e | Returns x \<Rightarrow> Returns (store_object k x ow))"
| "handle_raw k (RawUpdate old r) ow =
     (case assert_kind k r of Panics e \<Rightarrow> Panics e | Returns x \<Rightarrow> Returns (store_object k x ow))"
| "handle_raw k (RawDelete r) ow = (case assert_kind k r of Panics e \<Rightarrow> Panics e | Returns x \<Rightarrow> Returns (delete_object k x ow))"

fun raw_of :: "kind \<Rightarrow> 'b informer_event \<Rightarrow> 'b raw_event" where
  "raw_of k (Added x) = RawAdd (RawObject k x)"
| "raw_of k (Updated old x) = RawUpdate (RawObject k old) (RawObject k x)"
| "raw_of k (Deleted x) = RawDelete (RawObject k x)"

text \<open>On the values of its own informer a handler is the one of the watcher; on the mark of a missed deletion it panics.\<close>

lemma handle_raw_of: "handle_raw k (raw_of k ev) ow = Returns (handle_event k ev ow)"
  by (cases ev) simp_all

lemma missed_deletion_panics: "handle_raw k (RawDelete (RawTombstone key)) ow = Panics type_assertion"
  by simp

section \<open>The operator's start\<close>

definition add_event_handler :: "nat \<Rightarrow> kind \<Rightarrow> ('cl, 'l) informer_state \<Rightarrow> ('cl, 'l) informer_state" where
  "add_event_handler p h st =
     st\<lparr>is_heap := (is_heap st)[p := (is_heap st ! p)\<lparr>in_handlers := in_handlers (is_heap st ! p) @ [h]\<rparr>]\<rparr>"

text \<open>\<^verbatim>\<open>startWatchingForComponents\<close> and \<^verbatim>\<open>startWatchingForConfigurations\<close>: the handlers themselves are \<^term>\<open>handle_raw k\<close>.\<close>

definition watch_components :: "('cl, 'l) informer_state \<Rightarrow> ('cl, 'l) informer_state" where
  "watch_components st =
     (case accessor_informer KComponent (version_components (group_v1alpha1 (factory_rusi (is_factory st)))) st of
        (p, st1) \<Rightarrow> add_event_handler p KComponent st1)"

definition watch_configurations :: "('cl, 'l) informer_state \<Rightarrow> ('cl, 'l) informer_state" where
  "watch_configurations st =
     (case accessor_informer KConfiguration (version_configurations (group_v1alpha1 (factory_rusi (is_factory st)))) st of
        (p, st1) \<Rightarrow> add_event_handler p KConfiguration st1)"

text \<open>The part of \<^verbatim>\<open>Run\<close> up to the informers' start: the error of \<^verbatim>\<open>NewForConfig\<close> is dropped, its client is then nil.\<close>

definition client_or_nil :: "error + 'a \<Rightarrow> 'a option" where
  "client_or_nil r = (case r of Inl _ \<Rightarrow> None | Inr c \<Rightarrow> Some c)"

definition start_informers :: "object_type list \<Rightarrow> 'cl \<Rightarrow> ('cl, 'l) informer_state" where
  "start_informers ts client =
     (let st = \<lparr>is_factory = new_shared_informer_factory client 0, is_heap = []\<rparr>;
          st1 = watch_configurations st;
          st2 = watch_components st1
      in factory_start ts st2)"

text \<open>\<open>listen\<close> and \<open>serve\<close> are the calls of the network and gRPC libraries; a fatal log ends the process.\<close>

definition operator_run where
  "operator_run kube lib listen serve ts st =
     (case kube_get_config kube st of
        PanicsWith e \<Rightarrow> (PanicsWith e, None)
      | FatalExit e \<Rightarrow> (FatalExit e, None)
      | Value cfg \<Rightarrow>
          (let client = client_or_nil (clientset_for_config lib cfg);
               ow = new_object_watcher;
               informers = start_informers ts client
           in case listen '':6500'' of
                Inl e \<Rightarrow> (FatalExit (ErrFmt ''error starting tcp listener: '' e), Some (ow, informers))
              | Inr lis \<Rightarrow>
                  (case serve lis of
                     Some e \<Rightarrow> (FatalExit (ErrFmt ''gRPC server error: '' e), Some (ow, informers))
                   | None \<Rightarrow> (Value (), Some (ow, informers)))))"

definition operator_main where
  "operator_main join home kube lib listen serve ts st =
     (case kube_init_flags join home (None :: unit option) st of
        PanicsWith e \<Rightarrow> (PanicsWith e, None)
      | FatalExit e \<Rightarrow> (FatalExit e, None)
      | Value st1 \<Rightarrow> operator_run kube lib listen serve ts st1)"

section \<open>One informer for each type\<close>

inductive factory_step :: "('cl, 'l) informer_state \<Rightarrow> ('cl, 'l) informer_state \<Rightarrow> bool" where
  informer: "factory_step st (snd (accessor_informer k f st))"
| handler: "p < length (is_heap st) \<Longrightarrow> factory_step st (add_event_handler p h st)"
| start: "enumerates ts (fa_informers (is_factory st)) \<Longrightarrow> factory_step st (factory_start ts st)"

definition fresh_factory :: "('cl, 'l) informer_state \<Rightarrow> bool" where
  "fresh_factory st \<longleftrightarrow> (\<exists>client resync options.
     st = \<lparr>is_factory = new_factory_with_options client resync options, is_heap = []\<rparr>)"

definition is_started :: "('cl, 'l) informer_state \<Rightarrow> object_type \<Rightarrow> bool" where
  "is_started st t \<longleftrightarrow> fmlookup (fa_started (is_factory st)) t = Some True"

text \<open>The informers of the factory are all there are, under their own type, and run once when they are started.\<close>

definition factory_inv :: "('cl, 'l) informer_state \<Rightarrow> bool" where
  "factory_inv st \<longleftrightarrow>
     (\<forall>t p. fmlookup (fa_informers (is_factory st)) t = Some p
        \<longleftrightarrow> p < length (is_heap st) \<and> t = TypeOf (in_kind (is_heap st ! p)))
     \<and> (\<forall>p<length (is_heap st). in_runs (is_heap st ! p) = (if is_started st (TypeOf (in_kind (is_heap st ! p))) then 1 else 0))
     \<and> (\<forall>t. fmlookup (fa_informers (is_factory st)) t = None \<longrightarrow> \<not> is_started st t)"

lemma factory_inv_informers:
  "factory_inv st \<Longrightarrow> fmlookup (fa_informers (is_factory st)) t = Some p
     \<longleftrightarrow> p < length (is_heap st) \<and> t = TypeOf (in_kind (is_heap st ! p))"
  by (simp add: factory_inv_def)

lemma factory_inv_runs:
  "factory_inv st \<Longrightarrow> p < length (is_heap st)
     \<Longrightarrow> in_runs (is_heap st ! p) = (if is_started st (TypeOf (in_kind (is_heap st ! p))) then 1 else 0)"
  by (simp add: factory_inv_def)

lemma factory_inv_started:
  "factory_inv st \<Longrightarrow> is_started st t \<Longrightarrow> fmlookup (fa_informers (is_factory st)) t \<noteq> None"
  unfolding factory_inv_def by blast

lemma factory_invI:
  assumes "\<And>t p. fmlookup (fa_informers (is_factory st)) t = Some p
      \<longleftrightarrow> p < length (is_heap st) \<and> t = TypeOf (in_kind (is_heap st ! p))"
    and "\<And>p. p < length (is_heap st)
      \<Longrightarrow> in_runs (is_heap st ! p) = (if is_started st (TypeOf (in_kind (is_heap st ! p))) then 1 else 0)"
    and "\<And>t. is_started st t \<Longrightarrow> fmlookup (fa_informers (is_factory st)) t \<noteq> None"
  shows "factory_inv st"
  unfolding factory_inv_def
proof (intro conjI allI impI)
  show "\<not> is_started st t" if "fmlookup (fa_informers (is_factory st)) t = None" for t
    using assms(3) that by blast
qed (fact assms(1), fact assms(2))

lemma custom_resync_keeps [simp]:
  "fa_informers (with_custom_resync_config c f) = fa_informers f"
  "fa_started (with_custom_resync_config c f) = fa_started f"
  by (induction c f rule: with_custom_resync_config.induct) simp_all

lemma apply_option_keeps [simp]:
  "fa_informers (apply_option opt f) = fa_informers f" "fa_started (apply_option opt f) = fa_started f"
  by (cases opt; simp add: with_tweak_list_options_def with_namespace_def)+

lemma fold_options_keep [simp]:
  "fa_informers (fold apply_option options f) = fa_informers f"
  "fa_started (fold apply_option options f) = fa_started f"
  by (induction options arbitrary: f) simp_all

lemma fresh_factory_inv: "fresh_factory st \<Longrightarrow> factory_inv st"
  by (auto simp: fresh_factory_def factory_inv_def is_started_def new_factory_with_options_def)

lemma informer_for_known:
  "fmlookup (fa_informers (is_factory st)) t = Some p \<Longrightarrow> informer_for t new_func st = (p, st)"
  by (simp add: informer_for_def)

lemma informer_for_registers:
  "informer_for t new_func st = (p, st1) \<Longrightarrow> fmlookup (fa_informers (is_factory st1)) t = Some p"
  by (auto simp: informer_for_def Let_def split: option.splits)

lemma accessor_informer_inv:
  assumes "factory_inv st"
  shows "factory_inv (snd (accessor_informer k f st))"
proof (cases "fmlookup (fa_informers (is_factory st)) (TypeOf k)")
  case None
  obtain resync where new: "accessor_informer k f st = (length (is_heap st),
      st\<lparr>is_heap := is_heap st @ [default_informer k f (fa_client (is_factory st)) resync],
         is_factory := (is_factory st)\<lparr>fa_informers := fmupd (TypeOf k) (length (is_heap st)) (fa_informers (is_factory st))\<rparr>\<rparr>)"
    by (simp add: accessor_informer_def informer_for_def None Let_def)
  have absent: "in_kind (is_heap st ! p) \<noteq> k" if "p < length (is_heap st)" for p
    using factory_inv_informers [OF assms, of "TypeOf k" p] None that by auto
  have idle: "\<not> is_started st (TypeOf k)" using factory_inv_started [OF assms, of "TypeOf k"] None by blast
  have informers: "fmlookup (fa_informers (is_factory (snd (accessor_informer k f st)))) t = Some p
      \<longleftrightarrow> p < length (is_heap (snd (accessor_informer k f st)))
        \<and> t = TypeOf (in_kind (is_heap (snd (accessor_informer k f st)) ! p))" for t p
    using factory_inv_informers [OF assms, of t p] absent
    by (auto simp: new nth_append less_Suc_eq default_informer_def new_filtered_informer_def)
  have runs: "in_runs (is_heap (snd (accessor_informer k f st)) ! p) =
      (if is_started (snd (accessor_informer k f st)) (TypeOf (in_kind (is_heap (snd (accessor_informer k f st)) ! p))) then 1 else 0)"
    if "p < length (is_heap (snd (accessor_informer k f st)))" for p
    using that idle factory_inv_runs [OF assms, of p]
    by (auto simp: new nth_append less_Suc_eq default_informer_def new_filtered_informer_def is_started_def)
  have started: "fmlookup (fa_informers (is_factory (snd (accessor_informer k f st)))) t \<noteq> None"
    if "is_started (snd (accessor_informer k f st)) t" for t
    using that factory_inv_started [OF assms, of t] by (auto simp: new is_started_def)
  show ?thesis by (rule factory_invI) (fact informers, fact runs, fact started)
qed (simp add: accessor_informer_def informer_for_known assms)

lemma add_event_handler_simps [simp]:
  "is_factory (add_event_handler p h st) = is_factory st"
  "length (is_heap (add_event_handler p h st)) = length (is_heap st)"
  "is_started (add_event_handler p h st) t \<longleftrightarrow> is_started st t"
  "p < length (is_heap st) \<Longrightarrow> in_kind (is_heap (add_event_handler p h st) ! q) = in_kind (is_heap st ! q)"
  "p < length (is_heap st) \<Longrightarrow> in_runs (is_heap (add_event_handler p h st) ! q) = in_runs (is_heap st ! q)"
  by (simp_all add: add_event_handler_def is_started_def nth_list_update)

lemma add_event_handler_inv: "factory_inv st \<Longrightarrow> p < length (is_heap st) \<Longrightarrow> factory_inv (add_event_handler p h st)"
  by (simp add: factory_inv_def)

definition start_one :: "object_type \<Rightarrow> nat \<Rightarrow> ('cl, 'l) informer_state \<Rightarrow> ('cl, 'l) informer_state" where
  "start_one t p st =
     (let st1 = go_run p st
      in st1\<lparr>is_factory := (is_factory st1)\<lparr>fa_started := fmupd t True (fa_started (is_factory st1))\<rparr>\<rparr>)"

lemma start_loop_step:
  "start_loop (t # ts) st =
     (if is_started st t then start_loop ts st
      else start_loop ts (start_one t (the (fmlookup (fa_informers (is_factory st)) t)) st))"
  by (simp add: is_started_def start_one_def Let_def)

lemma start_one_simps [simp]:
  "fa_informers (is_factory (start_one t p st)) = fa_informers (is_factory st)"
  "length (is_heap (start_one t p st)) = length (is_heap st)"
  "is_started (start_one t p st) u \<longleftrightarrow> u = t \<or> is_started st u"
  "p < length (is_heap st) \<Longrightarrow> in_kind (is_heap (start_one t p st) ! q) = in_kind (is_heap st ! q)"
  "p < length (is_heap st) \<Longrightarrow>
     in_runs (is_heap (start_one t p st) ! q) = (if q = p then Suc (in_runs (is_heap st ! q)) else in_runs (is_heap st ! q))"
  by (auto simp: start_one_def go_run_def is_started_def nth_list_update)

lemma start_one_inv:
  assumes "factory_inv st" and "fmlookup (fa_informers (is_factory st)) t = Some p" and "\<not> is_started st t"
  shows "factory_inv (start_one t p st)"
proof -
  have p: "p < length (is_heap st)" "t = TypeOf (in_kind (is_heap st ! p))"
    using factory_inv_informers [OF assms(1), of t p] assms(2) by auto
  have same: "q = p" if "q < length (is_heap st)" "in_kind (is_heap st ! q) = in_kind (is_heap st ! p)" for q
    using factory_inv_informers [OF assms(1), of t q] that p assms(2) by simp
  have informers: "fmlookup (fa_informers (is_factory (start_one t p st))) u = Some q
      \<longleftrightarrow> q < length (is_heap (start_one t p st)) \<and> u = TypeOf (in_kind (is_heap (start_one t p st) ! q))" for u q
    using factory_inv_informers [OF assms(1), of u q] p by simp
  have runs: "in_runs (is_heap (start_one t p st) ! q) =
      (if is_started (start_one t p st) (TypeOf (in_kind (is_heap (start_one t p st) ! q))) then 1 else 0)"
    if "q < length (is_heap (start_one t p st))" for q
    using factory_inv_runs [OF assms(1), of q] that same [of q] p assms(3) by auto
  have started: "fmlookup (fa_informers (is_factory (start_one t p st))) u \<noteq> None"
    if "is_started (start_one t p st) u" for u
    using that factory_inv_started [OF assms(1), of u] assms(2) by auto
  show ?thesis by (rule factory_invI) (fact informers, fact runs, fact started)
qed

lemma start_loop_inv:
  assumes "factory_inv st" and "\<forall>t\<in>set ts. fmlookup (fa_informers (is_factory st)) t \<noteq> None"
  shows "factory_inv (start_loop ts st)
    \<and> fa_informers (is_factory (start_loop ts st)) = fa_informers (is_factory st)
    \<and> (\<forall>t. is_started (start_loop ts st) t \<longleftrightarrow> t \<in> set ts \<or> is_started st t)"
  using assms
proof (induction ts arbitrary: st)
  case (Cons t ts)
  obtain p where p: "fmlookup (fa_informers (is_factory st)) t = Some p" using Cons.prems(2) by auto
  show ?case
  proof (cases "is_started st t")
    case True
    with Cons show ?thesis by (auto simp only: start_loop_step if_True list.set insert_iff)
  next
    case False
    from Cons.IH [OF start_one_inv [OF Cons.prems(1) p False]] Cons.prems(2) False p show ?thesis
      by (auto simp only: start_loop_step if_False option.sel start_one_simps list.set insert_iff)
  qed
qed simp

lemma factory_start_inv:
  assumes "factory_inv st" and "enumerates ts (fa_informers (is_factory st))"
  shows "factory_inv (factory_start ts st)"
  using start_loop_inv [OF assms(1), of ts] enumerates_mem [OF assms(2)] by (simp add: factory_start_def)

lemma factory_step_inv: "factory_inv st \<Longrightarrow> factory_step st st' \<Longrightarrow> factory_inv st'"
  by (erule factory_step.cases)
    (simp_all only: accessor_informer_inv add_event_handler_inv factory_start_inv)

interpretation informer_factory: invariant_system factory_step factory_inv fresh_factory
  by unfold_locales (fact factory_step_inv, fact fresh_factory_inv)

lemma all_started_once:
  assumes "factory_inv st" and "enumerates ts (fa_informers (is_factory st))" and "p < length (is_heap (factory_start ts st))"
  shows "in_runs (is_heap (factory_start ts st) ! p) = 1"
proof -
  note loop = start_loop_inv [OF assms(1), of ts, folded factory_start_def]
  have known: "\<forall>t\<in>set ts. fmlookup (fa_informers (is_factory st)) t \<noteq> None"
    using enumerates_mem [OF assms(2)] by blast
  have inv: "factory_inv (factory_start ts st)" using loop known by blast
  let ?t = "TypeOf (in_kind (is_heap (factory_start ts st) ! p))"
  have "fmlookup (fa_informers (is_factory st)) ?t = Some p"
    using factory_inv_informers [OF inv, of ?t p] assms(3) loop known by auto
  then have "is_started (factory_start ts st) ?t"
    using loop known enumerates_mem [OF assms(2), of ?t] by auto
  with factory_inv_runs [OF inv assms(3)] show ?thesis by simp
qed

text \<open>Once a type has an informer it keeps it.\<close>

definition registered :: "object_type \<Rightarrow> nat \<Rightarrow> ('cl, 'l) informer_state \<Rightarrow> bool" where
  "registered t p st \<longleftrightarrow> fmlookup (fa_informers (is_factory st)) t = Some p"

lemma start_loop_informers [simp]: "fa_informers (is_factory (start_loop ts st)) = fa_informers (is_factory st)"
  by (induction ts arbitrary: st) (simp_all add: start_loop_step del: start_loop.simps(2))

lemma registered_step: "registered t p st \<Longrightarrow> factory_step st st' \<Longrightarrow> registered t p st'"
  by (erule factory_step.cases)
    (auto simp: registered_def accessor_informer_def informer_for_def factory_start_def Let_def split: option.split)

interpretation registration: preserved factory_step "registered t p" for t p
  by unfold_locales (fact registered_step)

lemma accessor_informer_registers: "registered (TypeOf k) (fst (accessor_informer k f st)) (snd (accessor_informer k f st))"
  unfolding registered_def accessor_informer_def by (rule informer_for_registers [OF surjective_pairing])

lemma registered_accessor: "registered (TypeOf k) p st \<Longrightarrow> fst (accessor_informer k f st) = p"
  by (simp add: registered_def accessor_informer_def informer_for_known)

section \<open>The operator's informers\<close>

lemma enumerates_two:
  assumes "enumerates ts m" and "\<And>t. fmlookup m t \<noteq> None \<longleftrightarrow> t = a \<or> t = b" and "a \<noteq> b"
  shows "ts = [a, b] \<or> ts = [b, a]"
proof -
  have s: "set ts = {a, b}" using enumerates_mem [OF assms(1)] assms(2) by blast
  have d: "distinct ts" by (rule enumerates_distinct [OF assms(1)])
  from distinct_card [OF d] s assms(3) have "length ts = 2" by simp
  then obtain x y where "ts = [x, y]" by (auto simp: numeral_2_eq_2 length_Suc_conv)
  with s d show ?thesis by (auto simp: doubleton_eq_iff)
qed

definition operator_informer :: "kind \<Rightarrow> 'cl \<Rightarrow> ('cl, 'l) informer" where
  "operator_informer k client =
     \<lparr>in_kind = k, in_client = client, in_namespace = namespace_all, in_tweak = None, in_resync = 0,
      in_indexers = [''namespace''], in_handlers = [k], in_runs = 1\<rparr>"

definition operator_informers_made :: "(object_type, nat) fmap" where
  "operator_informers_made = fmupd (TypeOf KComponent) 1 (fmupd (TypeOf KConfiguration) 0 fmempty)"

lemmas operator_start_defs = start_informers_def watch_components_def watch_configurations_def accessor_informer_def
  informer_for_def add_event_handler_def new_shared_informer_factory_def new_factory_with_options_def
  default_informer_def new_filtered_informer_def version_components_def version_configurations_def
  group_v1alpha1_def factory_rusi_def group_new_def version_new_def

text \<open>The operator runs one informer for each type, over all namespaces, with the handler of that type.\<close>

theorem operator_starts_both_informers:
  assumes "enumerates ts operator_informers_made"
  shows "is_heap (start_informers ts client) = [operator_informer KConfiguration client, operator_informer KComponent client]"
proof -
  have "ts = [TypeOf KComponent, TypeOf KConfiguration] \<or> ts = [TypeOf KConfiguration, TypeOf KComponent]"
    by (rule enumerates_two [OF assms]) (auto simp: operator_informers_made_def)
  then show ?thesis
    by (elim disjE) (simp_all add: operator_start_defs factory_start_def go_run_def operator_informer_def)
qed

text \<open>
  When the configuration is refused, \<^verbatim>\<open>Run\<close> goes on with a nil client, and the first thing its informers do
  is a nil dereference; with a client they list their resource in all namespaces.
\<close>

theorem refused_config_panics_informers:
  assumes "enumerates ts operator_informers_made" and "clientset_for_config lib cfg = Inl e"
  shows "\<forall>i\<in>set (is_heap (start_informers ts (client_or_nil (clientset_for_config lib cfg)))).
    informer_list zero_list todo i options w = Panics nil_pointer
    \<and> informer_watch todo i options w = Panics nil_pointer"
  unfolding operator_starts_both_informers [OF assms(1)]
  by (simp add: assms(2) operator_informer_def client_or_nil_def informer_list_def informer_watch_def
      with_typed_client_def clientset_rusi_def)

theorem accepted_config_lists_everything:
  assumes "clientset_for_config lib cfg = Inr cs"
  shows "\<exists>rest. cl_rusi cs = Some rest
    \<and> informer_list zero_list todo (operator_informer k (client_or_nil (clientset_for_config lib cfg))) options w =
        Returns (typed_list (resource_plural k) zero_list \<lparr>tc_client = rest, tc_ns = []\<rparr> todo options w)"
  using clientset_for_config_ok [OF assms]
  by (auto simp: assms operator_informer_def client_or_nil_def informer_list_def with_typed_client_def clientset_rusi_def
      rusi_rest_client_def tweaked_def namespace_all_def)

section \<open>Properties\<close>

text \<open>C32: whatever its options, and whatever was asked for, handled and started before in any order, a factory
  has one informer for each type: every later request for the type returns the same one, the two types have
  different ones, no informer is ever run twice, and after Start each has been run exactly once.\<close>

theorem factory_runs_each_informer_once:
  assumes "reachable fresh_factory factory_step st" and "accessor_informer k f st = (p, st1)"
    and "factory_step\<^sup>*\<^sup>* st1 st2" and "enumerates ts (fa_informers (is_factory st2))"
  shows "fst (accessor_informer k g st2) = p \<and> in_kind (is_heap st2 ! p) = k
    \<and> (\<forall>q<length (is_heap st2). in_runs (is_heap st2 ! q) \<le> 1 \<and> (in_kind (is_heap st2 ! q) = k \<longrightarrow> q = p))
    \<and> (\<forall>q<length (is_heap (factory_start ts st2)). in_runs (is_heap (factory_start ts st2) ! q) = 1)"
proof -
  have "factory_inv st" by (rule informer_factory.inv_reachable [OF assms(1)])
  from accessor_informer_inv [OF this, of k f] assms(2) have "factory_inv st1" by simp
  with assms(3) have inv: "factory_inv st2" by (rule informer_factory.inv_steps)
  from accessor_informer_registers [of k f st] assms(2) have "registered (TypeOf k) p st1" by simp
  with assms(3) have reg: "registered (TypeOf k) p st2" by (rule registration.inv_steps)
  have kind: "p < length (is_heap st2) \<and> in_kind (is_heap st2 ! p) = k"
    using factory_inv_informers [OF inv, of "TypeOf k" p] reg by (simp add: registered_def)
  have only: "q = p" if "q < length (is_heap st2)" "in_kind (is_heap st2 ! q) = k" for q
    using factory_inv_informers [OF inv, of "TypeOf k" q] reg that by (simp add: registered_def)
  have runs: "in_runs (is_heap st2 ! q) \<le> 1" if "q < length (is_heap st2)" for q
    using factory_inv_runs [OF inv that] by simp
  show ?thesis
    using registered_accessor [OF reg, of g] kind only runs all_started_once [OF inv assms(4)] by blast
qed

section \<open>Witness\<close>

definition sample_accessor :: "unit accessor" where
  "sample_accessor = group_new ''rusi'' None"

definition sample_informer_state :: "(unit, unit) informer_state" where
  "sample_informer_state = \<lparr>is_factory = new_factory_with_options () 30 [WithNamespace ''rusi''], is_heap = []\<rparr>"

lemma sample_informer_state_reachable: "reachable fresh_factory factory_step sample_informer_state"
  by (rule reachable_init) (auto simp: sample_informer_state_def fresh_factory_def)

theorem factory_runs_each_informer_once_witness:
  "case accessor_informer KComponent sample_accessor sample_informer_state of (p, st1) \<Rightarrow>
     \<forall>q<length (is_heap (factory_start [TypeOf KComponent] (factory_start [TypeOf KComponent] st1))).
       in_runs (is_heap (factory_start [TypeOf KComponent] (factory_start [TypeOf KComponent] st1)) ! q) = 1"
proof -
  obtain p st1 where use: "accessor_informer KComponent sample_accessor sample_informer_state = (p, st1)" by (rule prod.exhaust)
  have order: "enumerates [TypeOf KComponent] (fa_informers (is_factory st1))"
    using use by (auto simp: enumerates_def accessor_informer_def informer_for_def sample_informer_state_def
        new_factory_with_options_def with_namespace_def Let_def)
  have order2: "enumerates [TypeOf KComponent] (fa_informers (is_factory (factory_start [TypeOf KComponent] st1)))"
    using order by (simp only: factory_start_def start_loop_informers)
  have "factory_step\<^sup>*\<^sup>* st1 (factory_start [TypeOf KComponent] st1)"
    by (rule r_into_rtranclp) (rule factory_step.start [OF order])
  from factory_runs_each_informer_once [OF sample_informer_state_reachable use this order2] show ?thesis
    by (simp add: use)
qed

end
