(* ===== verification/Grpc_Services.thy ===== *)
theory Grpc_Services
  imports Grpc_Server
begin

text \<open>
  The generated clients and servers of the two gRPC services (\<^verbatim>\<open>pkg/proto/runtime/v1/rusi_grpc.pb.go\<close>,
  \<^verbatim>\<open>pkg/proto/operator/v1/rusi_operator_grpc.pb.go\<close>): what a client asks of its connection, how a server
  finds the handler, and that the names on both sides agree.  Connections, streams and the codec are
  parameters; on the wire a message is a byte string.
\<close>

section \<open>Connections and streams\<close>

record 'w msg_stream =
  ms_send :: "string \<Rightarrow> 'w \<Rightarrow> error option \<times> 'w"
  ms_close_send :: "'w \<Rightarrow> error option \<times> 'w"
  ms_recv :: "'w \<Rightarrow> (error + string) \<times> 'w"

text \<open>\<^verbatim>\<open>SendMsg\<close> and \<^verbatim>\<open>RecvMsg\<close>, for the type of message that \<open>encode\<close> and \<open>decode\<close> are for.\<close>

definition send_msg :: "('m \<Rightarrow> error + string) \<Rightarrow> 'w msg_stream \<Rightarrow> 'm \<Rightarrow> 'w \<Rightarrow> error option \<times> 'w" where
  "send_msg encode s m w = (case encode m of Inl e \<Rightarrow> (Some e, w) | Inr b \<Rightarrow> ms_send s b w)"

definition recv_msg :: "(string \<Rightarrow> error + 'm) \<Rightarrow> 'w msg_stream \<Rightarrow> 'w \<Rightarrow> (error + 'm) \<times> 'w" where
  "recv_msg decode s w = (case ms_recv s w of (Inl e, w1) \<Rightarrow> (Inl e, w1) | (Inr b, w1) \<Rightarrow> (decode b, w1))"

record 'h stream_desc =
  std_name :: string
  std_handler :: 'h
  std_server_streams :: bool
  std_client_streams :: bool

record ('u, 'h) service_desc =
  sd_name :: string
  sd_methods :: "(string \<times> 'u) list"
  sd_streams :: "'h stream_desc list"

text \<open>The flags of a stream are all a client reads of its description.\<close>

record ('x, 'q, 'w) client_conn =
  cc_invoke :: "'x \<Rightarrow> string \<Rightarrow> 'q \<Rightarrow> 'w \<Rightarrow> error option \<times> 'w"
  cc_new_stream :: "'x \<Rightarrow> bool \<times> bool \<Rightarrow> string \<Rightarrow> 'w \<Rightarrow> (error + 'w msg_stream) \<times> 'w"

definition stream_flags :: "'h stream_desc \<Rightarrow> bool \<times> bool" where
  "stream_flags d = (std_server_streams d, std_client_streams d)"

section \<open>The service of the sidecar\<close>

record ('x, 'w) rusi_server =
  rs_publish :: "'x \<Rightarrow> pb_publish_request \<Rightarrow> 'w \<Rightarrow> result \<times> 'w"
  rs_subscribe :: "'w msg_stream \<Rightarrow> 'w \<Rightarrow> result \<times> 'w"

definition publish_method :: string where
  "publish_method = ''/rusi.proto.runtime.v1.Rusi/Publish''"

definition subscribe_method :: string where
  "subscribe_method = ''/rusi.proto.runtime.v1.Rusi/Subscribe''"

text \<open>An interceptor gets the request, the full name of the method and the rest of the call.\<close>

type_synonym ('x, 'w) interceptor =
  "'x \<Rightarrow> pb_publish_request \<Rightarrow> string \<Rightarrow> ('x \<Rightarrow> pb_publish_request \<Rightarrow> 'w \<Rightarrow> result \<times> 'w) \<Rightarrow> 'w \<Rightarrow> result \<times> 'w"

definition rusi_publish_handler :: "('x, 'w) rusi_server \<Rightarrow> 'x \<Rightarrow> error + pb_publish_request
    \<Rightarrow> ('x, 'w) interceptor option \<Rightarrow> 'w \<Rightarrow> result \<times> 'w" where
  "rusi_publish_handler srv ctx dec interceptor w =
     (case dec of
        Inl e \<Rightarrow> (Fail e, w)
      | Inr req \<Rightarrow>
          (case interceptor of
             None \<Rightarrow> rs_publish srv ctx req w
           | Some f \<Rightarrow> f ctx req publish_method (rs_publish srv) w))"

definition rusi_subscribe_handler :: "('x, 'w) rusi_server \<Rightarrow> 'w msg_stream \<Rightarrow> 'w \<Rightarrow> result \<times> 'w" where
  "rusi_subscribe_handler srv stream w = rs_subscribe srv stream w"

definition rusi_service_desc ::
    "(('x, 'w) rusi_server \<Rightarrow> 'x \<Rightarrow> error + pb_publish_request \<Rightarrow> ('x, 'w) interceptor option \<Rightarrow> 'w \<Rightarrow> result \<times> 'w,
      ('x, 'w) rusi_server \<Rightarrow> 'w msg_stream \<Rightarrow> 'w \<Rightarrow> result \<times> 'w) service_desc" where
  "rusi_service_desc =
     \<lparr>sd_name = ''rusi.proto.runtime.v1.Rusi'', sd_methods = [(''Publish'', rusi_publish_handler)],
      sd_streams = [\<lparr>std_name = ''Subscribe'', std_handler = rusi_subscribe_handler, std_server_streams = True,
                     std_client_streams = True\<rparr>]\<rparr>"

definition rusi_client_publish :: "('x, pb_publish_request, 'w) client_conn \<Rightarrow> 'x \<Rightarrow> pb_publish_request \<Rightarrow> 'w
    \<Rightarrow> (unit option \<times> error option) \<times> 'w" where
  "rusi_client_publish cc ctx req w =
     (case cc_invoke cc ctx publish_method req w of
        (Some e, w1) \<Rightarrow> ((None, Some e), w1)
      | (None, w1) \<Rightarrow> ((Some (), None), w1))"

definition rusi_client_subscribe :: "('x, 'q, 'w) client_conn \<Rightarrow> 'x \<Rightarrow> 'w \<Rightarrow> ('w msg_stream option \<times> error option) \<times> 'w" where
  "rusi_client_subscribe cc ctx w =
     (case cc_new_stream cc ctx (True, True) subscribe_method w of
        (Inl e, w1) \<Rightarrow> ((None, Some e), w1)
      | (Inr stream, w1) \<Rightarrow> ((Some stream, None), w1))"

text \<open>The stream types of both ends: a received message is nil beside an error.\<close>

definition stream_recv :: "(string \<Rightarrow> error + 'm) \<Rightarrow> 'w msg_stream \<Rightarrow> 'w \<Rightarrow> ('m option \<times> error option) \<times> 'w" where
  "stream_recv decode s w =
     (case recv_msg decode s w of (Inl e, w1) \<Rightarrow> ((None, Some e), w1) | (Inr m, w1) \<Rightarrow> ((Some m, None), w1))"

definition subscribe_client_send where "subscribe_client_send encode_request = send_msg encode_request"
definition subscribe_client_recv where "subscribe_client_recv decode_received = stream_recv decode_received"
definition subscribe_server_send where "subscribe_server_send encode_received = send_msg encode_received"
definition subscribe_server_recv where "subscribe_server_recv decode_request = stream_recv decode_request"

definition unimplemented :: "string \<Rightarrow> error" where
  "unimplemented m = ErrStatus ''Unimplemented'' (ErrText (''method '' @ m @ '' not implemented''))"

definition unimplemented_rusi_server :: "('x, 'w) rusi_server" where
  "unimplemented_rusi_server =
     \<lparr>rs_publish = (\<lambda>ctx req w. (Fail (unimplemented ''Publish''), w)),
      rs_subscribe = (\<lambda>stream w. (Fail (unimplemented ''Subscribe''), w))\<rparr>"

section \<open>The service of the operator\<close>

record 'w operator_server =
  os_watch_configuration :: "pb_watch_configuration_request \<Rightarrow> 'w msg_stream \<Rightarrow> 'w \<Rightarrow> error option \<times> 'w"
  os_watch_components :: "pb_watch_components_request \<Rightarrow> 'w msg_stream \<Rightarrow> 'w \<Rightarrow> error option \<times> 'w"

definition watch_configuration_handler :: "(string \<Rightarrow> error + pb_watch_configuration_request) \<Rightarrow> 'w operator_server
    \<Rightarrow> 'w msg_stream \<Rightarrow> 'w \<Rightarrow> error option \<times> 'w" where
  "watch_configuration_handler decode srv stream w =
     (case recv_msg decode stream w of
        (Inl e, w1) \<Rightarrow> (Some e, w1)
      | (Inr m, w1) \<Rightarrow> os_watch_configuration srv m stream w1)"

definition watch_components_handler :: "(string \<Rightarrow> error + pb_watch_components_request) \<Rightarrow> 'w operator_server
    \<Rightarrow> 'w msg_stream \<Rightarrow> 'w \<Rightarrow> error option \<times> 'w" where
  "watch_components_handler decode srv stream w =
     (case recv_msg decode stream w of
        (Inl e, w1) \<Rightarrow> (Some e, w1)
      | (Inr m, w1) \<Rightarrow> os_watch_components srv m stream w1)"

definition operator_service_desc where
  "operator_service_desc decode_configuration decode_components =
     \<lparr>sd_name = ''rusi.proto.operator.v1.RusiOperator'', sd_methods = [],
      sd_streams =
        [\<lparr>std_name = ''WatchConfiguration'', std_handler = watch_configuration_handler decode_configuration,
          std_server_streams = True, std_client_streams = False\<rparr>,
         \<lparr>std_name = ''WatchComponents'', std_handler = watch_components_handler decode_components,
          std_server_streams = True, std_client_streams = False\<rparr>]\<rparr>"

definition watch_configuration_method :: string where
  "watch_configuration_method = ''/rusi.proto.operator.v1.RusiOperator/WatchConfiguration''"

definition watch_components_method :: string where
  "watch_components_method = ''/rusi.proto.operator.v1.RusiOperator/WatchComponents''"

text \<open>The body of both watch calls: open the stream, send the one request, close the sending side.\<close>

definition open_watch :: "bool \<times> bool \<Rightarrow> string \<Rightarrow> ('m \<Rightarrow> error + string) \<Rightarrow> ('x, 'q, 'w) client_conn \<Rightarrow> 'x \<Rightarrow> 'm \<Rightarrow> 'w
    \<Rightarrow> ('w msg_stream option \<times> error option) \<times> 'w" where
  "open_watch flags method encode cc ctx req w =
     (case cc_new_stream cc ctx flags method w of
        (Inl e, w1) \<Rightarrow> ((None, Some e), w1)
      | (Inr stream, w1) \<Rightarrow>
          (case send_msg encode stream req w1 of
             (Some e, w2) \<Rightarrow> ((None, Some e), w2)
           | (None, w2) \<Rightarrow>
               (case ms_close_send stream w2 of
                  (Some e, w3) \<Rightarrow> ((None, Some e), w3)
                | (None, w3) \<Rightarrow> ((Some stream, None), w3))))"

definition operator_client_watch_configuration where
  "operator_client_watch_configuration = open_watch (True, False) watch_configuration_method"

definition operator_client_watch_components where
  "operator_client_watch_components = open_watch (True, False) watch_components_method"

definition watch_configuration_client_recv where "watch_configuration_client_recv decode_item = stream_recv decode_item"
definition watch_components_client_recv where "watch_components_client_recv decode_item = stream_recv decode_item"
definition watch_configuration_server_send where "watch_configuration_server_send encode_item = send_msg encode_item"
definition watch_components_server_send where "watch_components_server_send encode_item = send_msg encode_item"

definition unimplemented_operator_server :: "'w operator_server" where
  "unimplemented_operator_server =
     \<lparr>os_watch_configuration = (\<lambda>req stream w. (Some (unimplemented ''WatchConfiguration''), w)),
      os_watch_components = (\<lambda>req stream w. (Some (unimplemented ''WatchComponents''), w))\<rparr>"

section \<open>Both ends agree\<close>

text \<open>A gRPC server routes \<open>/service/method\<close> to the handler that the service registered under the method.\<close>

definition full_method :: "('u, 'h) service_desc \<Rightarrow> string \<Rightarrow> string" where
  "full_method d m = ''/'' @ sd_name d @ ''/'' @ m"

definition find_method :: "('u, 'h) service_desc \<Rightarrow> string \<Rightarrow> 'u option" where
  "find_method d full = map_of (map (\<lambda>(m, h). (full_method d m, h)) (sd_methods d)) full"

definition find_stream :: "('u, 'h) service_desc \<Rightarrow> string \<Rightarrow> 'h stream_desc option" where
  "find_stream d full = map_of (map (\<lambda>s. (full_method d (std_name s), s)) (sd_streams d)) full"

text \<open>The names and the flags a client uses find the handler of the call.\<close>

theorem rusi_calls_find_handlers:
  "find_method rusi_service_desc publish_method = Some rusi_publish_handler"
  "\<exists>d. find_stream rusi_service_desc subscribe_method = Some d \<and> std_handler d = rusi_subscribe_handler
     \<and> stream_flags d = (True, True)"
  by (simp_all add: find_method_def find_stream_def full_method_def rusi_service_desc_def publish_method_def
      subscribe_method_def stream_flags_def)

theorem operator_calls_find_handlers:
  "\<exists>d. find_stream (operator_service_desc d1 d2) watch_configuration_method = Some d
     \<and> std_handler d = watch_configuration_handler d1 \<and> stream_flags d = (True, False)"
  "\<exists>d. find_stream (operator_service_desc d1 d2) watch_components_method = Some d
     \<and> std_handler d = watch_components_handler d2 \<and> stream_flags d = (True, False)"
  by (simp_all add: find_stream_def full_method_def operator_service_desc_def watch_configuration_method_def
      watch_components_method_def stream_flags_def)

text \<open>
  A connection to a server of the service, as far as gRPC promises one.  A call is run at most once.  When the reply
  comes back, it is the server's result for the request as it was sent, an error as a status (\<open>wire\<close>); \<open>lost\<close> is what a
  client sees of a server that panicked.  But a call may also end with a status of the transport, as Unavailable,
  Canceled or DeadlineExceeded - those that \<open>transport\<close> holds of -, and then the server has not seen the request,
  or has run and the reply is lost.
\<close>

definition reply :: "(error \<Rightarrow> error) \<Rightarrow> error \<Rightarrow> result \<Rightarrow> error option" where
  "reply wire lost r = (case r of Ok \<Rightarrow> None | Fail e \<Rightarrow> Some (wire e) | Crash m \<Rightarrow> Some lost)"

definition served_by :: "(error \<Rightarrow> error) \<Rightarrow> error \<Rightarrow> (error \<Rightarrow> bool) \<Rightarrow> ('x, 'w) rusi_server \<Rightarrow> ('x, 'w) interceptor option
    \<Rightarrow> ('x, pb_publish_request, 'w) client_conn \<Rightarrow> bool" where
  "served_by wire lost transport srv interceptor cc \<longleftrightarrow>
     (\<forall>full h ctx req w r w1. find_method rusi_service_desc full = Some h \<longrightarrow> h srv ctx (Inr req) interceptor w = (r, w1)
        \<longrightarrow> cc_invoke cc ctx full req w = (reply wire lost r, w1)
          \<or> (\<exists>e. transport e \<and> cc_invoke cc ctx full req w \<in> {(Some e, w), (Some e, w1)}))"

lemma client_publish_over_connection:
  assumes "served_by wire lost transport srv interceptor cc"
    and "rusi_publish_handler srv ctx (Inr req) interceptor w = (r, w1)"
  shows "rusi_client_publish cc ctx req w = ((if r = Ok then Some () else None, reply wire lost r), w1)
    \<or> (\<exists>e. transport e \<and> rusi_client_publish cc ctx req w \<in> {((None, Some e), w), ((None, Some e), w1)})"
proof -
  have "cc_invoke cc ctx publish_method req w = (reply wire lost r, w1)
      \<or> (\<exists>e. transport e \<and> cc_invoke cc ctx publish_method req w \<in> {(Some e, w), (Some e, w1)})"
    using assms rusi_calls_find_handlers(1) unfolding served_by_def by blast
  then show ?thesis
    by (auto simp: rusi_client_publish_def reply_def split: result.split)
qed

text \<open>C30: what an application can conclude from a call of the generated client of a sidecar, over a connection that
  may fail and runs a call at most once, when the broker itself does not panic: an empty reply means that the runtime
  published the message, and what the call did is then what the runtime did.  An error is the status of
  the runtime's error, which did what the runtime did, or a status of the transport, and then the
  runtime has either not seen the request or handled it exactly once, with either outcome.  There is no other answer.\<close>

theorem client_publish_answered:
  assumes "served_by wire lost transport srv None cc"
    and "\<forall>x. rs_publish srv x = grpc_publish unmarshal (publish_handler api br rt uuid now c)"
    and "\<forall>p t msg w m. fst (br_publish br p t msg w) \<noteq> Crash m"
    and "grpc_publish unmarshal (publish_handler api br rt uuid now c) req w = (r, w1)"
    and "rusi_client_publish cc ctx req w = (answer, w2)"
  shows "(answer = (Some (), None) \<longrightarrow> r = Ok \<and> w2 = w1)
    \<and> (answer \<noteq> (Some (), None) \<longrightarrow>
        (\<exists>e. answer = (None, Some e) \<and>
          ((\<exists>cause. r = Fail cause \<and> e = wire cause \<and> w2 = w1) \<or> transport e \<and> (w2 = w \<or> w2 = w1))))"
proof -
  have "rusi_publish_handler srv ctx (Inr req) None w = (r, w1)"
    by (simp add: rusi_publish_handler_def assms(2,4))
  from client_publish_over_connection [OF assms(1) this] assms(5)
  have "answer = (if r = Ok then Some () else None, reply wire lost r) \<and> w2 = w1
      \<or> (\<exists>e. transport e \<and> answer = (None, Some e) \<and> (w2 = w \<or> w2 = w1))" by auto
  moreover have "r \<noteq> Crash m" for m
    using grpc_publish_never_panics [OF assms(3), of unmarshal api rt uuid now c req w] assms(4) by (metis fst_conv)
  ultimately show ?thesis by (cases r) (auto simp: reply_def)
qed

text \<open>An interceptor is told the name the client called, and runs the server's method by calling its handler.\<close>

theorem interceptor_sees_called_method:
  "rusi_publish_handler srv ctx (Inr req) (Some (\<lambda>c q full call w. if full = publish_method then call c q w else (Fail e, w))) w
     = rusi_publish_handler srv ctx (Inr req) None w"
  by (simp add: rusi_publish_handler_def)

text \<open>
  A watch call: when the request goes through the stream unchanged, the handler the server finds for it is
  run on that request, and the client holds the open stream.
\<close>

theorem watch_configuration_reaches_server:
  assumes "encode req = Inr b" and "decode b = Inr req"
    and "cc_new_stream cc ctx (True, False) watch_configuration_method w = (Inr cs, w1)"
    and "ms_send cs b w1 = (None, w2)" and "ms_close_send cs w2 = (None, w3)" and "ms_recv ss w3 = (Inr b, w4)"
  shows "operator_client_watch_configuration encode cc ctx req w = ((Some cs, None), w3)
    \<and> (\<exists>d. find_stream (operator_service_desc decode d2) watch_configuration_method = Some d
        \<and> std_handler d srv ss w3 = os_watch_configuration srv req ss w4)"
proof
  show "operator_client_watch_configuration encode cc ctx req w = ((Some cs, None), w3)"
    by (simp add: operator_client_watch_configuration_def open_watch_def send_msg_def assms)
  show "\<exists>d. find_stream (operator_service_desc decode d2) watch_configuration_method = Some d
      \<and> std_handler d srv ss w3 = os_watch_configuration srv req ss w4"
    by (simp add: find_stream_def full_method_def operator_service_desc_def watch_configuration_method_def
        watch_configuration_handler_def recv_msg_def assms)
qed

section \<open>Witness\<close>

text \<open>A sidecar with the sample broker, and a connection that calls it, and loses the reply when the context says so.\<close>

definition sample_rusi_server where
  "sample_rusi_server =
     \<lparr>rs_publish = (\<lambda>x. grpc_publish (\<lambda>s. Inr VNull) (publish_handler sample_api sample_broker sample_runtime ''id'' 5 sample_ctx)),
      rs_subscribe = (\<lambda>stream w. (Ok, w))\<rparr>"

definition sample_conn where
  "sample_conn =
     \<lparr>cc_invoke = (\<lambda>canceled full req w.
        (case find_method rusi_service_desc full of
           None \<Rightarrow> (Some ErrCanceled, w)
         | Some h \<Rightarrow>
             (case h sample_rusi_server canceled (Inr req) None w of
                (r, w1) \<Rightarrow> (if canceled then Some ErrCanceled else reply (ErrWrap ''rpc'') ErrEOF r, w1)))),
      cc_new_stream = (\<lambda>ctx flags full w. (Inl ErrCanceled, w))\<rparr>"

theorem client_publish_answered_witness:
  "rusi_client_publish sample_conn False sample_pb_publish sample_tele
     = ((Some (), None), snd (grpc_publish (\<lambda>s. Inr VNull)
         (publish_handler sample_api sample_broker sample_runtime ''id'' 5 sample_ctx) sample_pb_publish sample_tele))
   \<and> fst (rusi_client_publish sample_conn True sample_pb_publish sample_tele) = (None, Some ErrCanceled)"
proof -
  let ?publish = "grpc_publish (\<lambda>s. Inr VNull) (publish_handler sample_api sample_broker sample_runtime ''id'' 5 sample_ctx)"
  let ?call = "\<lambda>canceled. rusi_client_publish sample_conn canceled sample_pb_publish sample_tele"
  have served: "served_by (ErrWrap ''rpc'') ErrEOF (\<lambda>e. e = ErrCanceled) sample_rusi_server None sample_conn"
    by (simp add: served_by_def sample_conn_def)
  have server: "\<forall>x. rs_publish sample_rusi_server x = ?publish"
    by (simp add: sample_rusi_server_def)
  have broker: "\<forall>p t msg w m. fst (br_publish sample_broker p t msg w) \<noteq> Crash m"
    by (simp add: sample_broker_def pubsub_ops.extend_def)
  have "fst (?publish sample_pb_publish sample_tele) = Ok" by code_simp
  then obtain w1 where published: "?publish sample_pb_publish sample_tele = (Ok, w1)" by (metis prod.collapse)
  have replies: "fst (?call False) = (Some (), None)" "fst (?call True) = (None, Some ErrCanceled)"
    by (simp_all add: rusi_client_publish_def sample_conn_def rusi_calls_find_handlers(1) rusi_publish_handler_def server
        reply_def published)
  have "?call False = (fst (?call False), snd (?call False))" by simp
  from client_publish_answered [OF served server broker published this] replies show ?thesis
    by (simp add: prod_eq_iff published)
qed

end
