(* ===== verification/Injector_Main.thy ===== *)
theory Injector_Main
  imports Injector Kube_Client Diagnostics_Server
begin

text \<open>
  The start of the injector (\<^verbatim>\<open>cmd/injector/injector.go\<close>, with \<^verbatim>\<open>config.go\<close> and the constructors of
  \<^verbatim>\<open>injector.go\<close>): flags, the environment, the accounts to trust, the server.  The environment decoder, the
  flag parser, the cluster and the TLS server are parameters.
\<close>

section \<open>Configuration\<close>

text \<open>\<^verbatim>\<open>BindConfigFlags\<close>: the flags registered on the given set and on the command line.\<close>

definition register_flag :: "string \<Rightarrow> string list \<Rightarrow> string list attempt" where
  "register_flag name fs =
     (if string_slice_contains name fs then PanicsWith (ErrText (''flag redefined: '' @ name)) else Value (fs @ [name]))"

definition bind_config_flags :: "string list option \<Rightarrow> string list \<Rightarrow> (string list option \<times> string list) attempt" where
  "bind_config_flags flagset command_line =
     (case flagset of
        None \<Rightarrow>
          (case register_flag ''validate_service_account'' command_line of
             Value fs \<Rightarrow> Value (None, fs) | PanicsWith e \<Rightarrow> PanicsWith e | FatalExit e \<Rightarrow> FatalExit e)
      | Some fs \<Rightarrow>
          (case register_flag ''validate_service_account'' fs of
             Value fs1 \<Rightarrow> Value (Some fs1, command_line) | PanicsWith e \<Rightarrow> PanicsWith e | FatalExit e \<Rightarrow> FatalExit e))"

text \<open>\<open>process\<close> is \<^verbatim>\<open>envconfig.Process\<close>; the configuration is returned beside its error.\<close>

definition get_injector_config :: "(injector_config \<Rightarrow> error option \<times> injector_config) \<Rightarrow> injector_config
    \<Rightarrow> injector_config \<times> error option" where
  "get_injector_config process default_config = (case process default_config of (err, cfg) \<Rightarrow> (cfg, err))"

section \<open>The server\<close>

record injector_server =
  ij_config :: injector_config
  ij_auth_uids :: "string list"
  ij_addr :: string
  ij_routes :: "string list"

definition injector_port :: string where
  "injector_port = ''4000''"

definition new_injector :: "string list \<Rightarrow> injector_config \<Rightarrow> injector_server" where
  "new_injector auth_uids config =
     \<lparr>ij_config = config, ij_auth_uids = auth_uids, ij_addr = '':'' @ injector_port, ij_routes = [''/mutate'']\<rparr>"

text \<open>\<open>serve\<close> is \<^verbatim>\<open>ListenAndServeTLS\<close>, which returns an error always; the context of \<^verbatim>\<open>Run\<close> is not used.\<close>

definition injector_run :: "(injector_server \<Rightarrow> string \<Rightarrow> string \<Rightarrow> error) \<Rightarrow> 'x \<Rightarrow> injector_server \<Rightarrow> error" where
  "injector_run serve ctx i = serve i (ic_tls_cert_file (ij_config i)) (ic_tls_key_file (ij_config i))"

text \<open>\<open>get_sa\<close> reads a service account of a namespace and answers its UID.\<close>

definition get_service_account :: "('cs \<Rightarrow> string \<Rightarrow> string \<Rightarrow> error + string) \<Rightarrow> 'cs \<Rightarrow> string \<Rightarrow> error + string" where
  "get_service_account get_sa client name =
     (case get_sa client ''kube-system'' name of Inl e \<Rightarrow> Inl e | Inr uid \<Rightarrow> Inr uid)"

section \<open>The main program\<close>

text \<open>The flags, with \<^verbatim>\<open>klog\<close>'s registered before: the configuration as \<^verbatim>\<open>flag.Parse\<close> leaves it.\<close>

definition injector_flags :: "(string \<Rightarrow> string) \<Rightarrow> string \<Rightarrow> (injector_config \<Rightarrow> injector_config) \<Rightarrow> ('cfg, 'cs) kube_state
    \<Rightarrow> (injector_config \<times> ('cfg, 'cs) kube_state) attempt" where
  "injector_flags join home parse st =
     (case kube_init_flags join home (None :: unit option) st of
        PanicsWith e \<Rightarrow> PanicsWith e
      | FatalExit e \<Rightarrow> FatalExit e
      | Value st1 \<Rightarrow>
          (case bind_config_flags None (ks_flags st1) of
             PanicsWith e \<Rightarrow> PanicsWith e
           | FatalExit e \<Rightarrow> FatalExit e
           | Value (_, fs) \<Rightarrow> Value (parse new_config_with_defaults, st1\<lparr>ks_flags := fs\<rparr>)))"

definition injector_serve :: "(injector_server \<Rightarrow> string \<Rightarrow> string \<Rightarrow> error) \<Rightarrow> string list \<Rightarrow> injector_config
    \<Rightarrow> unit attempt \<times> injector_server option" where
  "injector_serve serve auth_uids cfg =
     (let i = new_injector auth_uids cfg; err = injector_run serve () i
      in if err \<noteq> server_closed then (FatalExit err, Some i) else (Value (), Some i))"

definition injector_start :: "('cs option \<Rightarrow> string \<Rightarrow> string \<Rightarrow> error + string) \<Rightarrow> ('cfg, 'cs) kube_library
    \<Rightarrow> (injector_server \<Rightarrow> string \<Rightarrow> string \<Rightarrow> error) \<Rightarrow> injector_config \<Rightarrow> ('cfg, 'cs) kube_state
    \<Rightarrow> unit attempt \<times> injector_server option" where
  "injector_start get_sa kube serve cfg st =
     (case get_kube_client kube st of
        (PanicsWith e, st1) \<Rightarrow> (PanicsWith e, None)
      | (FatalExit e, st1) \<Rightarrow> (FatalExit e, None)
      | (Value client, st1) \<Rightarrow>
          (case injector_auth_uids (get_service_account get_sa client) cfg of
             Inl e \<Rightarrow> (FatalExit (ErrFmt ''failed to get authentication uids from services accounts: '' e), None)
           | Inr auth_uids \<Rightarrow> injector_serve serve auth_uids cfg))"

definition injector_main where
  "injector_main join home parse process get_sa kube serve st =
     (case injector_flags join home parse st of
        PanicsWith e \<Rightarrow> (PanicsWith e, None)
      | FatalExit e \<Rightarrow> (FatalExit e, None)
      | Value (config, st1) \<Rightarrow>
          (case get_injector_config process config of
             (cfg, Some e) \<Rightarrow> (FatalExit (ErrFmt ''error getting config: '' e), None)
           | (cfg, None) \<Rightarrow> injector_start get_sa kube serve cfg st1))"

section \<open>What the server trusts\<close>

lemma injector_serve_server:
  "injector_serve serve auth_uids cfg = (r, Some i) \<Longrightarrow> i = new_injector auth_uids cfg"
  by (auto simp: injector_serve_def Let_def split: if_splits)

lemma injector_start_server:
  assumes "injector_start get_sa kube serve cfg st = (r, Some i)"
  obtains client where "injector_auth_uids (get_service_account get_sa client) cfg = Inr (ij_auth_uids i)"
    "ij_config i = cfg" "ij_routes i = [''/mutate'']"
proof -
  obtain client st1 where client: "get_kube_client kube st = (Value client, st1)"
    using assms unfolding injector_start_def by (cases "get_kube_client kube st"; cases "fst (get_kube_client kube st)") auto
  obtain uids where uids: "injector_auth_uids (get_service_account get_sa client) cfg = Inr uids"
    using assms client unfolding injector_start_def
    by (cases "injector_auth_uids (get_service_account get_sa client) cfg") auto
  have "injector_serve serve uids cfg = (r, Some i)"
    using assms client uids unfolding injector_start_def by simp
  from injector_serve_server [OF this] uids show ?thesis by (intro that [of client]) (simp_all add: new_injector_def)
qed

text \<open>
  A server that was started, in whatever way its run ends, trusts only UIDs of the controller accounts of
  \<^verbatim>\<open>kube-system\<close>, and none when accounts are not validated.
\<close>

theorem started_injector_trusts_controllers:
  assumes "injector_main join home parse process get_sa kube serve st = (r, Some i)" and "uid \<in> set (ij_auth_uids i)"
  shows "ic_validate_service_account (ij_config i) \<and>
    (\<exists>client. \<exists>name\<in>set allowed_controllers_service_accounts. get_sa client ''kube-system'' name = Inr uid)"
proof -
  obtain config st1 where flags: "injector_flags join home parse st = Value (config, st1)"
    using assms(1) unfolding injector_main_def by (cases "injector_flags join home parse st") auto
  obtain cfg where "get_injector_config process config = (cfg, None)"
    using assms(1) flags unfolding injector_main_def
    by (cases "get_injector_config process config"; cases "snd (get_injector_config process config)") auto
  with assms(1) flags have "injector_start get_sa kube serve cfg st1 = (r, Some i)"
    unfolding injector_main_def by simp
  then obtain client where uids: "injector_auth_uids (get_service_account get_sa client) cfg = Inr (ij_auth_uids i)"
    and cfg: "ij_config i = cfg" by (rule injector_start_server)
  have validate: "ic_validate_service_account cfg"
    using uids assms(2) by (auto simp: injector_auth_uids_def split: if_splits)
  then have "allowed_controllers_service_account_uid (get_service_account get_sa client) = Inr (ij_auth_uids i)"
    using uids by (simp add: injector_auth_uids_def)
  from allowed_uids_sound [OF this assms(2)] obtain name where "name \<in> set allowed_controllers_service_accounts"
    and "get_service_account get_sa client name = Inr uid" by blast
  then have "get_sa client ''kube-system'' name = Inr uid"
    by (simp add: get_service_account_def split: sum.splits)
  with \<open>name \<in> _\<close> validate cfg show ?thesis by blast
qed

text \<open>Whatever the context, \<^verbatim>\<open>Run\<close> is the same: nothing shuts the server down.\<close>

lemma injector_run_ignores_context: "injector_run serve ctx i = injector_run serve ctx' i"
  by (simp add: injector_run_def)

end
