(* ===== verification/Json_Unquote.thy ===== *)
theory Json_Unquote
  imports Metadata_Items
begin

text \<open>
  \<^verbatim>\<open>strconv.Unquote\<close> of Go's standard library on the values of metadata items, which are JSON texts: a text in double
  quotes, or one that does not begin with a quote at all.  Theory \<open>Metadata_Items\<close> has the function as a parameter;
  here is what the instance used by \<^verbatim>\<open>JsonToUnquotedString\<close> (\<^verbatim>\<open>pkg/operator/server.go\<close>) does.  As in \<open>Prelude\<close>, a
  byte above 127 stands for a part of a valid UTF-8 sequence and is left as it is.
\<close>

section \<open>Unquote\<close>

definition hex_digit :: "char \<Rightarrow> nat option" where
  "hex_digit c =
     (let n = of_char c
      in if 48 \<le> n \<and> n \<le> 57 then Some (n - 48)
         else if 97 \<le> n \<and> n \<le> 102 then Some (n - 87)
         else if 65 \<le> n \<and> n \<le> 70 then Some (n - 55)
         else None)"

definition octal_digit :: "char \<Rightarrow> nat option" where
  "octal_digit c = (let n = of_char c in if 48 \<le> n \<and> n \<le> 55 then Some (n - 48) else None)"

fun read_digits :: "(char \<Rightarrow> nat option) \<Rightarrow> nat \<Rightarrow> nat \<Rightarrow> nat \<Rightarrow> string \<Rightarrow> (nat \<times> string) option" where
  "read_digits digit base 0 v s = Some (v, s)"
| "read_digits digit base (Suc k) v [] = None"
| "read_digits digit base (Suc k) v (c # s) =
     (case digit c of None \<Rightarrow> None | Some x \<Rightarrow> read_digits digit base k (v * base + x) s)"

definition valid_rune :: "nat \<Rightarrow> bool" where
  "valid_rune r \<longleftrightarrow> r < 0xD800 \<or> 0xDFFF < r \<and> r \<le> 0x10FFFF"

text \<open>The UTF-8 encoding of a valid rune.\<close>

definition append_rune :: "nat \<Rightarrow> string" where
  "append_rune r =
     (if r < 0x80 then [char_of r]
      else if r < 0x800 then [char_of (0xC0 + r div 64), char_of (0x80 + r mod 64)]
      else if r < 0x10000 then [char_of (0xE0 + r div 4096), char_of (0x80 + r div 64 mod 64), char_of (0x80 + r mod 64)]
      else [char_of (0xF0 + r div 262144), char_of (0x80 + r div 4096 mod 64), char_of (0x80 + r div 64 mod 64),
            char_of (0x80 + r mod 64)])"

definition double_quote :: char where "double_quote = CHR 0x22"

definition backslash :: char where "backslash = CHR 0x5C"

text \<open>\<^verbatim>\<open>\u\<close> and \<^verbatim>\<open>\U\<close>, of \<open>k\<close> digits.\<close>

definition unquote_rune :: "nat \<Rightarrow> string \<Rightarrow> (string \<times> string) option" where
  "unquote_rune k s =
     (case read_digits hex_digit 16 k 0 s of
        None \<Rightarrow> None
      | Some (v, rest) \<Rightarrow> if valid_rune v then Some (append_rune v, rest) else None)"

text \<open>An escape sequence after its backslash, inside double quotes.\<close>

fun unquote_escape :: "string \<Rightarrow> (string \<times> string) option" where
  "unquote_escape [] = None"
| "unquote_escape (e # s) =
     (if e = CHR ''a'' then Some ([CHR 0x07], s)
      else if e = CHR ''b'' then Some ([CHR 0x08], s)
      else if e = CHR ''f'' then Some ([CHR 0x0C], s)
      else if e = CHR ''n'' then Some ([CHR 0x0A], s)
      else if e = CHR ''r'' then Some ([CHR 0x0D], s)
      else if e = CHR ''t'' then Some ([CHR 0x09], s)
      else if e = CHR ''v'' then Some ([CHR 0x0B], s)
      else if e = CHR ''x'' then
        (case read_digits hex_digit 16 2 0 s of None \<Rightarrow> None | Some (v, rest) \<Rightarrow> Some ([char_of v], rest))
      else if e = CHR ''u'' then unquote_rune 4 s
      else if e = CHR ''U'' then unquote_rune 8 s
      else if octal_digit e \<noteq> None then
        (case read_digits octal_digit 8 3 0 (e # s) of
           None \<Rightarrow> None
         | Some (v, rest) \<Rightarrow> if 255 < v then None else Some ([char_of v], rest))
      else if e = backslash \<or> e = double_quote then Some ([e], s)
      else None)"

lemma read_digits_length: "read_digits digit base k v s = Some (w, rest) \<Longrightarrow> length rest \<le> length s"
  by (induction digit base k v s rule: read_digits.induct) (auto split: option.splits)

lemma unquote_escape_length: "unquote_escape s = Some (b, rest) \<Longrightarrow> length rest \<le> length s"
  by (cases s) (auto simp: unquote_rune_def split: if_splits option.splits dest: read_digits_length)

text \<open>The characters up to the closing quote, and what is behind it.\<close>

function (sequential) unquote_loop :: "string \<Rightarrow> (string \<times> string) option" where
  "unquote_loop [] = None"
| "unquote_loop (c # s) =
     (if c = double_quote then Some ([], s)
      else if c = CHR 0x0A then None
      else if c = backslash then
        (case unquote_escape s of
           None \<Rightarrow> None
         | Some (b, rest) \<Rightarrow>
             (case unquote_loop rest of None \<Rightarrow> None | Some (out, r) \<Rightarrow> Some (b @ out, r)))
      else (case unquote_loop s of None \<Rightarrow> None | Some (out, r) \<Rightarrow> Some (c # out, r)))"
  by pat_completeness auto
termination
  by (relation "measure length") (auto dest: unquote_escape_length)

definition unquote_json :: "string \<Rightarrow> string option" where
  "unquote_json s =
     (case s of
        [] \<Rightarrow> None
      | q # body \<Rightarrow>
          (if q = double_quote
           then (case unquote_loop body of Some (out, []) \<Rightarrow> Some out | _ \<Rightarrow> None)
           else None))"

section \<open>What is unquoted\<close>

text \<open>A text as a JSON encoder writes it, with the escapes of Go's, those for HTML included.\<close>

definition hex_char :: "nat \<Rightarrow> char" where
  "hex_char k = (if k < 10 then char_of (48 + k) else char_of (87 + k))"

definition json_char :: "char \<Rightarrow> string" where
  "json_char c =
     (if c = double_quote \<or> c = backslash then [backslash, c]
      else if c = CHR 0x0A then [backslash, CHR ''n'']
      else if c = CHR 0x0D then [backslash, CHR ''r'']
      else if c = CHR 0x09 then [backslash, CHR ''t'']
      else if of_char c < (32 :: nat) \<or> c \<in> set ''<>&''
        then backslash # ''u00'' @ [hex_char (of_char c div 16), hex_char (of_char c mod 16)]
      else [c])"

definition json_text :: "string \<Rightarrow> string" where
  "json_text s = double_quote # concat (map json_char s) @ [double_quote]"

lemma hex_digit_char: "k < 16 \<Longrightarrow> hex_digit (hex_char k) = Some k"
proof -
  assume k: "k < 16"
  have "of_char (char_of n :: char) = n" if "n < 256" for n :: nat using that by simp
  with k have n: "of_char (hex_char k) = (if k < 10 then 48 + k else 87 + k)" by (simp add: hex_char_def)
  show ?thesis unfolding hex_digit_def n Let_def using k by simp
qed

lemma hex_digit_less: "hex_digit c = Some k \<Longrightarrow> k < 16"
proof -
  have "(if 48 \<le> n \<and> n \<le> 57 then Some (n - 48) else if 97 \<le> n \<and> n \<le> 102 then Some (n - 87)
      else if 65 \<le> n \<and> n \<le> 70 then Some (n - 55) else None) = Some k \<Longrightarrow> k < 16" for n :: nat
    by (auto split: if_splits)
  then show "hex_digit c = Some k \<Longrightarrow> k < 16" unfolding hex_digit_def Let_def by blast
qed

lemma special_characters [simp]: "backslash \<noteq> double_quote" "backslash \<noteq> CHR 0x0A"
  by (simp_all add: backslash_def double_quote_def)

lemma unquote_hex:
  assumes "n < 128"
  shows "unquote_escape (''u00'' @ [hex_char (n div 16), hex_char (n mod 16)] @ rest) = Some ([char_of n], rest)"
proof -
  let ?h = "hex_char (n div 16)" and ?l = "hex_char (n mod 16)"
  have zero: "hex_digit (CHR ''0'') = Some 0" by code_simp
  have four: "4 = Suc (Suc (Suc (Suc 0)))" by simp
  have "n div 16 < 16" using assms by simp
  with hex_digit_char [of "n div 16"] hex_digit_char [of "n mod 16"]
  have "read_digits hex_digit 16 4 0 (CHR ''0'' # CHR ''0'' # ?h # ?l # rest) = Some (n div 16 * 16 + n mod 16, rest)"
    unfolding four by (simp only: read_digits.simps zero option.case) simp
  then have "unquote_rune 4 (CHR ''0'' # CHR ''0'' # ?h # ?l # rest) = Some ([char_of n], rest)"
    using assms by (simp add: unquote_rune_def valid_rune_def append_rune_def)
  then show ?thesis by simp
qed

lemma unquote_simple:
  "c = double_quote \<or> c = backslash \<Longrightarrow> unquote_escape (c # s) = Some ([c], s)"
  "unquote_escape (CHR ''n'' # s) = Some ([CHR 0x0A], s)"
  "unquote_escape (CHR ''r'' # s) = Some ([CHR 0x0D], s)"
  "unquote_escape (CHR ''t'' # s) = Some ([CHR 0x09], s)"
proof -
  have "octal_digit double_quote = None" "octal_digit backslash = None" by code_simp+
  then show "c = double_quote \<or> c = backslash \<Longrightarrow> unquote_escape (c # s) = Some ([c], s)"
    by (auto simp: double_quote_def backslash_def)
qed simp_all

lemma unquote_loop_plain:
  "c \<noteq> double_quote \<Longrightarrow> c \<noteq> CHR 0x0A \<Longrightarrow> c \<noteq> backslash \<Longrightarrow>
     unquote_loop (c # s) = map_option (\<lambda>(out, r). (c # out, r)) (unquote_loop s)"
  by (simp split: option.split)

lemma unquote_loop_escape:
  "unquote_escape t = Some ([c], s) \<Longrightarrow>
     unquote_loop (backslash # t) = map_option (\<lambda>(out, r). (c # out, r)) (unquote_loop s)"
  by (simp split: option.split)

lemma unquote_loop_char:
  "unquote_loop (json_char c @ s) = map_option (\<lambda>(out, r). (c # out, r)) (unquote_loop s)"
proof -
  let ?u = "''u00'' @ [hex_char (of_char c div 16), hex_char (of_char c mod 16)]"
  have html: "c \<in> set ''<>&'' \<Longrightarrow> of_char c < (128 :: nat)" by auto
  have escaped: ?thesis if "json_char c = backslash # t" "unquote_escape (t @ s) = Some ([c], s)" for t
    using unquote_loop_escape [OF that(2)] that(1) by simp
  consider "c = double_quote \<or> c = backslash" | "c = CHR 0x0A" | "c = CHR 0x0D" | "c = CHR 0x09"
    | "\<not> (c = double_quote \<or> c = backslash)" "c \<noteq> CHR 0x0A" "c \<noteq> CHR 0x0D" "c \<noteq> CHR 0x09" by blast
  then show ?thesis
  proof cases
    case 1
    then have "json_char c = backslash # [c]" unfolding json_char_def by (simp only: if_True)
    with unquote_simple(1) [OF 1, of s] show ?thesis by (intro escaped [of "[c]"]) simp_all
  next
    case 2
    then have "json_char c = backslash # [CHR ''n'']"
      unfolding json_char_def by (simp add: double_quote_def backslash_def)
    with unquote_simple(2) [of s] 2 show ?thesis by (intro escaped [of "[CHR ''n'']"]) simp_all
  next
    case 3
    then have "json_char c = backslash # [CHR ''r'']"
      unfolding json_char_def by (simp add: double_quote_def backslash_def)
    with unquote_simple(3) [of s] 3 show ?thesis by (intro escaped [of "[CHR ''r'']"]) simp_all
  next
    case 4
    then have "json_char c = backslash # [CHR ''t'']"
      unfolding json_char_def by (simp add: double_quote_def backslash_def)
    with unquote_simple(4) [of s] 4 show ?thesis by (intro escaped [of "[CHR ''t'']"]) simp_all
  next
    case 5
    then have body: "json_char c = (if of_char c < (32 :: nat) \<or> c \<in> set ''<>&'' then backslash # ?u else [c])"
      unfolding json_char_def by (simp only: if_False)
    show ?thesis
    proof (cases "of_char c < (32 :: nat) \<or> c \<in> set ''<>&''")
      case True
      then have small: "of_char c < (128 :: nat)" using html less_trans [of "of_char c" 32 "128 :: nat"] by (elim disjE) simp_all
      from True body have "json_char c = backslash # ?u" by (simp only: if_True)
      then show ?thesis
        by (rule escaped) (use unquote_hex [OF small, of s] in \<open>simp only: append_assoc char_of_char\<close>)
    next
      case False
      with body have "json_char c = [c]" by (simp only: if_False)
      with unquote_loop_plain [of c s] 5 show ?thesis by (simp only: append_Cons append_Nil) blast
    qed
  qed
qed

lemma unquote_loop_text:
  "unquote_loop (concat (map json_char s) @ rest) = map_option (\<lambda>(out, r). (s @ out, r)) (unquote_loop rest)"
  by (induction s) (auto simp: unquote_loop_char option.map_comp o_def map_option.identity split_beta)

theorem unquote_json_text: "unquote_json (json_text s) = Some s"
  by (simp add: unquote_json_def json_text_def unquote_loop_text)

text \<open>So a value that is a JSON text arrives without its quotes; any other value arrives as it is written.\<close>

theorem json_value_unquoted:
  "json_to_unquoted_string unquote_json (json_text s) = s"
  "raw = [] \<or> hd raw \<noteq> double_quote \<Longrightarrow> json_to_unquoted_string unquote_json raw = raw"
  by (simp_all add: json_to_unquoted_string_def unquote_json_text)
    (auto simp: unquote_json_def split: list.split)

text \<open>
  But Go does not know every escape sequence of JSON: a text with an escaped slash, or with a character written as a
  pair of surrogates, is kept with its quotes and its escapes.
\<close>

theorem json_escapes_not_unquoted:
  assumes "raw = double_quote # concat (map json_char s) @ backslash # e @ rest"
    and "e = ''/'' \<or> (\<exists>x y z. e = [CHR ''u'', CHR ''d'', x, y, z] \<and> hex_digit x \<in> Some ` {8..15})"
  shows "json_to_unquoted_string unquote_json raw = raw"
proof -
  have "unquote_escape (e @ rest) = None"
    using assms(2)
  proof (elim disjE exE conjE)
    assume e: "e = ''/''"
    have "unquote_escape [CHR ''/''] = None" by code_simp
    moreover have "octal_digit (CHR ''/'') = None" by code_simp
    ultimately show ?thesis using e by (simp add: backslash_def double_quote_def)
  next
    fix x y z assume e: "e = [CHR ''u'', CHR ''d'', x, y, z]" and x: "hex_digit x \<in> Some ` {8..15}"
    then obtain k where k: "hex_digit x = Some k" "8 \<le> k" "k \<le> 15" by auto
    have d: "hex_digit (CHR ''d'') = Some 13" by code_simp
    have four: "4 = Suc (Suc (Suc (Suc 0)))" by simp
    have "\<not> valid_rune v" if "read_digits hex_digit 16 4 0 (CHR ''d'' # x # y # z # rest) = Some (v, r)" for v r
    proof -
      from that obtain i j where "hex_digit y = Some i" "hex_digit z = Some j" "v = ((13 * 16 + k) * 16 + i) * 16 + j"
        unfolding four by (auto simp: d k split: option.splits)
      with hex_digit_less [of y i] hex_digit_less [of z j] k show ?thesis by (simp add: valid_rune_def)
    qed
    then have "unquote_rune 4 (CHR ''d'' # x # y # z # rest) = None"
      by (auto simp: unquote_rune_def split: option.split)
    then show ?thesis by (simp add: e)
  qed
  then have "unquote_loop (backslash # e @ rest) = None"
    by simp
  then show ?thesis
    by (simp add: assms(1) json_to_unquoted_string_def unquote_json_def unquote_loop_text)
qed

end
