(* ===== verification/Component_Delivery.thy ===== *)
theory Component_Delivery
  imports Operator_Wire Json_Unquote "HOL-Library.List_Lexorder"
begin

text \<open>
  What a component becomes on its way from the cluster to a running sidecar: the object the operator stores, the
  item \<^verbatim>\<open>WatchComponents\<close> sends of it (\<^verbatim>\<open>pkg/operator/server.go\<close>), the specification
  \<^verbatim>\<open>GetComponentsWatcher\<close> decodes (\<^verbatim>\<open>pkg/operator/client.go\<close>) and the pub/sub object of the components manager
  (\<^verbatim>\<open>pkg/runtime/components_manager.go\<close>).  The theory composes the models of these parts.
\<close>

section \<open>The stream of the operator\<close>

text \<open>The watcher sends copies of the whole component, stored under its UID.\<close>

definition component_object :: "crd_component \<Rightarrow> crd_component object" where
  "component_object x = \<lparr>ob_uid = ob_uid x, ob_name = ob_name x, ob_namespace = ob_namespace x, ob_body = x\<rparr>"

text \<open>
  The loop of \<^verbatim>\<open>WatchComponents\<close> over the objects that pass its test: \<open>n\<close> identifiers were drawn before, and
  \<open>order i\<close> is the order in which the i-th encoding visits its map.  \<^term>\<open>None\<close> is a conversion that does not end.
\<close>

definition metadata_order :: "(smap \<Rightarrow> string list) \<Rightarrow> spec \<Rightarrow> string list" where
  "metadata_order ord sp = (case cs_metadata sp of None \<Rightarrow> [] | Some f \<Rightarrow> ord f)"

fun stream_components :: "(string \<Rightarrow> string option) \<Rightarrow> (nat \<Rightarrow> string) \<Rightarrow> (nat \<Rightarrow> smap \<Rightarrow> string list)
    \<Rightarrow> (json \<Rightarrow> 'd) \<Rightarrow> nat \<Rightarrow> nat \<Rightarrow> crd_component object list \<Rightarrow> ('d list \<times> nat) option" where
  "stream_components unquote uuid order print i n [] = Some ([], n)"
| "stream_components unquote uuid order print i n (x # xs) =
     (case convert_to_component unquote uuid n (ob_body x) of
        None \<Rightarrow> None
      | Some (sp, m) \<Rightarrow>
          (case stream_components unquote uuid order print (Suc i) m xs of
             None \<Rightarrow> None
           | Some (items, k) \<Rightarrow> Some (print (component_json (metadata_order (order i) sp) sp) # items, k)))"

text \<open>What the sidecar decodes of an item; \<open>partial\<close> is what the JSON library leaves of a struct when it fails.\<close>

definition decode_component :: "('d \<Rightarrow> json option) \<Rightarrow> ('d \<Rightarrow> spec) \<Rightarrow> 'd \<Rightarrow> spec" where
  "decode_component parse partial data =
     (case Option.bind (parse data) (\<lambda>v. as_struct component_fields v zero_component) of
        Some sp \<Rightarrow> sp
      | None \<Rightarrow> partial data)"

section \<open>What the sidecar receives\<close>

text \<open>The specifications alone: the conversions one after the other, each with the identifiers it draws.\<close>

fun convert_components :: "(string \<Rightarrow> string option) \<Rightarrow> (nat \<Rightarrow> string) \<Rightarrow> nat \<Rightarrow> crd_component list
    \<Rightarrow> (spec list \<times> nat) option" where
  "convert_components unquote uuid n [] = Some ([], n)"
| "convert_components unquote uuid n (x # xs) =
     (case convert_to_component unquote uuid n x of
        None \<Rightarrow> None
      | Some (sp, m) \<Rightarrow> map_option (\<lambda>(sps, k). (sp # sps, k)) (convert_components unquote uuid m xs))"

lemma decode_component_item:
  assumes "\<forall>ks sp. parse (print (component_json ks sp)) = Some (component_json ks sp)"
    and "\<forall>f. enumerates (ord f) f"
  shows "decode_component parse partial (print (component_json (metadata_order ord sp) sp)) = sp"
proof -
  have "as_struct component_fields (component_json (metadata_order ord sp) sp) zero_component = Some sp"
    by (rule component_roundtrip) (simp add: metadata_order_def assms(2))
  then show ?thesis using assms(1) by (simp add: decode_component_def)
qed

lemma stream_components_decoded:
  assumes "\<forall>ks sp. parse (print (component_json ks sp)) = Some (component_json ks sp)"
    and "\<forall>i f. enumerates (order i f) f"
  shows "map_option (\<lambda>(items, k). (map (decode_component parse partial) items, k))
      (stream_components unquote uuid order print i n xs) = convert_components unquote uuid n (map ob_body xs)"
proof (induction xs arbitrary: i n)
  case (Cons x xs)
  have item: "decode_component parse partial (print (component_json (metadata_order (order i) sp) sp)) = sp" for sp
    using assms decode_component_item [of parse print "order i" partial sp] by blast
  show ?case
  proof (cases "convert_to_component unquote uuid n (ob_body x)")
    case (Some r)
    then obtain sp m where "convert_to_component unquote uuid n (ob_body x) = Some (sp, m)" by (cases r) auto
    with Cons.IH [of "Suc i" m, symmetric] show ?thesis by (auto simp: item split: option.split)
  qed simp
qed simp

text \<open>The conversions end, because identifiers have no brace.\<close>

lemma convert_to_component_total:
  assumes "\<forall>n. CHR ''{'' \<notin> set (uuid n)"
  shows "\<exists>sp m. convert_to_component unquote uuid n x = Some (sp, m)"
  using convert_items_total [OF assms, of "json_to_unquoted_string unquote" "crd_metadata (ob_body x)" n fmempty]
  by (auto simp: convert_to_component_def convert_crd_items_def split: option.split)

lemma stream_components_total:
  assumes "\<forall>n. CHR ''{'' \<notin> set (uuid n)"
  shows "\<exists>items k. stream_components unquote uuid order print i n xs = Some (items, k)"
proof (induction xs arbitrary: i n)
  case (Cons x xs)
  obtain sp m where "convert_to_component unquote uuid n (ob_body x) = Some (sp, m)"
    using convert_to_component_total [OF assms] by blast
  with Cons.IH [of "Suc i" m] show ?case by auto
qed simp

text \<open>A component whose values have no \<^verbatim>\<open>{uuid}\<close> is converted to the same specification every time.\<close>

definition plain_component :: "(string \<Rightarrow> string option) \<Rightarrow> crd_component \<Rightarrow> bool" where
  "plain_component unquote x \<longleftrightarrow>
     (\<forall>(name, v)\<in>set (crd_metadata (ob_body x)). \<not> str_contains (json_to_unquoted_string unquote v) uuid_mark)"

definition plain_spec :: "(string \<Rightarrow> string option) \<Rightarrow> crd_component \<Rightarrow> spec" where
  "plain_spec unquote x =
     \<lparr>cs_name = ob_name x, cs_type = crd_type (ob_body x), cs_version = crd_version (ob_body x),
      cs_metadata = Some (foldl (\<lambda>properties (name, v). fmupd name (json_to_unquoted_string unquote v) properties)
        fmempty (crd_metadata (ob_body x))),
      cs_scopes = ob_scopes x\<rparr>"

lemma convert_items_plain:
  "\<forall>(name, v)\<in>set items. \<not> str_contains (text v) uuid_mark \<Longrightarrow>
     convert_items uuid text items n properties
       = Some (foldl (\<lambda>properties (name, v). fmupd name (text v) properties) properties items, n)"
proof (induction items arbitrary: properties)
  case (Cons item items)
  obtain name v where item: "item = (name, v)" by (cases item)
  with Cons.prems have "expand_uuids uuid n (text v) = Some (text v, n)"
    by (subst expand_uuids.simps) simp
  with Cons item show ?case by simp
qed simp

lemma convert_plain_component:
  "plain_component unquote x \<Longrightarrow> convert_to_component unquote uuid n x = Some (plain_spec unquote x, n)"
  by (simp add: convert_to_component_def convert_crd_items_def plain_component_def convert_items_plain plain_spec_def)

lemma convert_to_component_name: "convert_to_component unquote uuid n x = Some (sp, m) \<Longrightarrow> cs_name sp = ob_name x"
  by (auto simp: convert_to_component_def split: option.splits)

text \<open>What a conversion takes over unchanged.\<close>

lemma convert_to_component_fields:
  "convert_to_component unquote uuid n x = Some (sp, m) \<Longrightarrow>
     cs_name sp = ob_name x \<and> cs_type sp = crd_type (ob_body x) \<and> cs_version sp = crd_version (ob_body x)"
  by (auto simp: convert_to_component_def split: option.splits)

text \<open>\<open>converts unquote x sp\<close>: some conversion of \<open>x\<close>, with some identifiers, gives \<open>sp\<close>.\<close>

definition converts :: "(string \<Rightarrow> string option) \<Rightarrow> crd_component \<Rightarrow> spec \<Rightarrow> bool" where
  "converts unquote x sp \<longleftrightarrow> (\<exists>uuid n m. convert_to_component unquote uuid n x = Some (sp, m))"

lemma converts_fields:
  "converts unquote x sp \<Longrightarrow>
     cs_name sp = ob_name x \<and> cs_type sp = crd_type (ob_body x) \<and> cs_version sp = crd_version (ob_body x)"
  by (auto simp: converts_def dest: convert_to_component_fields)

lemma converts_plain: "plain_component unquote x \<Longrightarrow> converts unquote x sp \<Longrightarrow> sp = plain_spec unquote x"
  by (auto simp: converts_def convert_plain_component)

lemma convert_components_converts:
  "convert_components unquote uuid n xs = Some (specs, k) \<Longrightarrow> list_all2 (converts unquote) xs specs"
proof (induction xs arbitrary: n specs)
  case (Cons y ys)
  obtain sp m where sp: "convert_to_component unquote uuid n y = Some (sp, m)"
    using Cons.prems by (cases "convert_to_component unquote uuid n y") auto
  with Cons.prems obtain sps where sps: "convert_components unquote uuid m ys = Some (sps, k)" "specs = sp # sps"
    by auto
  from Cons.IH [OF sps(1)] sps(2) sp show ?case by (auto simp: converts_def)
qed simp

lemma list_all2_in_set2:
  assumes "list_all2 P xs ys" and "y \<in> set ys"
  obtains x where "x \<in> set xs" "P x y"
  using assms by (metis in_set_conv_nth list_all2_conv_all_nth)

subsection \<open>The streams that serve a sidecar\<close>

text \<open>
  A round of the sidecar's watcher and the stream of the operator that serves it, as in theory \<open>Operator_Wire\<close>: what the
  stream takes from its channel, the identifiers its conversions draw and the orders its encodings visit maps in.  The
  round gets a prefix of the items: what a stream sent last can be lost when it breaks.
\<close>

record 'd component_link =
  cl_taken :: "crd_component list"
  cl_uuid :: "nat \<Rightarrow> string"
  cl_order :: "nat \<Rightarrow> smap \<Rightarrow> string list"
  cl_round :: "'d watch_round"

definition link_sent :: "(string \<Rightarrow> string option) \<Rightarrow> (json \<Rightarrow> 'd) \<Rightarrow> string \<Rightarrow> 'd component_link \<Rightarrow> ('d list \<times> nat) option" where
  "link_sent unquote print namespace l =
     stream_components unquote (cl_uuid l) (cl_order l) print 0 0
       (ws_sent (fold take_object (map component_object (cl_taken l)) (new_watch_stream KComponent namespace [])))"

definition carries :: "(string \<Rightarrow> string option) \<Rightarrow> (json \<Rightarrow> 'd) \<Rightarrow> string \<Rightarrow> 'd component_link \<Rightarrow> bool" where
  "carries unquote print namespace l \<longleftrightarrow>
     (case link_sent unquote print namespace l of
        None \<Rightarrow> False
      | Some (items, n) \<Rightarrow> prefix (wr_received (cl_round l)) items)"

definition delivered_components :: "string \<Rightarrow> 'd component_link \<Rightarrow> crd_component list" where
  "delivered_components namespace l =
     take (length (wr_received (cl_round l))) (filter (\<lambda>y. ob_namespace y = namespace) (cl_taken l))"

lemma link_delivers:
  assumes "\<forall>ks sp. parse (print (component_json ks sp)) = Some (component_json ks sp)"
    and "\<forall>i f. enumerates (cl_order l i f) f" and "carries unquote print namespace l"
  shows "list_all2 (converts unquote) (delivered_components namespace l)
    (map (decode_component parse partial) (wr_received (cl_round l)))"
proof -
  let ?st = "new_watch_stream KComponent namespace [] :: crd_component watch_stream"
  have "wants ?st = (\<lambda>y. ob_namespace y = namespace)" by (rule ext) (simp add: wants_def new_watch_stream_def)
  then have sent: "map ob_body (ws_sent (fold take_object (map component_object (cl_taken l)) ?st))
      = filter (\<lambda>y. ob_namespace y = namespace) (cl_taken l)"
    by (simp add: fold_take_object new_watch_stream_def filter_map o_def component_object_def)
  from assms(3) obtain items k rest where items: "link_sent unquote print namespace l = Some (items, k)"
    "items = wr_received (cl_round l) @ rest"
    by (auto simp: carries_def prefix_def split: option.splits)
  have "convert_components unquote (cl_uuid l) 0 (filter (\<lambda>y. ob_namespace y = namespace) (cl_taken l))
      = Some (map (decode_component parse partial) items, k)"
    using stream_components_decoded [where parse = parse and print = print and order = "cl_order l", OF assms(1,2),
        of partial unquote "cl_uuid l" 0 0 "ws_sent (fold take_object (map component_object (cl_taken l)) ?st)"]
      items(1) by (simp add: sent link_sent_def)
  from list_all2_takeI [OF convert_components_converts [OF this], of "length (wr_received (cl_round l))"] items(2)
  show ?thesis by (simp add: delivered_components_def)
qed

text \<open>A stream that lost nothing has delivered everything of the namespace that it took.\<close>

lemma complete_link_delivers:
  assumes "link_sent unquote print namespace l = Some (wr_received (cl_round l), n)"
  shows "delivered_components namespace l = filter (\<lambda>y. ob_namespace y = namespace) (cl_taken l)"
proof -
  have "length items = length xs" if "stream_components unquote uuid order print i k xs = Some (items, m)"
    for uuid order i k xs and items :: "'a list" and m
    using that by (induction xs arbitrary: i k items m) (auto split: option.splits)
  from this [OF assms [unfolded link_sent_def]]
  have "length (wr_received (cl_round l)) = length (filter (\<lambda>y. ob_namespace y = namespace) (cl_taken l))"
    by (simp add: fold_take_object new_watch_stream_def wants_def filter_map o_def component_object_def)
  then show ?thesis by (simp add: delivered_components_def)
qed

section \<open>What the manager does with it\<close>

text \<open>The factory of \<open>sp\<close> makes an object that initialises to \<open>ps\<close> in a manager with the fields of \<open>m\<close>.\<close>

definition initialises :: "'p pubsub_ops \<Rightarrow> spec \<Rightarrow> 'p \<Rightarrow> ('p, 'o, 'w) manager \<Rightarrow> bool" where
  "initialises ops sp ps m \<longleftrightarrow>
     (\<exists>ps0. pubsub_create (m_pubsubs m) (cs_type sp) (cs_version sp) = Inr ps0
        \<and> ops_init ops ps0 (init_metadata (m_app_id m) (cs_metadata sp)) = (None, ps))"

lemma init_pubsub_initialises:
  "initialises ops sp ps m \<Longrightarrow> init_pubsub ops sp m = (None, m\<lparr>m_instances := fmupd (cs_name sp) ps (m_instances m)\<rparr>)"
  by (auto simp: initialises_def init_pubsub_def)

lemma init_pubsub_other:
  "init_pubsub ops s m = (err, m1) \<Longrightarrow> name \<noteq> cs_name s \<Longrightarrow>
     fmlookup (m_instances m1) name = fmlookup (m_instances m) name"
  by (auto simp: init_pubsub_def split: sum.splits prod.splits option.splits)

lemma pubsub_step_other:
  "pubsub_step ops cat operation s m = (err, m1) \<Longrightarrow> name \<noteq> cs_name s \<Longrightarrow>
     fmlookup (m_instances m1) name = fmlookup (m_instances m) name"
  by (auto simp: pubsub_step_def update_pubsub_def Let_def init_pubsub_other
      split: if_splits prod.splits option.splits dest: init_pubsub_other)

lemma add_or_update_frame:
  "add_or_update_component ops ks s m = (err, m1) \<Longrightarrow>
     m_app_id m1 = m_app_id m \<and> m_pubsubs m1 = m_pubsubs m"
  by (erule add_or_update_cases) (auto dest!: pubsub_step_frame split: if_splits)

text \<open>
  The components the manager knows under the name of \<open>sp\<close> are versions of it; the pub/sub object of one with the metadata
  of \<open>sp\<close> is \<open>ps\<close>, and there is another one only when \<^verbatim>\<open>Close\<close> cannot fail (\<open>closes\<close>).
\<close>

definition version_of :: "bool \<Rightarrow> spec \<Rightarrow> spec \<Rightarrow> bool" where
  "version_of closes sp c \<longleftrightarrow> cs_type c = cs_type sp \<and> cs_version c = cs_version sp
     \<and> (cs_metadata c \<noteq> cs_metadata sp \<longrightarrow> closes)"

definition known_as :: "bool \<Rightarrow> spec \<Rightarrow> 'p \<Rightarrow> ('p, 'o, 'w) manager \<Rightarrow> bool" where
  "known_as closes sp ps m \<longleftrightarrow> keys_ok m
     \<and> (\<forall>k c. fmlookup (m_components m) k = Some c \<longrightarrow> cs_name c = cs_name sp \<longrightarrow>
          version_of closes sp c
          \<and> (cs_metadata c = cs_metadata sp \<longrightarrow> fmlookup (m_instances m) (cs_name sp) = Some ps))"

lemma add_other_known:
  assumes "add_or_update_component ops ks s m = (err, m1)" and "cs_name s \<noteq> cs_name sp"
  shows "(known_as closes sp ps m \<longrightarrow> known_as closes sp ps m1)
    \<and> fmlookup (m_instances m1) (cs_name sp) = fmlookup (m_instances m) (cs_name sp)"
  using assms(1)
proof (cases rule: add_or_update_cases)
  case (stored cat operation m2)
  have "m_components m1 = fmupd (get_component_key (cs_type s) (cs_name s)) s (m_components m)"
    using stored(5) pubsub_step_frame [OF stored(4)] by (simp add: store_component_def)
  moreover have "fmlookup (m_instances m1) (cs_name sp) = fmlookup (m_instances m) (cs_name sp)"
    using stored(5) pubsub_step_other [OF stored(4)] assms(2) by simp
  ultimately show ?thesis
    using assms(2) add_or_update_keys_ok [OF _ assms(1)] by (auto simp: known_as_def)
qed simp_all

text \<open>A version is created, or takes the place of another one; with the metadata of \<open>sp\<close> that gives \<open>ps\<close>.\<close>

lemma pubsub_step_initialises:
  assumes "pubsub_step ops PubsubComponent operation s m = (err, m1)" and "initialises ops s ps m"
    and "operation = Update \<longrightarrow> (\<forall>p. fst (ops_close ops p) = None)"
  shows "fmlookup (m_instances m1) (cs_name s) = Some ps"
proof -
  let ?running = "if operation = Update then fmlookup (m_instances m) (cs_name s) else None"
  have "Option.bind ?running (\<lambda>p. fst (ops_close ops p)) = None"
    using assms(3) by (auto simp: bind_eq_None_conv)
  with pubsub_step_result [OF assms(1) refl refl refl] assms(2) show ?thesis
    by (auto simp: initialises_def)
qed

lemma add_known:
  assumes known: "known_as closes sp ps m" and inits: "initialises ops sp ps m"
    and cat: "extract_component_category sp = Some PubsubComponent"
    and s: "cs_name s = cs_name sp" "version_of closes sp s"
    and closes: "closes \<longrightarrow> (\<forall>p. fst (ops_close ops p) = None)"
    and add: "add_or_update_component ops ks s m = (err, m1)"
  shows "known_as closes sp ps m1
    \<and> (cs_metadata s = cs_metadata sp \<longrightarrow> fmlookup (m_instances m1) (cs_name sp) = Some ps)"
  using add
proof (cases rule: add_or_update_cases)
  case unchanged
  then obtain c where "get_component ks m (cs_type s) (cs_name s) = Some c" and c: "cs_metadata c = cs_metadata s"
    by (auto split: option.splits)
  then obtain k where "fmlookup (m_components m) k = Some c" "cs_name c = cs_name sp"
    using find_component_Some s(1) by (fastforce simp: get_component_def)
  with known c unchanged show ?thesis by (auto simp: known_as_def)
next
  case (invalid operation)
  with cat s show ?thesis by (simp add: extract_component_category_def version_of_def)
next
  case (stored category operation m2)
  have "category = PubsubComponent"
    using stored(1) cat s(2) by (simp add: extract_component_category_def version_of_def)
  note step = stored(4) [unfolded this]
  have no_close_error: "\<forall>p. fst (ops_close ops p) = None" if "operation = Update" "cs_metadata s = cs_metadata sp"
  proof -
    from that stored(2,3) obtain c where "get_component ks m (cs_type s) (cs_name s) = Some c" and c: "cs_metadata c \<noteq> cs_metadata sp"
      by (auto split: if_splits)
    then obtain k where "fmlookup (m_components m) k = Some c" "cs_name c = cs_name sp"
      using find_component_Some s(1) by (fastforce simp: get_component_def)
    with known c closes show ?thesis by (auto simp: known_as_def version_of_def)
  qed
  have now: "fmlookup (m_instances m1) (cs_name sp) = Some ps" if "cs_metadata s = cs_metadata sp"
  proof -
    have "initialises ops s ps m"
      using inits s(2) that by (simp add: initialises_def version_of_def)
    from pubsub_step_initialises [OF step this] no_close_error that stored(5) s(1) show ?thesis by simp
  qed
  have table: "m_components m1 = fmupd (get_component_key (cs_type s) (cs_name s)) s (m_components m)"
    using stored(5) pubsub_step_frame [OF stored(4)] by (simp add: store_component_def)
  have keys: "keys_ok m" "keys_ok m1" using known add_or_update_keys_ok [OF _ add] by (auto simp: known_as_def)
  have "c = s" if "fmlookup (m_components m1) k = Some c" "cs_name c = cs_name sp" for k c
  proof (cases "k = get_component_key (cs_type s) (cs_name s)")
    case False
    with that table have old: "fmlookup (m_components m) k = Some c" by simp
    with known that(2) have "cs_type c = cs_type sp" by (auto simp: known_as_def version_of_def)
    moreover from old keys(1) have "k = get_component_key (cs_type c) (cs_name c)" by (simp add: keys_ok_def)
    ultimately show ?thesis using False s that(2) by (simp add: version_of_def)
  qed (use that table in simp)
  with now keys(2) s(2) show ?thesis unfolding known_as_def by blast
qed

text \<open>
  So whatever versions came before, after one with the metadata of \<open>sp\<close> that is only followed by such ones, the object is
  that of \<open>sp\<close>.
\<close>

lemma watch_known:
  assumes "known_as closes sp ps m" and "initialises ops sp ps m" and "extract_component_category sp = Some PubsubComponent"
    and "closes \<longrightarrow> (\<forall>p. fst (ops_close ops p) = None)"
    and "\<forall>s\<in>set earlier. cs_name s = cs_name sp \<longrightarrow> version_of closes sp s"
    and "\<forall>s\<in>set later. cs_name s = cs_name sp \<longrightarrow> s = sp"
  shows "fmlookup (m_instances (watch_components_updates ops order (earlier @ sp # later) m)) (cs_name sp) = Some ps"
proof -
  have self: "version_of closes sp sp" by (simp add: version_of_def)
  have after: "fmlookup (m_instances (watch_components_updates ops order specs m')) (cs_name sp) = Some ps"
    if "known_as closes sp ps m'" "initialises ops sp ps m'" "fmlookup (m_instances m') (cs_name sp) = Some ps"
      "\<forall>s\<in>set specs. cs_name s = cs_name sp \<longrightarrow> s = sp" for specs m'
    using that
  proof (induction specs arbitrary: m')
    case (Cons s specs)
    obtain err m1 where m1: "add_or_update_component ops (order m') s m' = (err, m1)" by (rule prod.exhaust)
    have init: "initialises ops sp ps m1"
      using Cons.prems(2) add_or_update_frame [OF m1] by (simp add: initialises_def)
    have "known_as closes sp ps m1 \<and> fmlookup (m_instances m1) (cs_name sp) = Some ps"
    proof (cases "cs_name s = cs_name sp")
      case True
      with Cons.prems(4) have "s = sp" by simp
      with add_known [OF Cons.prems(1,2) assms(3) _ self assms(4)] m1 show ?thesis by blast
    next
      case False
      with add_other_known [OF m1 False] Cons.prems(1,3) show ?thesis by auto
    qed
    with Cons.IH [of m1] Cons.prems(4) init m1 show ?case by simp
  qed simp
  show ?thesis using assms(1,2,5)
  proof (induction earlier arbitrary: m)
    case Nil
    obtain err m1 where m1: "add_or_update_component ops (order m) sp m = (err, m1)" by (rule prod.exhaust)
    have "initialises ops sp ps m1"
      using Nil.prems(2) add_or_update_frame [OF m1] by (simp add: initialises_def)
    with add_known [OF Nil.prems(1,2) assms(3) refl self assms(4) m1] after [of m1 later] assms(6) m1 show ?case by simp
  next
    case (Cons s earlier)
    obtain err m1 where m1: "add_or_update_component ops (order m) s m = (err, m1)" by (rule prod.exhaust)
    have init: "initialises ops sp ps m1"
      using Cons.prems(2) add_or_update_frame [OF m1] by (simp add: initialises_def)
    have "known_as closes sp ps m1"
    proof (cases "cs_name s = cs_name sp")
      case True
      with Cons.prems(3) have "version_of closes sp s" by simp
      with add_known [OF Cons.prems(1,2) assms(3) True _ assms(4) m1] show ?thesis by blast
    next
      case False
      with add_other_known [OF m1 False] Cons.prems(1) show ?thesis by blast
    qed
    with Cons.IH [of m1] Cons.prems(3) init m1 show ?case by simp
  qed
qed

text \<open>Two versions of a component: the second one replaces the object of the first.\<close>

lemma second_version_replaces:
  assumes new: "new_components_manager app_id loader_err ds ms = Inr m0"
    and same: "cs_type s2 = cs_type s1" "cs_name s2 = cs_name s1" and differ: "cs_metadata s2 \<noteq> cs_metadata s1"
    and cat: "extract_component_category s1 = Some PubsubComponent"
    and inits: "initialises ops s1 ps1 m0" "initialises ops s2 ps2 m0" and close: "ops_close ops ps1 = (None, ps1')"
    and ranges: "\<forall>m. enumerates (ranges m) (m_components m)"
  shows "let m = watch_components_updates ops ranges [s1, s2] m0
    in map cn_operation (m_notifications m) = [Insert, Update] \<and> get_publisher m (cs_name s1) = Some ps2"
proof -
  have m0: "m_notifications m0 = []" "m_components m0 = fmempty" "m_instances m0 = fmempty"
    using new by (auto simp: new_components_manager_def split: option.splits)
  let ?m1 = "publish_change PubsubComponent Insert s1 (store_component s1 (m0\<lparr>m_instances := fmupd (cs_name s1) ps1 fmempty\<rparr>))"
  have "get_component (ranges m0) m0 (cs_type s1) (cs_name s1) = None"
    using get_component_eq [OF keys_ok_new [OF new] spec [OF ranges]] m0(2) by (simp add: lookup_spec_def)
  then have r1: "add_or_update_component ops (ranges m0) s1 m0 = (None, ?m1)"
    using init_pubsub_initialises [OF inits(1)] cat m0(3) by (simp add: add_or_update_component_def)
  have "lookup_spec ?m1 (cs_type s1) (cs_name s1) = Some s1"
    using lookup_spec_store [of s1 "m0\<lparr>m_instances := fmupd (cs_name s1) ps1 fmempty\<rparr>"] by (simp add: lookup_spec_def)
  with get_component_eq [OF add_or_update_keys_ok [OF keys_ok_new [OF new] r1] spec [OF ranges, of ?m1]]
  have old: "get_component (ranges ?m1) ?m1 (cs_type s2) (cs_name s2) = Some s1" by (simp add: same)
  let ?m2 = "?m1\<lparr>m_instances := fmupd (cs_name s1) ps1' (m_instances ?m1)\<rparr>"
  have "initialises ops s2 ps2 ?m2" using inits(2) by (simp add: initialises_def)
  from init_pubsub_initialises [OF this]
  have "update_pubsub ops s2 ?m1 = (None, ?m2\<lparr>m_instances := fmupd (cs_name s1) ps2 (m_instances ?m2)\<rparr>)"
    using close same by (simp add: update_pubsub_def)
  moreover have "extract_component_category s2 = Some PubsubComponent"
    using cat by (simp add: extract_component_category_def same)
  ultimately have "snd (add_or_update_component ops (ranges ?m1) s2 ?m1) =
      publish_change PubsubComponent Update s2 (store_component s2
        (?m2\<lparr>m_instances := fmupd (cs_name s1) ps2 (m_instances ?m2)\<rparr>))"
    using old differ by (simp add: add_or_update_component_def)
  then show ?thesis using r1 m0(1) by (simp add: get_publisher_def)
qed

section \<open>Properties\<close>

text \<open>C27: how a pub/sub component of the cluster becomes a pub/sub object of a sidecar of its namespace that can
  reconnect and is not stopped, over streams that lose what they sent last when they break.  Every round of the
  sidecar's watcher has a stream of its own in the operator; what gets through in a round is a first part of the
  components of the namespace that its stream took.  When a version of the component is the last one of its name
  that gets through, where it may be repeated, and its metadata needs no fresh identifier, then the manager hands
  out, under its name, the object its factory made and its \<^verbatim>\<open>Init\<close> accepted with the unquoted metadata and
  the sidecar's consumer id.  Other components may come in between, and other versions before it that have the same
  type and version field - the manager compares metadata only - when \<^verbatim>\<open>Close\<close> does not fail.\<close>

theorem component_reaches_publisher:
  assumes "\<forall>ks sp. parse (print (component_json ks sp)) = Some (component_json ks sp)"
    and "\<forall>l\<in>set links. (\<forall>i f. enumerates (cl_order l i f) f) \<and> carries unquote print namespace l
      \<and> \<not> wr_ctx_done (cl_round l) \<and> wr_reconnected (cl_round l)"
    and "concat (map (delivered_components namespace) links) = earlier @ x # later"
    and "\<forall>y\<in>set later. ob_name y = ob_name x \<longrightarrow> y = x"
    and "\<forall>y\<in>set earlier. ob_name y = ob_name x \<longrightarrow>
      crd_type (ob_body y) = crd_type (ob_body x) \<and> crd_version (ob_body y) = crd_version (ob_body x)"
    and "(\<forall>y\<in>set earlier. ob_name y = ob_name x \<longrightarrow> y = x) \<or> (\<forall>p. fst (ops_close ops p) = None)"
    and "plain_component unquote x" and "has_prefix ''pubsub.'' (crd_type (ob_body x))"
    and "new_components_manager app_id loader_err ds ms = Inr m0"
    and "initialises ops (plain_spec unquote x) ps m0"
  shows "\<exists>specs. get_watcher (decode_component parse partial) None (map cl_round links) = Inr (specs, StillWatching)
    \<and> get_publisher (watch_components_updates ops ranges specs m0) (ob_name x) = Some ps"
proof -
  let ?sp = "plain_spec unquote x"
  let ?decode = "decode_component parse partial"
  define closes where "closes \<longleftrightarrow> (\<forall>p. fst (ops_close ops p) = None)"
  define specs where "specs = map ?decode (concat (map wr_received (map cl_round links)))"
  have "list_all2 (converts unquote) (concat (map (delivered_components namespace) ls)) (map ?decode (concat (map wr_received (map cl_round ls))))"
    if "set ls \<subseteq> set links" for ls
    using that
  proof (induction ls)
    case (Cons l ls)
    then have "\<forall>i f. enumerates (cl_order l i f) f" "carries unquote print namespace l" using assms(2) by auto
    from link_delivers [where parse = parse and print = print and partial = partial, OF assms(1) this] Cons
    show ?case by (simp add: list_all2_appendI)
  qed simp
  from this [of links] assms(3) have "list_all2 (converts unquote) (earlier @ x # later) specs" by (simp add: specs_def)
  then obtain specs1 s specs2 where split: "specs = specs1 @ s # specs2" "list_all2 (converts unquote) earlier specs1"
    "converts unquote x s" "list_all2 (converts unquote) later specs2"
    by (auto simp: list_all2_append1 list_all2_Cons1)
  have s: "s = ?sp" by (rule converts_plain [OF assms(7) split(3)])
  have name: "cs_name ?sp = ob_name x" by (simp add: plain_spec_def)
  have before: "version_of closes ?sp s1" if "s1 \<in> set specs1" "cs_name s1 = cs_name ?sp" for s1
  proof -
    from split(2) that(1) obtain y where y: "y \<in> set earlier" "converts unquote y s1"
      by (rule list_all2_in_set2)
    with converts_fields [OF y(2)] that(2) assms(5) have "cs_type s1 = cs_type ?sp" "cs_version s1 = cs_version ?sp"
      by (auto simp: plain_spec_def)
    moreover have "closes" if "cs_metadata s1 \<noteq> cs_metadata ?sp"
    proof -
      have "y \<noteq> x" using that y(2) converts_plain [OF assms(7)] by auto
      with y(1) converts_fields [OF y(2)] \<open>cs_name s1 = cs_name ?sp\<close> assms(6) show ?thesis by (auto simp: closes_def name)
    qed
    ultimately show ?thesis by (simp add: version_of_def)
  qed
  have after: "s1 = ?sp" if "s1 \<in> set specs2" "cs_name s1 = cs_name ?sp" for s1
  proof -
    from split(4) that(1) obtain y where y: "y \<in> set later" "converts unquote y s1"
      by (rule list_all2_in_set2)
    with converts_fields [OF y(2)] that(2) assms(4) have "y = x" by (simp add: name)
    with y(2) show ?thesis using converts_plain [OF assms(7)] by simp
  qed
  have cat: "extract_component_category ?sp = Some PubsubComponent"
    using assms(8) by (cases "crd_type (ob_body x)")
      (auto simp: extract_component_category_def component_categories_def plain_spec_def)
  have new: "known_as closes ?sp ps m0"
    using assms(9) keys_ok_new [OF assms(9)] by (auto simp: new_components_manager_def known_as_def split: option.splits)
  have "fmlookup (m_instances (watch_components_updates ops ranges specs m0)) (cs_name ?sp) = Some ps"
    unfolding split(1) s
    by (rule watch_known [OF new assms(10) cat]) (use before after in \<open>auto simp: closes_def\<close>)
  then have "get_publisher (watch_components_updates ops ranges specs m0) (ob_name x) = Some ps"
    by (simp add: get_publisher_def name)
  moreover have "\<forall>r\<in>set (map cl_round links). \<not> wr_ctx_done r \<and> wr_reconnected r" using assms(2) by auto
  then have "get_watcher ?decode None (map cl_round links) = Inr (specs, StillWatching)"
    unfolding specs_def by (rule watcher_sends_everything)
  ultimately show ?thesis by (intro exI [of _ specs] conjI)
qed

text \<open>
  A component with \<^verbatim>\<open>{uuid}\<close> in a value is another one each time it is announced: every item the operator sends of it
  has fresh identifiers, so a sidecar that reconnects, and has everything replayed, takes the unchanged component for an
  update: it closes the pub/sub object and announces a change, for which all its subscriptions are made again.
\<close>

definition marked_spec :: "crd_component \<Rightarrow> string \<Rightarrow> string \<Rightarrow> spec" where
  "marked_spec x key u =
     \<lparr>cs_name = ob_name x, cs_type = crd_type (ob_body x), cs_version = crd_version (ob_body x),
      cs_metadata = Some (fmupd key u fmempty), cs_scopes = ob_scopes x\<rparr>"

lemma uuid_mark_contains [simp]: "str_contains uuid_mark uuid_mark"
  by (simp add: uuid_mark_def str_contains_def)

lemma expand_mark: "CHR ''{'' \<notin> set (uuid n) \<Longrightarrow> expand_uuids uuid n uuid_mark = Some (uuid n, Suc n)"
proof -
  assume brace: "CHR ''{'' \<notin> set (uuid n)"
  have "replace_first uuid_mark uuid_mark (uuid n) = uuid n"
    by (simp add: uuid_mark_def replace_first_def)
  moreover have "\<not> str_contains (uuid n) uuid_mark"
    using brace by (auto simp: str_contains_iff uuid_mark_def)
  ultimately show ?thesis by (simp add: expand_uuids.simps [of uuid n uuid_mark] expand_uuids.simps [of uuid "Suc n" "uuid n"])
qed

theorem marked_component_announced_twice:
  assumes "crd_metadata (ob_body x) = [(key, raw)]" and "json_to_unquoted_string unquote raw = uuid_mark"
    and "CHR ''{'' \<notin> set (uuid n)" and "CHR ''{'' \<notin> set (uuid (Suc n))" and "uuid n \<noteq> uuid (Suc n)"
    and "new_components_manager app_id loader_err ds ms = Inr m0"
    and "extract_component_category (marked_spec x key (uuid n)) = Some PubsubComponent"
    and "initialises ops (marked_spec x key (uuid n)) ps1 m0" and "initialises ops (marked_spec x key (uuid (Suc n))) ps2 m0"
    and "ops_close ops ps1 = (None, ps1')" and "\<forall>m. enumerates (ranges m) (m_components m)"
  shows "convert_components unquote uuid n [x, x]
      = Some ([marked_spec x key (uuid n), marked_spec x key (uuid (Suc n))], Suc (Suc n))
    \<and> (let m = watch_components_updates ops ranges [marked_spec x key (uuid n), marked_spec x key (uuid (Suc n))] m0
       in map cn_operation (m_notifications m) = [Insert, Update] \<and> get_publisher m (ob_name x) = Some ps2)"
proof -
  let ?s1 = "marked_spec x key (uuid n)" and ?s2 = "marked_spec x key (uuid (Suc n))"
  have conv: "convert_to_component unquote uuid k x = Some (marked_spec x key (uuid k), Suc k)"
    if "CHR ''{'' \<notin> set (uuid k)" for k
    using that assms(1,2) by (simp add: convert_to_component_def convert_crd_items_def expand_mark marked_spec_def)
  have fields: "cs_type ?s2 = cs_type ?s1" "cs_name ?s2 = cs_name ?s1" "cs_metadata ?s2 \<noteq> cs_metadata ?s1"
    using assms(5) by (auto simp: marked_spec_def dest: arg_cong [where f = "\<lambda>f. fmlookup f key"])
  have "let m = watch_components_updates ops ranges [?s1, ?s2] m0
      in map cn_operation (m_notifications m) = [Insert, Update] \<and> get_publisher m (ob_name x) = Some ps2"
    using second_version_replaces [OF assms(6) fields assms(7-11)] by (simp add: marked_spec_def)
  moreover have "convert_components unquote uuid n [x, x] = Some ([?s1, ?s2], Suc (Suc n))"
    using conv assms(3,4) by simp
  ultimately show ?thesis by blast
qed

text \<open>
  And a sidecar that is sent two versions of a component in the wrong order, which the operator does not exclude
  (\<^verbatim>\<open>stale_version_sent_last\<close> of theory \<open>Operator\<close>), goes back to the old one: it closes the object of the new version and
  runs with the old metadata.
\<close>

theorem overtaken_update_undone:
  assumes "plain_component unquote new" and "plain_component unquote old"
    and "ob_name old = ob_name new" and "crd_type (ob_body old) = crd_type (ob_body new)"
    and "cs_metadata (plain_spec unquote old) \<noteq> cs_metadata (plain_spec unquote new)"
    and "new_components_manager app_id loader_err ds ms = Inr m0"
    and "extract_component_category (plain_spec unquote new) = Some PubsubComponent"
    and "initialises ops (plain_spec unquote new) ps_new m0" and "initialises ops (plain_spec unquote old) ps_old m0"
    and "ops_close ops ps_new = (None, ps_closed)" and "\<forall>m. enumerates (ranges m) (m_components m)"
  shows "\<exists>specs. convert_components unquote uuid n [new, old] = Some (specs, n)
    \<and> get_publisher (watch_components_updates ops ranges specs m0) (ob_name new) = Some ps_old"
proof -
  have fields: "cs_type (plain_spec unquote old) = cs_type (plain_spec unquote new)"
    "cs_name (plain_spec unquote old) = cs_name (plain_spec unquote new)"
    using assms(3,4) by (simp_all add: plain_spec_def)
  have name: "cs_name (plain_spec unquote new) = ob_name new" by (simp add: plain_spec_def)
  have "convert_components unquote uuid n [new, old] = Some ([plain_spec unquote new, plain_spec unquote old], n)"
    using assms(1,2) by (simp add: convert_plain_component)
  moreover from second_version_replaces [OF assms(6) fields assms(5,7-11)]
  have "get_publisher (watch_components_updates ops ranges [plain_spec unquote new, plain_spec unquote old] m0)
      (ob_name new) = Some ps_old"
    unfolding Let_def name by blast
  ultimately show ?thesis by blast
qed

section \<open>Witnesses\<close>

definition bus_component :: "string \<Rightarrow> (string \<times> string) list \<Rightarrow> crd_component" where
  "bus_component namespace items =
     \<lparr>ob_uid = ''u-'' @ namespace, ob_name = ''bus'', ob_namespace = namespace,
      ob_body = \<lparr>crd_type = ''pubsub.jetstream'', crd_version = ''v1'', crd_ignore_errors = False,
        crd_metadata = items, crd_init_timeout = []\<rparr>,
      ob_secret_store = [], ob_scopes = []\<rparr>"

definition sample_items :: "(string \<times> string) list" where
  "sample_items = [(''natsURL'', json_text ''nats://x'')]"

definition old_items :: "(string \<times> string) list" where
  "old_items = [(''natsURL'', json_text ''nats://old'')]"

text \<open>A broker that shows the URL it was initialised with.\<close>

definition url_ops :: "nat pubsub_ops" where
  "url_ops = sample_ops\<lparr>ops_init := \<lambda>p md. (None, length (gomap_read md ''natsURL''))\<rparr>"

definition bus_item :: "(string \<times> string) list \<Rightarrow> json" where
  "bus_item items = component_json [''natsURL''] (plain_spec unquote_json (bus_component ''ns'' items))"

text \<open>
  The first stream takes the old version, a component of another namespace and the new version, which is lost
  when it breaks; the second one takes the new version in its replay.
\<close>

definition sample_order :: "nat \<Rightarrow> smap \<Rightarrow> string list" where
  "sample_order i f = sorted_list_of_fset (fmdom f)"

definition first_link :: "json component_link" where
  "first_link =
     \<lparr>cl_taken = [bus_component ''ns'' old_items, bus_component ''other'' [(''natsURL'', json_text ''{uuid}'')],
        bus_component ''ns'' sample_items],
      cl_uuid = (\<lambda>n. ''id''), cl_order = sample_order,
      cl_round = \<lparr>wr_ctx_done = False, wr_received = [bus_item old_items], wr_reconnected = True\<rparr>\<rparr>"

definition second_link :: "json component_link" where
  "second_link =
     \<lparr>cl_taken = [bus_component ''ns'' sample_items], cl_uuid = (\<lambda>n. ''id''), cl_order = sample_order,
      cl_round = \<lparr>wr_ctx_done = False, wr_received = [bus_item sample_items], wr_reconnected = True\<rparr>\<rparr>"

lemma sample_plain: "plain_component unquote_json (bus_component ''ns'' sample_items)"
  "plain_component unquote_json (bus_component ''ns'' old_items)"
  by (simp_all add: plain_component_def bus_component_def sample_items_def old_items_def json_value_unquoted)
    (simp_all add: str_contains_def uuid_mark_def)

lemma sample_order_enumerates: "enumerates (sample_order i f) f"
proof -
  have "distinct (sorted_list_of_fset S)" for S :: "string fset"
    by (simp add: sorted_list_of_fset.rep_eq)
  then show ?thesis by (simp add: sample_order_def enumerates_def)
qed

lemma sample_metadata_order:
  "metadata_order (sample_order i) (plain_spec unquote_json (bus_component ''ns'' sample_items)) = [''natsURL'']"
  "metadata_order (sample_order i) (plain_spec unquote_json (bus_component ''ns'' old_items)) = [''natsURL'']"
  by (simp_all add: metadata_order_def sample_order_def plain_spec_def bus_component_def sample_items_def old_items_def
      sorted_list_of_fset.rep_eq)

lemma sample_carries: "carries unquote_json (\<lambda>v. v) ''ns'' first_link" "carries unquote_json (\<lambda>v. v) ''ns'' second_link"
proof -
  let ?old = "bus_component ''ns'' old_items" and ?new = "bus_component ''ns'' sample_items"
  have "ws_sent (fold take_object (map component_object (cl_taken first_link)) (new_watch_stream KComponent ''ns'' []))
      = [component_object ?old, component_object ?new]"
    and "ws_sent (fold take_object (map component_object (cl_taken second_link)) (new_watch_stream KComponent ''ns'' []))
      = [component_object ?new]"
    by (simp_all add: fold_take_object new_watch_stream_def wants_def component_object_def bus_component_def take_object_def
        first_link_def second_link_def)
  then have "link_sent unquote_json (\<lambda>v. v) ''ns'' first_link = Some ([bus_item old_items, bus_item sample_items], 0)"
    "link_sent unquote_json (\<lambda>v. v) ''ns'' second_link = Some ([bus_item sample_items], 0)"
    by (simp_all add: link_sent_def first_link_def second_link_def component_object_def
        convert_plain_component [OF sample_plain(1)] convert_plain_component [OF sample_plain(2)] sample_metadata_order bus_item_def)
  then show "carries unquote_json (\<lambda>v. v) ''ns'' first_link" "carries unquote_json (\<lambda>v. v) ''ns'' second_link"
    by (simp_all add: carries_def first_link_def second_link_def)
qed

theorem component_reaches_publisher_witness:
  "\<exists>specs. get_watcher (decode_component Some (\<lambda>d. zero_component)) None
      [\<lparr>wr_ctx_done = False, wr_received = [bus_item old_items], wr_reconnected = True\<rparr>,
       \<lparr>wr_ctx_done = False, wr_received = [bus_item sample_items], wr_reconnected = True\<rparr>] = Inr (specs, StillWatching)
    \<and> get_publisher (watch_components_updates url_ops (\<lambda>m. sorted_list_of_fset (fmdom (m_components m))) specs sample_manager)
        ''bus'' = Some (length ''nats://x'')"
proof -
  let ?x = "bus_component ''ns'' sample_items"
  let ?sp = "plain_spec unquote_json ?x"
  let ?links = "[first_link, second_link]"
  have links: "\<forall>l\<in>set ?links. (\<forall>i f. enumerates (cl_order l i f) f) \<and> carries unquote_json (\<lambda>v. v) ''ns'' l
      \<and> \<not> wr_ctx_done (cl_round l) \<and> wr_reconnected (cl_round l)"
    by (simp add: sample_carries) (simp add: first_link_def second_link_def sample_order_enumerates)
  have delivered: "concat (map (delivered_components ''ns'') ?links) = [bus_component ''ns'' old_items] @ ?x # []"
    by (simp add: delivered_components_def first_link_def second_link_def bus_component_def)
  have versions: "\<forall>y\<in>set [bus_component ''ns'' old_items]. ob_name y = ob_name ?x \<longrightarrow>
      crd_type (ob_body y) = crd_type (ob_body ?x) \<and> crd_version (ob_body y) = crd_version (ob_body ?x)"
    by (simp add: bus_component_def)
  have closes: "(\<forall>y\<in>set [bus_component ''ns'' old_items]. ob_name y = ob_name ?x \<longrightarrow> y = ?x)
      \<or> (\<forall>p. fst (ops_close url_ops p) = None)"
    by (simp add: url_ops_def sample_ops_def)
  have typed: "has_prefix ''pubsub.'' (crd_type (ob_body ?x))" by (simp add: bus_component_def)
  have sp: "?sp = sample_spec"
    by (simp add: plain_spec_def bus_component_def sample_items_def json_value_unquoted sample_spec_def)
  have init: "initialises url_ops ?sp (length ''nats://x'') sample_manager"
    unfolding initialises_def sp by (rule exI [of _ 0]) code_simp
  have rounds: "map cl_round ?links =
      [\<lparr>wr_ctx_done = False, wr_received = [bus_item old_items], wr_reconnected = True\<rparr>,
       \<lparr>wr_ctx_done = False, wr_received = [bus_item sample_items], wr_reconnected = True\<rparr>]"
    by (simp add: first_link_def second_link_def)
  have name: "ob_name ?x = ''bus''" by (simp add: bus_component_def)
  have roundtrip: "\<forall>ks sp. Some (component_json ks sp) = Some (component_json ks sp)" by simp
  have last: "\<forall>y\<in>set ([] :: crd_component list). ob_name y = ob_name ?x \<longrightarrow> y = ?x" by simp
  from component_reaches_publisher [where parse = Some and print = "\<lambda>v. v" and partial = "\<lambda>d. zero_component",
      OF roundtrip links delivered last versions closes sample_plain(1) typed sample_manager_new init]
  show ?thesis unfolding rounds name .
qed

theorem marked_component_announced_twice_witness:
  "let uuid = (\<lambda>n :: nat. if n = 0 then ''a'' else ''b'');
       x = bus_component ''ns'' [(''natsURL'', ''{uuid}'')];
       m = watch_components_updates sample_ops (\<lambda>m. sorted_list_of_fset (fmdom (m_components m)))
             [marked_spec x ''natsURL'' (uuid 0), marked_spec x ''natsURL'' (uuid 1)] sample_manager
   in map cn_operation (m_notifications m) = [Insert, Update]"
proof -
  let ?uuid = "\<lambda>n :: nat. if n = 0 then ''a'' else ''b''"
  let ?x = "bus_component ''ns'' [(''natsURL'', ''{uuid}'')]"
  let ?ranges = "\<lambda>m :: (nat, nat, unit) manager. sorted_list_of_fset (fmdom (m_components m))"
  have init: "initialises sample_ops (marked_spec ?x ''natsURL'' (?uuid k)) 1 sample_manager" for k
    unfolding initialises_def by (rule exI [of _ 0], cases "k = 0"; simp only: if_True if_False; code_simp)
  have cat: "extract_component_category (marked_spec ?x ''natsURL'' (?uuid 0)) = Some PubsubComponent" by code_simp
  have distinct: "distinct (sorted_list_of_fset S)" for S :: "string fset"
    by (simp add: sorted_list_of_fset.rep_eq)
  have items: "crd_metadata (ob_body ?x) = [(''natsURL'', ''{uuid}'')]" by (simp add: bus_component_def)
  have raw: "json_to_unquoted_string (\<lambda>s. None) ''{uuid}'' = uuid_mark"
    by (simp add: json_to_unquoted_string_def uuid_mark_def)
  have ranges: "\<forall>m. enumerates (?ranges m) (m_components m)" by (simp add: enumerates_def distinct)
  have close: "ops_close sample_ops 1 = (None, 1)" by (simp add: sample_ops_def)
  from marked_component_announced_twice [where uuid = ?uuid and n = 0 and ops = sample_ops and ranges = ?ranges, OF items raw _ _ _ sample_manager_new cat init init close ranges]
  show ?thesis by (simp del: watch_components_updates.simps convert_components.simps add: Let_def)
qed

theorem overtaken_update_undone_witness:
  "\<exists>specs. convert_components unquote_json (\<lambda>n. ''id'') 0
      [bus_component ''ns'' [(''natsURL'', ''nats://new'')], bus_component ''ns'' [(''natsURL'', ''nats://old'')]] = Some (specs, 0)
    \<and> get_publisher (watch_components_updates sample_ops (\<lambda>m. sorted_list_of_fset (fmdom (m_components m))) specs
          sample_manager) ''bus'' = Some 1"
proof -
  let ?new = "bus_component ''ns'' [(''natsURL'', ''nats://new'')]"
  let ?old = "bus_component ''ns'' [(''natsURL'', ''nats://old'')]"
  let ?ranges = "\<lambda>m :: (nat, nat, unit) manager. sorted_list_of_fset (fmdom (m_components m))"
  have plain: "plain_component unquote_json ?new" "plain_component unquote_json ?old" by code_simp+
  have same: "ob_name ?old = ob_name ?new" "crd_type (ob_body ?old) = crd_type (ob_body ?new)"
    by (simp_all add: bus_component_def)
  have raw: "unquote_json ''nats://old'' = None" "unquote_json ''nats://new'' = None" by code_simp+
  have differ: "cs_metadata (plain_spec unquote_json ?old) \<noteq> cs_metadata (plain_spec unquote_json ?new)"
    by (auto simp: plain_spec_def bus_component_def json_to_unquoted_string_def raw
        dest: arg_cong [where f = "\<lambda>f. fmlookup f ''natsURL''"])
  have cat: "extract_component_category (plain_spec unquote_json ?new) = Some PubsubComponent" by code_simp
  have init: "initialises sample_ops (plain_spec unquote_json ?new) 1 sample_manager"
    "initialises sample_ops (plain_spec unquote_json ?old) 1 sample_manager"
    unfolding initialises_def by (rule exI [of _ 0], code_simp)+
  have distinct: "distinct (sorted_list_of_fset S)" for S :: "string fset"
    by (simp add: sorted_list_of_fset.rep_eq)
  have ranges: "\<forall>m. enumerates (?ranges m) (m_components m)" by (simp add: enumerates_def distinct)
  have close: "ops_close sample_ops 1 = (None, 1)" by (simp add: sample_ops_def)
  have name: "ob_name ?new = ''bus''" by (simp add: bus_component_def)
  from overtaken_update_undone [where ranges = ?ranges and uuid = "\<lambda>n. ''id''" and n = 0,
      OF plain same differ sample_manager_new cat init close ranges]
  show ?thesis unfolding name .
qed

end
