(* ===== verification/Kube_Scheme.thy ===== *)
theory Kube_Scheme
  imports Kube_Client
begin

text \<open>
  The types of the custom resources in the schemes of the clients (\<^verbatim>\<open>pkg/operator/apis/rusi/v1alpha1/register.go\<close>,
  \<^verbatim>\<open>register.go\<close> of the packages \<^verbatim>\<open>scheme\<close> and \<^verbatim>\<open>fake\<close> of the client set), and the fake client set
  (\<^verbatim>\<open>clientset_generated.go\<close>, \<^verbatim>\<open>fake_rusi_client.go\<close>).  The scheme (\<open>'sch\<close>), its builder and the tracker of objects of
  the Kubernetes libraries are records of parameters.
\<close>

section \<open>Registration\<close>

text \<open>A function a \<^verbatim>\<open>SchemeBuilder\<close> collects; \<open>sl_build\<close> is its \<^verbatim>\<open>AddToScheme\<close>.\<close>

type_synonym 'sch scheme_func = "'sch \<Rightarrow> error option \<times> 'sch"

record 'sch scheme_library =
  sl_new :: 'sch
  sl_add_known_types :: "group_version \<Rightarrow> string list \<Rightarrow> 'sch \<Rightarrow> 'sch"
  sl_add_to_group_version :: "group_version \<Rightarrow> 'sch \<Rightarrow> 'sch"
  sl_build :: "'sch scheme_func list \<Rightarrow> 'sch scheme_func"

definition known_types :: "string list" where
  "known_types = [''Component'', ''ComponentList'', ''Configuration'', ''ConfigurationList'']"

definition add_known_types :: "'sch scheme_library \<Rightarrow> 'sch scheme_func" where
  "add_known_types lib s =
     (None, sl_add_to_group_version lib scheme_group_version
              (sl_add_known_types lib scheme_group_version known_types s))"

definition api_add_to_scheme :: "'sch scheme_library \<Rightarrow> 'sch scheme_func" where
  "api_add_to_scheme lib = sl_build lib [add_known_types lib]"

text \<open>The package variables and the \<^verbatim>\<open>init\<close> of the client set; \<^verbatim>\<open>utilruntime.Must\<close> panics with an error.\<close>

definition client_add_to_scheme :: "'sch scheme_library \<Rightarrow> 'sch scheme_func" where
  "client_add_to_scheme lib = sl_build lib [api_add_to_scheme lib]"

definition meta_version :: group_version where
  "meta_version = \<lparr>gv_group = [], gv_version = ''v1''\<rparr>"

definition client_scheme_init :: "'sch scheme_library \<Rightarrow> 'sch attempt" where
  "client_scheme_init lib =
     (case client_add_to_scheme lib (sl_add_to_group_version lib meta_version (sl_new lib)) of
        (Some e, s) \<Rightarrow> PanicsWith e
      | (None, s) \<Rightarrow> Value s)"

text \<open>The fake client set has variables of its own, made in the same way.\<close>

definition fake_add_to_scheme :: "'sch scheme_library \<Rightarrow> 'sch scheme_func" where
  "fake_add_to_scheme lib = sl_build lib [api_add_to_scheme lib]"

definition fake_scheme_init :: "'sch scheme_library \<Rightarrow> 'sch attempt" where
  "fake_scheme_init lib =
     (case fake_add_to_scheme lib (sl_add_to_group_version lib meta_version (sl_new lib)) of
        (Some e, s) \<Rightarrow> PanicsWith e
      | (None, s) \<Rightarrow> Value s)"

text \<open>\<^verbatim>\<open>AddToScheme\<close> of a builder runs its functions in order and stops at the first error, as documented.\<close>

fun in_order :: "'sch scheme_func list \<Rightarrow> 'sch scheme_func" where
  "in_order [] s = (None, s)"
| "in_order (f # fs) s = (case f s of (Some e, s1) \<Rightarrow> (Some e, s1) | (None, s1) \<Rightarrow> in_order fs s1)"

text \<open>Then no package initialisation panics, and both schemes know the four types under the API's group version.\<close>

theorem schemes_initialised:
  assumes "\<forall>fs s. sl_build lib fs s = in_order fs s"
  shows "client_scheme_init lib = Value (sl_add_to_group_version lib scheme_group_version
      (sl_add_known_types lib scheme_group_version known_types (sl_add_to_group_version lib meta_version (sl_new lib))))"
    and "fake_scheme_init lib = client_scheme_init lib"
proof -
  have build: "sl_build lib = in_order" using assms by blast
  show "client_scheme_init lib = Value (sl_add_to_group_version lib scheme_group_version
      (sl_add_known_types lib scheme_group_version known_types (sl_add_to_group_version lib meta_version (sl_new lib))))"
    by (simp add: client_scheme_init_def client_add_to_scheme_def api_add_to_scheme_def add_known_types_def build)
  show "fake_scheme_init lib = client_scheme_init lib"
    by (simp only: fake_scheme_init_def client_scheme_init_def fake_add_to_scheme_def client_add_to_scheme_def)
qed

section \<open>The fake client set\<close>

text \<open>
  The tracker (\<open>'t\<close>) is a pointer that the client set and both reactors hold, so they see its current state.
  \<open>'s\<close> is \<^verbatim>\<open>watch.Interface\<close>, \<open>'rx\<close> a reaction function of the library.
\<close>

record ('t, 'ob, 's, 'd, 'rx) tracker_library =
  tk_new_tracker :: 't
  tk_add :: "'ob \<Rightarrow> 't \<Rightarrow> error option \<times> 't"
  tk_watch :: "'t \<Rightarrow> group_version_resource \<Rightarrow> string \<Rightarrow> error + 's"
  tk_object_reaction :: 'rx
  tk_fake_discovery :: 'd

text \<open>What \<^verbatim>\<open>AddReactor\<close> and \<^verbatim>\<open>AddWatchReactor\<close> were called with, in order.\<close>

record ('t, 's, 'd, 'rx) fake_clientset =
  fs_tracker :: 't
  fs_discovery :: 'd
  fs_reactors :: "(string \<times> string \<times> 'rx) list"
  fs_watch_reactors :: "(string \<times> ('t \<Rightarrow> group_version_resource \<times> string \<Rightarrow> bool \<times> 's option \<times> error option)) list"

text \<open>The function given to \<^verbatim>\<open>AddWatchReactor\<close>, on the resource and the namespace of an action.\<close>

definition watch_reaction :: "('t, 'ob, 's, 'd, 'rx) tracker_library \<Rightarrow> 't \<Rightarrow> group_version_resource \<times> string
    \<Rightarrow> bool \<times> 's option \<times> error option" where
  "watch_reaction lib o1 action =
     (case tk_watch lib o1 (fst action) (snd action) of
        Inl err \<Rightarrow> (False, None, Some err)
      | Inr w \<Rightarrow> (True, Some w, None))"

fun add_objects :: "('t, 'ob, 's, 'd, 'rx) tracker_library \<Rightarrow> 'ob list \<Rightarrow> 't \<Rightarrow> 't attempt" where
  "add_objects lib [] o1 = Value o1"
| "add_objects lib (obj # objects) o1 =
     (case tk_add lib obj o1 of (Some err, o2) \<Rightarrow> PanicsWith err | (None, o2) \<Rightarrow> add_objects lib objects o2)"

definition new_simple_clientset :: "('t, 'ob, 's, 'd, 'rx) tracker_library \<Rightarrow> 'ob list
    \<Rightarrow> ('t, 's, 'd, 'rx) fake_clientset attempt" where
  "new_simple_clientset lib objects =
     (case add_objects lib objects (tk_new_tracker lib) of
        PanicsWith e \<Rightarrow> PanicsWith e
      | FatalExit e \<Rightarrow> FatalExit e
      | Value o1 \<Rightarrow>
          Value \<lparr>fs_tracker = o1, fs_discovery = tk_fake_discovery lib,
                 fs_reactors = [(''*'', ''*'', tk_object_reaction lib)],
                 fs_watch_reactors = [(''*'', watch_reaction lib)]\<rparr>)"

definition fake_clientset_discovery :: "('t, 's, 'd, 'rx) fake_clientset \<Rightarrow> 'd" where
  "fake_clientset_discovery c = fs_discovery c"

definition fake_clientset_tracker :: "('t, 's, 'd, 'rx) fake_clientset \<Rightarrow> 't" where
  "fake_clientset_tracker c = fs_tracker c"

text \<open>\<^verbatim>\<open>RusiV1alpha1\<close> gives the embedded fake (\<open>fake\<close> is its address), and that the fakes of the two resources.\<close>

definition fake_components where "fake_components fake ns = \<lparr>fc_fake = fake, fc_ns = ns\<rparr>"

definition fake_configurations where "fake_configurations fake ns = \<lparr>fc_fake = fake, fc_ns = ns\<rparr>"

definition fake_rest_client :: "'c \<Rightarrow> 'rest option" where
  "fake_rest_client c = None"

lemma add_objects_Value:
  "add_objects lib objects o1 = Value o2 \<longleftrightarrow>
     (\<forall>i<length objects. fst (tk_add lib (objects ! i) (fold (\<lambda>x t. snd (tk_add lib x t)) (take i objects) o1)) = None)
     \<and> o2 = fold (\<lambda>x t. snd (tk_add lib x t)) objects o1"
proof (induction objects arbitrary: o1)
  case (Cons x xs)
  obtain e o3 where add: "tk_add lib x o1 = (e, o3)" by (rule prod.exhaust)
  show ?case
    using Cons.IH [of o3] add by (cases e) (auto simp: nth_Cons split: nat.splits)
qed auto

text \<open>
  A client set exists exactly when the tracker takes every object in turn; then a watch is answered by the
  tracker as it is at that moment, or left to other reactors.
\<close>

theorem fake_clientset_made:
  assumes "new_simple_clientset lib objects = Value cs"
  shows "fs_tracker cs = fold (\<lambda>x t. snd (tk_add lib x t)) objects (tk_new_tracker lib)
    \<and> (\<forall>f\<in>set (fs_watch_reactors cs). \<forall>t r ns.
         fst f = ''*'' \<and> (fst (snd f t (r, ns)) \<longleftrightarrow> (\<exists>w. tk_watch lib t r ns = Inr w)))"
proof -
  obtain o1 where "add_objects lib objects (tk_new_tracker lib) = Value o1"
    and "cs = \<lparr>fs_tracker = o1, fs_discovery = tk_fake_discovery lib,
      fs_reactors = [(''*'', ''*'', tk_object_reaction lib)], fs_watch_reactors = [(''*'', watch_reaction lib)]\<rparr>"
    using assms by (auto simp: new_simple_clientset_def split: attempt.splits)
  then show ?thesis by (simp add: add_objects_Value watch_reaction_def split: sum.split)
qed

end
