(* ===== verification/Metrics_Setup.thy ===== *)
theory Metrics_Setup
  imports Runtime Diagnostics_Server
begin

text \<open>
  What the sidecar sets up for those that watch it: \<^verbatim>\<open>startDiagnosticsServer\<close> (\<^verbatim>\<open>cmd/rusid/sidecar.go\<close>) with the
  routes of its server, the meter provider of \<^verbatim>\<open>internal/metrics/prometheus.go\<close> and \<^verbatim>\<open>metrics.go\<close>, and the
  version of the build (\<^verbatim>\<open>internal/version/version.go\<close>).  OpenTelemetry and Prometheus are a record of parameters.
\<close>

section \<open>The meter provider\<close>

text \<open>
  \<open>'x\<close> is an exporter, \<open>'r\<close> a resource and \<open>'p\<close> a provider.  \<open>ml_service_resource\<close> is \<^verbatim>\<open>resource.New\<close> with the host and
  the name of the service; a resource that fails may be nil or a part.
\<close>

record ('x, 'r, 'p) metrics_library =
  ml_new_exporter :: "error + 'x"
  ml_service_resource :: "string \<Rightarrow> 'r option \<times> error option"
  ml_default_resource :: "'r option"
  ml_merge :: "'r option \<Rightarrow> 'r option \<Rightarrow> 'r option \<times> error option"
  ml_new_provider :: "'r option \<Rightarrow> 'x \<Rightarrow> 'p"
  ml_noop_provider :: 'p

text \<open>The state is the global provider of \<^verbatim>\<open>otel\<close>; both errors of the resources are dropped.\<close>

definition setup_prometheus_metrics :: "('x, 'r, 'p) metrics_library \<Rightarrow> string \<Rightarrow> 'p \<Rightarrow> 'x option \<times> 'p" where
  "setup_prometheus_metrics lib app_id provider =
     (case ml_new_exporter lib of
        Inl err \<Rightarrow> (None, provider)
      | Inr exporter \<Rightarrow>
          (let r = fst (ml_service_resource lib app_id);
               r1 = fst (ml_merge lib (ml_default_resource lib) r)
           in (Some exporter, ml_new_provider lib r1 exporter)))"

definition set_noop_meter_provider :: "('x, 'r, 'p) metrics_library \<Rightarrow> 'p \<Rightarrow> 'p" where
  "set_noop_meter_provider lib provider = ml_noop_provider lib"

section \<open>The diagnostics server\<close>

datatype diagnostics_handler = HealthHandler | PrometheusHandler

text \<open>
  \<open>run\<close> is \<^verbatim>\<open>diagnostics.Run\<close> on the port and the routes, until it returns; the last component is the error that is
  reported.
\<close>

definition start_diagnostics_server :: "('x, 'r, 'p) metrics_library \<Rightarrow> (int \<Rightarrow> (string \<times> diagnostics_handler) list \<Rightarrow> error option)
    \<Rightarrow> string \<Rightarrow> int \<Rightarrow> bool \<Rightarrow> 'p \<Rightarrow> (string \<times> diagnostics_handler) list \<times> 'p \<times> error option" where
  "start_diagnostics_server lib run app_id port enable_metrics provider =
     (let router = [(''/healthz'', HealthHandler)];
          (router1, provider1) =
            (if enable_metrics
             then (case setup_prometheus_metrics lib app_id provider of
                     (_, p1) \<Rightarrow> (router @ [(''/metrics'', PrometheusHandler)], p1))
             else (router, set_noop_meter_provider lib provider))
      in (router1, provider1,
          case run port router1 of
            None \<Rightarrow> None
          | Some err \<Rightarrow> (if err \<noteq> server_closed then Some err else None)))"

text \<open>
  The health is always served, the metrics exactly when they are enabled, and a server that was shut down
  reports nothing.
\<close>

theorem diagnostics_routes:
  assumes "start_diagnostics_server lib run app_id port enable_metrics provider = (router, provider1, err)"
  shows "map_of router ''/healthz'' = Some HealthHandler"
    and "map_of router ''/metrics'' = (if enable_metrics then Some PrometheusHandler else None)"
    and "err = (if run port router = Some server_closed then None else run port router)"
  using assms
  by (auto simp: start_diagnostics_server_def Let_def split: prod.splits if_splits option.splits)

text \<open>
  Without metrics nothing is measured.  With metrics the provider knows the service by the application id, unless the
  exporter failed: then the provider stays as it was, and \<^verbatim>\<open>/metrics\<close> is served all the same.
\<close>

theorem diagnostics_provider:
  assumes "start_diagnostics_server lib run app_id port enable_metrics provider = (router, provider1, err)"
  shows "provider1 =
    (if \<not> enable_metrics then ml_noop_provider lib
     else case ml_new_exporter lib of
        Inl e \<Rightarrow> provider
      | Inr x \<Rightarrow> ml_new_provider lib
          (fst (ml_merge lib (ml_default_resource lib) (fst (ml_service_resource lib app_id)))) x)"
  using assms
  by (auto simp: start_diagnostics_server_def setup_prometheus_metrics_def set_noop_meter_provider_def Let_def
      split: prod.splits if_splits sum.splits)

section \<open>The version\<close>

text \<open>Package variables that the linker may set; without it they are as they are declared.\<close>

record build_info =
  bi_version :: string
  bi_gitcommit :: string
  bi_gitversion :: string

definition unset_build :: build_info where
  "unset_build = \<lparr>bi_version = ''edge'', bi_gitcommit = [], bi_gitversion = []\<rparr>"

definition rusi_version :: "build_info \<Rightarrow> string" where
  "rusi_version b = bi_version b"

definition rusi_commit :: "build_info \<Rightarrow> string" where
  "rusi_commit b = bi_gitcommit b"

definition rusi_git_version :: "build_info \<Rightarrow> string" where
  "rusi_git_version b = bi_gitversion b"

text \<open>
  A build without a version passes every required version that starts with a digit, and fails every one that starts
  with a letter after "e", as "v1.0.0" does.
\<close>

lemma unset_build_health:
  assumes "sp_min_runtime_version (rt_config rt) = c # v" and "c \<noteq> CHR ''e''"
  shows "hr_status (runtime_is_healthy (rusi_version unset_build) rt) = (if CHR ''e'' < c then Unhealthy else Healthy)"
  using assms by (auto simp: runtime_is_healthy_def rusi_version_def unset_build_def healthy_result_def)

end
