(* ===== verification/Spec2Isabelle.thy ===== *)
theory Spec2Isabelle
  imports Inmemory Runtime_Config Grpc_Delivery Grpc_Refresh Delivery Jetstream Injector Operator_Wire
    Yaml_Documents Diagnostics Diagnostics_Server Sidecar Shutdown Deepcopy Informers
    Grpc_Services Injector_Main Component_Delivery Kube_Scheme Metrics_Setup
begin

text \<open>
  Rusi: a verification development of the message-bus sidecar \<open>osstotalsoft/rusi\<close>.

  What the program is.  Rusi runs beside an application, as a sidecar of its Kubernetes pod.  The
  application calls it over gRPC to publish and to subscribe; Rusi passes the message through a
  pipeline of middlewares to a pub/sub component (NATS Streaming, JetStream or an in-memory bus),
  which it creates from component specifications that it reads from local YAML files or receives
  from the operator.  The operator watches the custom resources of the cluster and streams them to
  the sidecars; the injector is the admission webhook that adds the sidecar to annotated pods.

  How the theories correspond to the source (file names under \<open>src/\<close>).

  \<^item> \<open>Prelude\<close>: Go errors as values (wrapping, \<open>errors.Is\<close>), maps that may be nil, the string
    functions the source calls (\<open>strings.ToLower\<close>, \<open>Replace\<close>, \<open>Split\<close>, \<open>TrimSpace\<close>), decimal numbers
    (\<open>strconv\<close>) with their ranges, reachable states and the locales for runs of step
    relations: \<open>preserved\<close>, \<open>invariant_system\<close>, \<open>simulation\<close> (refinement of an abstract system) and
    \<open>progress_system\<close> (a measure that can always be decreased).  \<open>Listeners\<close>: the contract of a list of listeners
    (the locale \<open>listener_list\<close>), with the in-memory bus and the operator as its two providers.
  \<^item> \<open>Messaging\<close>, \<open>Middleware\<close>: \<open>pkg/messaging\<close>, \<open>pkg/middleware\<close> and \<open>internal/metrics\<close>: envelopes, the
    pipeline, the metric and the tracing middlewares.  The state a handler works on is a
    parameter \<open>'w\<close>, so that one pipeline serves the bus, the runtime and the traces.
  \<^item> \<open>Inmemory\<close>: \<open>pkg/messaging/inmemory.go\<close>.  \<open>Nats\<close> and \<open>Jetstream\<close>: \<open>pkg/messaging/nats\<close> and
    \<open>pkg/messaging/jetstream\<close>; the two client libraries and the serializer are parameters, \<open>Serdes\<close> is
    \<open>pkg/messaging/serdes\<close>.  \<open>Delivery\<close> composes the parts of one message's way: the gRPC call, the
    runtime, the publisher's middlewares, a broker, the subscriber's middlewares, the handler.
  \<^item> \<open>Registry\<close>: the registries of \<open>pkg/custom-resource/components/pubsub\<close> and \<open>.../middleware\<close> and
    \<open>versioning.go\<close>, both proved to be a \<open>component_registry\<close>.  \<open>Configuration\<close>: the configuration
    types and defaults.  \<open>Components\<close>: \<open>pkg/runtime/components_manager.go\<close> and \<open>options.go\<close>.  \<open>Runtime_Config\<close>:
    \<open>pkg/runtime/config.go\<close>.  \<open>Runtime\<close>: \<open>pkg/runtime/runtime.go\<close> and the registrations of
    \<open>cmd/rusid/components.go\<close>.
  \<^item> \<open>Proto\<close>, \<open>Grpc_Server\<close>, \<open>Grpc_Ack\<close>, \<open>Grpc_Refresh\<close>: the messages of \<open>rusi.proto\<close> with their
    nil-safe getters and \<open>pkg/api/runtime/grpc/grpc_api.go\<close>.  \<open>Grpc_Server\<close> is the sequential
    behaviour of one call; \<open>Grpc_Ack\<close> and \<open>Grpc_Refresh\<close> are step relations in which each goroutine
    has a program counter and the channels and read-write locks of the source are part of the state.
    \<open>Grpc_Delivery\<close> is the abstract protocol of a delivery, which \<open>Grpc_Ack\<close> is proved to refine.
    \<open>Grpc_Services\<close>: the generated clients and servers of both services; the names a client calls find
    the handlers, and a call that is not lost on its way answers what the server's Publish returned.
  \<^item> \<open>Metadata_Items\<close>, \<open>Loader\<close>, \<open>Operator\<close>, \<open>Operator_Client\<close>: components and configurations on
    their way to a sidecar (\<open>local.go\<close>, \<open>pkg/operator\<close>): decoding of YAML documents, the server that
    stores objects and replays them to every stream, the client that reconnects.  \<open>Yaml_Documents\<close>
    gives a reference for the decoding of a file; \<open>Operator_Wire\<close> is the JSON between the operator's
    types (\<open>pkg/operator/apis/rusi/v1alpha1\<close>) and the sidecar's, by their struct tags; \<open>Json_Unquote\<close> is
    what \<open>strconv.Unquote\<close> does to the values of metadata items.  \<open>Component_Delivery\<close> composes the operator's
    stream, the client and the components manager: what becomes of a component of the cluster in a sidecar.
  \<^item> \<open>Go_Heap\<close>, \<open>Deepcopy\<close>: a store of arrays for slices that share them, the contract of a \<open>DeepCopyInto\<close>
    (the locale \<open>deep_copy\<close>) with the lemmas that build a deep copy from those of the parts, and the
    generated \<open>zz_generated.deepcopy.go\<close>.
  \<^item> \<open>Rest_Client\<close>, \<open>Kube_Client\<close>, \<open>Listers\<close>, \<open>Informers\<close>: \<open>pkg/operator/client\<close> and \<open>internal/kube\<close>: the
    requests of the typed clients and the actions of their fakes, which are proved to ask for the same; the
    client set and the client a process keeps; the reading of an informer's cache; the factory of the
    shared informers with its locks, and \<open>operator.Run\<close>, which starts two of them.  \<open>Kube_Scheme\<close>: the
    registration of the types in the schemes, and the fake client set.
  \<^item> \<open>Utils\<close>, \<open>Injector_Patch\<close>, \<open>Injector\<close>: \<open>pkg/injector\<close>: the annotations of a pod, the JSON patch
    that adds the sidecar, the checks of an admission review.  \<open>Injector_Main\<close>: the start of \<open>cmd/injector\<close>,
    and which accounts a started server trusts.
  \<^item> \<open>Healthcheck\<close>, \<open>Diagnostics\<close>, \<open>Diagnostics_Server\<close>: \<open>pkg/healthcheck\<close>, the reaction of
    \<open>internal/diagnostics\<close> to a change of the telemetry configuration, and its HTTP server with the
    goroutine that stops it.  \<open>Metrics_Setup\<close>: the routes of that server, the meter providers of
    \<open>internal/metrics\<close> and \<open>internal/version\<close>.
  \<^item> \<open>Sidecar\<close>, \<open>Shutdown\<close>: \<open>cmd/rusid/sidecar.go\<close>: the command line and the start of \<open>main\<close>; the API object
    (\<open>grpcApi\<close>, \<open>TestApi\<close>) and the end of \<open>main\<close> with its wait groups, as a step relation.  This theory
    joins the injector and the sidecar.

  Conventions.  A Go function with an error result is a function into \<open>error + 'a\<close> (or
  \<open>error option\<close>), a run-time panic is the constructor \<open>Panics\<close> or \<open>Crash\<close> of an outcome.  A map that may
  be nil is \<open>gomap\<close>; a write to the nil map is a panic.  Go iterates over a map in an unspecified order:
  every such loop takes the order as an argument (a list that \<open>enumerates\<close> the map) and the properties
  quantify over it.  Widths matter where the source narrows: \<open>strconv\<close> parses into its bit
  size, the protobuf fields are \<open>32 word\<close>s and are read as \<open>int32\<close>.

  Calls and streams of gRPC are taken as it documents them.  A call is run at most once; it is answered, or ends
  with a status of the transport, and then the server may have run or not (\<open>served_by\<close> in \<open>Grpc_Services\<close>).  A stream
  delivers in order, and loses what was sent last when it breaks; the client then opens another one, which the
  operator serves from the start (\<open>link\<close> in \<open>Operator_Wire\<close>, \<open>component_link\<close> in \<open>Component_Delivery\<close>).

  Where the models allow more than the code does: a reader may take a read-write lock while a writer waits for it
  (\<open>Grpc_Refresh\<close>, \<open>Operator\<close>), and a watcher of the operator ends as soon as its context is cancelled, also while it
  hands a specification on (\<open>task_step\<close> in \<open>Shutdown\<close>).  Where they allow less: the handlers of the in-memory bus stay the same
  during a run of its dispatches (\<open>run_step\<close>); the decoder of an admission review gives its kind whenever it
  leaves a request in it (\<open>handle_request\<close>).

  What the lemmas show, by theme.
  \<^item> Pipelines: the middlewares run in registration order around the handler, each published
    message closes the span it opens (C10), a subscription goes through the whole configured
    pipeline or fails (C12).
  \<^item> The component manager: lookup does not depend on map order, the effect of each operation
    (C14) and its failures (C39), initialisation with the consumer id (C15), health (C23).
  \<^item> The runtime: the outcomes of a publish (C13), a message from the publisher's call to the
    subscriber's handler, over NATS Streaming and over JetStream (C1, C22, two instances of one locale), flags and
    environment (C24), a sidecar as the injector starts it, which waits for its configuration (C5), its shutdown: what the exit waits for (C21), and that it can always be reached (C20).
  \<^item> The gRPC service: what an application can conclude from the answer to a publish (C30), every
    subscription is closed once when the stream ends (C11).  Acknowledgement: the handlers implement an abstract delivery protocol (C2, a
    simulation), a handler that returned success had been acknowledged by the client (C3, an invariant by
    rule induction), an acknowledgement that was received stays on its way to its waiting handler until it reaches it or the
    handler's context ends (C18), a schedule that ends with every goroutine of a stream blocked for ever
    (C34), and a handler that no answer can reach any more (C35).  Refresh: channels are private to a stream (C16), a refresh reaches all streams (C17), and its
    own deadlock (C36).
  \<^item> Brokers: the in-memory bus (C26, C25), the registries, NATS options (C31), JetStream
    pull loop and consumer names (C19, C38, C40).
  \<^item> The injector: the exact patch (C6) and who may be patched (C7).  Components and configurations: a
    YAML file decodes as its documents one by one (C4), how a configuration reaches the sidecar (C8) and a
    component becomes a pub/sub object of the sidecars of its namespace (C27) over streams that break, the metadata conversion (C33), every
    object reaches every stream (C9), but updates can overtake each other (C29), the frozen replay (C37).
  \<^item> The operator's clients: a deep copy shares no array with its original (C28), a factory has one
    informer for each type and runs it once (C32); a list over REST and its fake ask for the same, a
    lister finds an object by its namespace and name.

  Termination and bounds.  Loops over lists and maps are structural; \<open>Loader\<close>'s decoding loop runs on
  fuel and is proved to need no more than one turn for each document of its input and one more, except
  for an input that makes the scanner fail, on which no fuel is enough.  Loops that serve events (watches,
  subscriptions, receivers) are functions of the finite list of events seen so far, or
  step relations without a bound on their runs.

  Not modelled: the reflection tables of the protobuf messages, the listening sockets and TLS of the servers,
  Prometheus and OpenTelemetry themselves, and functions that only log.  The libraries the source calls (NATS, gRPC, JSON, YAML, Kubernetes API
  machinery and client-go) are arguments of the definitions that use them.
\<close>

section \<open>From an admission review to the sidecar that serves the application\<close>

text \<open>
  The injector and the sidecar agree through strings only: the arguments the one writes into the
  container are the command line the other parses.  The lemmas here follow the arguments from the
  annotations of the pod to the configuration of the process.
\<close>

definition sidecar_flags :: "gomap \<Rightarrow> string \<Rightarrow> string \<Rightarrow> config_builder" where
  "sidecar_flags annotations ident address =
     (attach_cmd_flags new_runtime_config_builder)
       \<lparr>cb_mode := kubernetes_mode, cb_app_id := ident, cb_control_plane_address := address,
        cb_config := get_config annotations, cb_enable_metrics := get_enable_metrics annotations\<rparr>"

lemma parse_metrics_flag:
  "parse_flags (rusid_flags klog) [''--enable-metrics=true''] c = Inr ([], c\<lparr>cb_enable_metrics := True\<rparr>)"
  "parse_flags (rusid_flags klog) [''--enable-metrics=false''] c = Inr ([], c\<lparr>cb_enable_metrics := False\<rparr>)"
  by (simp_all add: flag_body_def flag_name_def flag_value_def rusid_flags_known parse_bool_def)

lemma parse_sidecar_args:
  assumes "klog ''v'' = Some (False, accepts)" and "accepts (get_log_level annotations)"
  shows "parse_flags (rusid_flags klog) (sidecar_args annotations ident address)
      (attach_cmd_flags new_runtime_config_builder) = Inr ([], sidecar_flags annotations ident address)"
  using assms
    parse_flags_two_args [of "rusid_flags klog" "''rusi-grpc-port''"]
    parse_flags_two_args [of "rusid_flags klog" "''app-id''"]
    parse_flags_two_args [of "rusid_flags klog" "''mode''"]
    parse_flags_two_args [of "rusid_flags klog" "''v''"]
    parse_flags_two_args [of "rusid_flags klog" "''control-plane-address''"]
    parse_flags_two_args [of "rusid_flags klog" "''config''"]
  by (simp del: parse_flags.simps add: sidecar_args_def rusid_flags_known parse_int_flag_grpc_port
      parse_metrics_flag sidecar_flags_def attach_cmd_flags_def default_grpc_port_def kubernetes_mode_def)

text \<open>
  The command line of a sidecar that is not started under the debugger, and what becomes of it.  The name of
  its configuration is never empty, since the injector has a default for a missing or empty annotation.
\<close>

lemma get_config_value:
  "get_config annotations = (case gomap_get annotations ''rusi.io/config'' of
     None \<Rightarrow> ''default'' | Some name \<Rightarrow> if name = [] then ''default'' else name)"
  by (simp add: get_config_def get_string_annotation_or_default_def gomap_nonempty_def split: option.split)

lemma get_config_nonempty: "get_config annotations \<noteq> []"
  by (simp add: get_config_value split: option.split)

lemma sidecar_command:
  assumes "\<not> get_enable_debug annotations"
  shows "co_command (get_sidecar_container pq ml mr annotations ident img pol ns addr tm as_init) = [''/rusid'']"
    and "co_args (get_sidecar_container pq ml mr annotations ident img pol ns addr tm as_init)
      = sidecar_args annotations ident addr"
  using assms by (simp_all add: get_sidecar_container_def Let_def)

lemma validate_sidecar_flags:
  "ident \<noteq> [] \<Longrightarrow> address \<noteq> [] \<Longrightarrow> validate_config (sidecar_flags annotations ident address) = None"
  using get_config_nonempty [of annotations] by (simp add: validate_config_def sidecar_flags_def)

definition started_manager :: "string \<Rightarrow> 'p pubsub_definition list \<Rightarrow> ('o, 'w) middleware_definition list
    \<Rightarrow> ('p, 'o, 'w) manager" where
  "started_manager app_id pubsubs middlewares =
     \<lparr>m_app_id = app_id, m_instances = fmempty, m_components = fmempty, m_notifications = [], m_watch_closed = False,
      m_pubsubs = pubsub_register pubsubs fmempty, m_middlewares = middleware_register middlewares fmempty\<rparr>"

text \<open>C5: the sidecar that the injector adds to a pod (not under the debugger) reads its
  own command line back: it has the application id of the pod, Kubernetes mode, port 50003, the address of the
  operator, the metrics the annotation asks for, and the configuration that the \<^verbatim>\<open>rusi.io/config\<close> annotation names,
  or "default" without one.  It runs with that configuration once the operator sends it - and waits for ever, with
  neither its API nor its health checks started, when there is none of that name.  This holds when klog takes the
  log level, the environment can be set and the operator's streams open.\<close>

theorem injected_sidecar_starts:
  assumes "unmarshal_pod raw = Inr p"
    and "is_resource_rusi_enabled (po_annotations p)" and "\<not> pod_contains_sidecar_container p"
    and "get_app_id p \<noteq> []" and "\<not> get_enable_debug (po_annotations p)"
    and "klog ''v'' = Some (False, accepts)" and "accepts (get_log_level (po_annotations p))"
    and "\<forall>k v e. fst (setenv k v e) = None"
    and "\<forall>a. ld_watch_components ld a = None" and "\<forall>a n. ld_watch_configuration ld a n = Inr (conf n)"
  shows "\<exists>c ops. get_pod_patch_operations pq ml mr unmarshal_pod cfg raw ns
      = Inr (sidecar_patch (ic_inject_as_init_container cfg) c p # ops)
    \<and> co_command c = [''/rusid'']
    \<and> (\<exists>rc. rc_config rc = (case gomap_get (po_annotations p) ''rusi.io/config'' of
               None \<Rightarrow> ''default'' | Some name \<Rightarrow> if name = [] then ''default'' else name)
           \<and> rc_mode rc = kubernetes_mode \<and> rc_app_id rc = get_app_id p \<and> rc_grpc_port rc = 50003
           \<and> rc_enable_metrics rc = get_enable_metrics (po_annotations p)
           \<and> rc_control_plane_address rc = get_service_address ''rusi-api'' (ic_namespace cfg) (ic_kube_cluster_domain cfg) 80
           \<and> (case conf (rc_config rc) of
                 NeverArrives \<Rightarrow> fst (rusid_main klog setenv ks ld pubsubs middlewares (co_args c) env) = WaitsForConfiguration rc
               | first \<Rightarrow> (\<exists>rt. fst (rusid_main klog setenv ks ld pubsubs middlewares (co_args c) env) = Running rc rt
                   \<and> rt_app_id rt = get_app_id p
                   \<and> rt_config rt = (case first of Arrives spec \<Rightarrow> spec | _ \<Rightarrow> zero_config))))"
proof -
  let ?a = "po_annotations p"
  let ?addr = "get_service_address ''rusi-api'' (ic_namespace cfg) (ic_kube_cluster_domain cfg) 80"
  let ?c = "get_sidecar_container pq ml mr ?a (get_app_id p) (ic_sidecar_image cfg) (ic_sidecar_image_pull_policy cfg)
      ns ?addr (get_token_volume_mount p) (ic_inject_as_init_container cfg)"
  let ?cb = "sidecar_flags ?a (get_app_id p) ?addr"
  have ops: "\<exists>ops. get_pod_patch_operations pq ml mr unmarshal_pod cfg raw ns
      = Inr (sidecar_patch (ic_inject_as_init_container cfg) ?c p # ops)"
    using assms(1-4) by (simp add: get_pod_patch_operations_def validate_kubernetes_app_id_def Let_def)
  have flags: "parse_flags (rusid_flags klog) (co_args ?c) (attach_cmd_flags new_runtime_config_builder) = Inr ([], ?cb)"
    using assms(5-7) by (simp add: sidecar_command parse_sidecar_args)
  have addr: "?addr \<noteq> []" by (simp add: get_service_address_def)
  obtain r env1 where b: "build_config setenv ks ?cb env = (r, env1)" by (rule prod.exhaust)
  let ?rc = "\<lparr>rc_mode = kubernetes_mode, rc_grpc_host = cb_grpc_host ?cb, rc_grpc_port = 50003,
      rc_diagnostics_port = cb_diagnostics_port ?cb, rc_enable_metrics = get_enable_metrics ?a,
      rc_components_path = cb_components_path ?cb, rc_config = get_config ?a,
      rc_control_plane_address = ?addr, rc_app_id = get_app_id p\<rparr>"
  have r: "r = Inr ?rc"
    using build_config_parts [OF assms(8), of ks ?cb env] validate_sidecar_flags [OF assms(4) addr] b
    by (simp add: sidecar_flags_def attach_cmd_flags_def default_grpc_port_def split: if_splits)
  have run: "fst (rusid_main klog setenv ks ld pubsubs middlewares (co_args ?c) env) =
      (case conf (get_config ?a) of
         NeverArrives \<Rightarrow> WaitsForConfiguration ?rc
       | first \<Rightarrow> Running ?rc \<lparr>rt_app_id = get_app_id p, rt_config = (case first of Arrives spec \<Rightarrow> spec | _ \<Rightarrow> zero_config),
           rt_manager = started_manager (get_app_id p) pubsubs middlewares, rt_refreshes = 0\<rparr>)"
    using flags b r assms(9,10)
    by (simp add: rusid_main_def Let_def new_components_manager_def started_manager_def new_runtime_def
        split: first_received.split)
  have config: "rc_config ?rc = (case gomap_get ?a ''rusi.io/config'' of
      None \<Rightarrow> ''default'' | Some name \<Rightarrow> if name = [] then ''default'' else name)"
    by (simp add: get_config_value)
  have result: "case conf (rc_config ?rc) of
      NeverArrives \<Rightarrow> fst (rusid_main klog setenv ks ld pubsubs middlewares (co_args ?c) env) = WaitsForConfiguration ?rc
    | first \<Rightarrow> (\<exists>rt. fst (rusid_main klog setenv ks ld pubsubs middlewares (co_args ?c) env) = Running ?rc rt
        \<and> rt_app_id rt = get_app_id p \<and> rt_config rt = (case first of Arrives spec \<Rightarrow> spec | _ \<Rightarrow> zero_config))"
    by (simp add: run split: first_received.split)
  from ops obtain ops where ops: "get_pod_patch_operations pq ml mr unmarshal_pod cfg raw ns
      = Inr (sidecar_patch (ic_inject_as_init_container cfg) ?c p # ops)" ..
  show ?thesis
    by (intro exI [of _ ?c] exI [of _ ops] conjI exI [of _ ?rc] ops config result sidecar_command(1) [OF assms(5)]) simp_all
qed

section \<open>Witness\<close>

definition configured_pod :: "nat pod" where
  "configured_pod =
     sample_pod\<lparr>po_annotations := Some (fmupd ''rusi.io/config'' ''main'' (fmupd ''rusi.io/enabled'' ''true'' fmempty))\<rparr>"

lemma configured_pod_facts:
  "is_resource_rusi_enabled (po_annotations configured_pod)" "\<not> pod_contains_sidecar_container configured_pod"
  "get_app_id configured_pod \<noteq> []" "\<not> get_enable_debug (po_annotations configured_pod)"
  "get_app_id configured_pod = ''shop''" "get_config (po_annotations configured_pod) = ''main''"
  by (simp_all add: configured_pod_def sample_pod_def sample_container_def is_resource_rusi_enabled_def
      get_bool_annotation_or_default_def to_lower_def lower_char_def pod_contains_sidecar_container_def
      get_app_id_def get_string_annotation_or_default_def gomap_nonempty_def get_enable_debug_def get_config_def)

definition open_loaders :: loaders where
  "open_loaders =
     \<lparr>ld_local_components = (\<lambda>path. None), ld_watch_components = (\<lambda>a. None),
      ld_standalone_configuration = (\<lambda>path. Inr (Arrives load_default_configuration)),
      ld_watch_configuration = (\<lambda>a n. Inr (if n = ''main'' then Arrives load_default_configuration else NeverArrives))\<rparr>"

definition start_configured :: "string list \<Rightarrow> (nat, unit, unit) runtime startup \<times> smap" where
  "start_configured args =
     rusid_main (\<lambda>name. if name = ''v'' then Some (False, \<lambda>s. s = ''2'') else None) map_setenv
       [env_app_id, env_grpc_host, env_grpc_port] open_loaders [] [] args fmempty"

lemma open_loaders_configuration:
  "\<forall>a n. ld_watch_configuration open_loaders a n
     = Inr ((\<lambda>n. if n = ''main'' then Arrives load_default_configuration else NeverArrives) n)"
  by (simp add: open_loaders_def)

theorem injected_sidecar_starts_witness:
  "\<exists>c rc rt. co_command c = [''/rusid''] \<and> fst (start_configured (co_args (c :: nat container))) = Running rc rt
     \<and> rc_app_id rc = ''shop'' \<and> rc_config rc = ''main'' \<and> rt_config rt = load_default_configuration"
proof -
  let ?klog = "\<lambda>name. if name = ''v'' then Some (False, \<lambda>s. s = ''2'') else None"
  have v: "?klog ''v'' = Some (False, \<lambda>s. s = ''2'')" by simp
  have level: "(\<lambda>s. s = ''2'') (get_log_level (po_annotations configured_pod))"
    by (simp add: configured_pod_def get_log_level_def get_string_annotation_or_default_def gomap_nonempty_def)
  have env: "\<forall>k v e. fst (map_setenv k v e) = None" by (simp add: map_setenv_def)
  have comps: "\<forall>a. ld_watch_components open_loaders a = None" by (simp add: open_loaders_def)
  have main: "gomap_get (po_annotations configured_pod) ''rusi.io/config'' = Some ''main''"
    by (simp add: configured_pod_def)
  from injected_sidecar_starts [where unmarshal_pod = "\<lambda>raw. Inr configured_pod" and raw = "[]"
      and klog = ?klog and accepts = "\<lambda>s. s = ''2''", OF refl
      configured_pod_facts(1-4) v level env comps open_loaders_configuration, of "\<lambda>s. Inr 0" 1 2 new_config_with_defaults
      "''ns''" "[env_app_id, env_grpc_host, env_grpc_port]" "[]" "[]" fmempty]
  show ?thesis
    unfolding start_configured_def configured_pod_facts(5) main by fastforce
qed

end
